(* ===== verification/Prelude.thy ===== *)
theory Prelude
  imports Main "HOL-Library.Word" "HOL-Library.AList" "HOL-Library.Multiset"
begin

text \<open>
  What every component shares: the width of Go's integers, Go errors and panics as values,
  the state-and-fault monad the reconcilers run in, Go maps as association lists with
  distinct keys, the order a \<^verbatim>\<open>range\<close> over a map takes as an explicit argument, and the
  decimal and line formatting of package \<^verbatim>\<open>fmt\<close>.

  Three collections carry the automation: \<open>go_run\<close> (running the monad), \<open>gomap_simps\<close>
  (looking a key up after an update of a map) and \<open>text_simps\<close> (formatting).
\<close>

named_theorems go_run
named_theorems gomap_simps
named_theorems text_simps

section \<open>Machine integers\<close>

text \<open>Go's \<^verbatim>\<open>int32\<close> and \<^verbatim>\<open>int\<close> (64 bits here): \<open>+\<close> and \<open>-\<close> wrap, \<open>sint\<close> reads the value.\<close>

type_synonym int32 = "32 word"
type_synonym int64 = "64 word"

lemma sint_int32_range: "- (2 ^ 31) \<le> sint (a :: int32)" "sint (a :: int32) < 2 ^ 31"
  using sint_ge [of a] sint_lt [of a] by simp_all

lemma sint_int32_inj: "sint (a :: int32) = sint b \<Longrightarrow> a = b"
  by (metis signed_word_eqI)

lemma sint_int32_add_one: "sint (a :: int32) < 2 ^ 31 - 1 \<Longrightarrow> sint (a + 1) = sint a + 1"
  using sint_int32_range(1) [of a]
  by (simp add: sint_word_add signed_take_bit_int_eq_self)

text \<open>
  A difference of two ordered \<^verbatim>\<open>int32\<close> values that reads as more than one really is more than
  one: when the subtraction wraps, the result is negative.
\<close>

lemma sint_int32_diff_gt_one:
  assumes "sint (p :: int32) \<le> sint q" and "1 < sint (q - p)"
  shows "sint p + 1 < sint q"
proof -
  define d where "d = sint q - sint p"
  have d: "0 \<le> d" "d < 2 ^ 32"
    using assms(1) sint_int32_range [of p] sint_int32_range [of q] by (auto simp: d_def)
  have diff: "sint (q - p) = signed_take_bit 31 d"
    by (simp add: d_def sint_word_diff)
  show ?thesis
  proof (cases "d < 2 ^ 31")
    case True
    then have "signed_take_bit 31 d = d"
      using d by (simp add: signed_take_bit_int_eq_self)
    with assms(2) diff show ?thesis by (simp add: d_def)
  next
    case False
    then show ?thesis using assms(1) by (simp add: d_def)
  qed
qed

text \<open>Within half of the range the subtraction does not wrap.\<close>

lemma sint_int32_diff_exact:
  assumes "0 \<le> sint (p :: int32)" and "sint p \<le> sint q"
  shows "sint (q - p) = sint q - sint p"
proof -
  have "0 \<le> sint q - sint p" "sint q - sint p < 2 ^ 31"
    using assms sint_int32_range(2) [of q] by simp_all
  then show ?thesis
    by (simp add: sint_word_diff signed_take_bit_int_eq_self)
qed

section \<open>Errors, panics and the monad of the reconcilers\<close>

text \<open>
  A Go error value as the program sees it: it asks the API machinery whether an error is
  \<^verbatim>\<open>NotFound\<close> and wraps errors with \<^verbatim>\<open>fmt.Errorf("...: %w", err)\<close>; nothing else of an error
  is inspected. A panic unwinds through every caller; \<open>PanicWith\<close> is an explicit \<^verbatim>\<open>panic(err)\<close>.
\<close>

datatype goerror = NotFoundErr string | OtherErr string | Wrapped string goerror

datatype panic = NilDereference | NilMapAssignment | PanicWith goerror

datatype fault = Err goerror | Panic panic

type_synonym 'a result = "fault + 'a"

text \<open>A computation over a world \<open>'w\<close> (the API server and its caches): a result and the next world.\<close>

type_synonym ('w, 'a) go = "'w \<Rightarrow> 'a result \<times> 'w"

definition go_return :: "'a \<Rightarrow> ('w, 'a) go" where
  "go_return x = (\<lambda>w. (Inr x, w))"

definition go_fail :: "goerror \<Rightarrow> ('w, 'a) go" where
  "go_fail e = (\<lambda>w. (Inl (Err e), w))"

definition go_lift :: "'a result \<Rightarrow> ('w, 'a) go" where
  "go_lift r = (\<lambda>w. (r, w))"

definition go_bind :: "('w, 'a) go \<Rightarrow> ('a \<Rightarrow> ('w, 'b) go) \<Rightarrow> ('w, 'b) go" where
  "go_bind m f = (\<lambda>w. case m w of (Inl e, w') \<Rightarrow> (Inl e, w') | (Inr x, w') \<Rightarrow> f x w')"

definition res_bind :: "'a result \<Rightarrow> ('a \<Rightarrow> 'b result) \<Rightarrow> 'b result" where
  "res_bind r f = (case r of Inl e \<Rightarrow> Inl e | Inr x \<Rightarrow> f x)"

text \<open>Running a fallible step over a list and collecting the results in order.\<close>

fun res_map :: "('a \<Rightarrow> 'b result) \<Rightarrow> 'a list \<Rightarrow> 'b list result" where
  "res_map f [] = Inr []"
| "res_map f (x # xs) = res_bind (f x) (\<lambda>y. res_bind (res_map f xs) (\<lambda>ys. Inr (y # ys)))"

lemma go_return_run [go_run, simp]: "go_return x w = (Inr x, w)"
  by (simp add: go_return_def)

lemma go_fail_run [go_run, simp]: "go_fail e w = (Inl (Err e), w)"
  by (simp add: go_fail_def)

lemma go_lift_run [go_run, simp]: "go_lift r w = (r, w)"
  by (simp add: go_lift_def)

lemma go_bind_run [go_run]:
  "go_bind m f w = (case m w of (Inl e, w') \<Rightarrow> (Inl e, w') | (Inr x, w') \<Rightarrow> f x w')"
  by (simp add: go_bind_def)

lemma go_bind_Inr [simp]: "m w = (Inr x, w') \<Longrightarrow> go_bind m f w = f x w'"
  by (simp add: go_bind_def)

lemma go_bind_Inl [simp]: "m w = (Inl e, w') \<Longrightarrow> go_bind m f w = (Inl e, w')"
  by (simp add: go_bind_def)

lemma res_bind_simps [simp]: "res_bind (Inl e) f = Inl e" "res_bind (Inr x) f = f x"
  by (simp_all add: res_bind_def)

lemma res_bind_eq_Inr: "res_bind r f = Inr y \<longleftrightarrow> (\<exists>x. r = Inr x \<and> f x = Inr y)"
  by (cases r) auto

lemma res_map_eq_Inr: "res_map f xs = Inr ys \<longleftrightarrow> list_all2 (\<lambda>x y. f x = Inr y) xs ys"
  by (induction xs arbitrary: ys) (auto simp: res_bind_eq_Inr list_all2_Cons1)

lemma res_map_total: "(\<And>x. x \<in> set xs \<Longrightarrow> f x = Inr (g x)) \<Longrightarrow> res_map f xs = Inr (map g xs)"
  by (induction xs) auto

lemma res_map_Inl: "res_map f xs = Inl e \<Longrightarrow> \<exists>x \<in> set xs. f x = Inl e"
  by (induction xs) (auto simp: res_bind_def split: sum.splits)

lemma res_map_ok_iff: "(\<exists>ys. res_map f xs = Inr ys) \<longleftrightarrow> (\<forall>x \<in> set xs. \<exists>y. f x = Inr y)"
  by (induction xs) (auto simp: res_bind_eq_Inr)

section \<open>Go maps\<close>

text \<open>
  A Go map is an association list with distinct keys. The position of an entry carries no
  meaning: reads go through \<^const>\<open>map_of\<close>, and a \<^verbatim>\<open>range\<close> statement visits the entries in
  the order an explicit argument of the operation picks (\<open>range_order\<close> below), as the
  language leaves that order open.
\<close>

type_synonym ('k, 'v) gomap = "('k \<times> 'v) list"

abbreviation gm_get :: "('k, 'v) gomap \<Rightarrow> 'k \<Rightarrow> 'v option" where
  "gm_get \<equiv> map_of"

abbreviation gm_put :: "'k \<Rightarrow> 'v \<Rightarrow> ('k, 'v) gomap \<Rightarrow> ('k, 'v) gomap" where
  "gm_put \<equiv> AList.update"

abbreviation gm_del :: "'k \<Rightarrow> ('k, 'v) gomap \<Rightarrow> ('k, 'v) gomap" where
  "gm_del \<equiv> AList.delete"

definition gm_wf :: "('k, 'v) gomap \<Rightarrow> bool" where
  "gm_wf m \<longleftrightarrow> distinct (map fst m)"

definition range_order :: "('a list \<Rightarrow> 'a list) \<Rightarrow> bool" where
  "range_order ord \<longleftrightarrow> (\<forall>xs. mset (ord xs) = mset xs)"

lemma gm_get_put [gomap_simps]: "gm_get (gm_put k v m) k' = (if k' = k then Some v else gm_get m k')"
  by (simp add: update_conv')

lemma gm_get_del [gomap_simps]: "gm_get (gm_del k m) k' = (if k' = k then None else gm_get m k')"
  by (simp add: delete_conv')

lemma gm_wf_Nil [simp]: "gm_wf []"
  by (simp add: gm_wf_def)

lemma gm_wf_put [simp, intro]: "gm_wf m \<Longrightarrow> gm_wf (gm_put k v m)"
  by (simp add: gm_wf_def distinct_update)

lemma gm_wf_del [simp, intro]: "gm_wf m \<Longrightarrow> gm_wf (gm_del k m)"
  by (simp add: gm_wf_def distinct_delete)

lemma gm_wf_entry: "gm_wf m \<Longrightarrow> (k, v) \<in> set m \<longleftrightarrow> gm_get m k = Some v"
  by (simp add: gm_wf_def)

lemma gm_get_eq_NoneD: "gm_get m k = None \<Longrightarrow> (k, v) \<notin> set m"
  by (metis domIff fst_conv image_eqI map_of_eq_None_iff)

lemma gm_del_Nil_iff: "gm_del k m = [] \<longleftrightarrow> (\<forall>k'. k' \<noteq> k \<longrightarrow> gm_get m k' = None)"
proof -
  have "gm_del k m = [] \<longleftrightarrow> (\<forall>k'. gm_get (gm_del k m) k' = None)"
    by (cases "gm_del k m") (auto split: if_splits)
  then show ?thesis by (simp add: gomap_simps)
qed

lemma range_order_set: "range_order ord \<Longrightarrow> set (ord xs) = set xs"
  by (metis range_order_def set_mset_mset)

lemma range_order_mset: "range_order ord \<Longrightarrow> mset (ord xs) = mset xs"
  by (simp add: range_order_def)

lemma range_order_id [simp]: "range_order id" "range_order (\<lambda>xs. xs)" "range_order rev"
  by (simp_all add: range_order_def)

text \<open>Whatever order a well-formed map is visited in, reading the visited entries reads the map.\<close>

lemma map_of_mset_eq:
  assumes "gm_wf xs" and "mset ys = mset xs"
  shows "gm_wf ys" and "map_of ys = map_of xs"
proof -
  have "mset (map fst ys) = mset (map fst xs)"
    using assms(2) by simp
  then show wf: "gm_wf ys"
    using assms(1) by (metis gm_wf_def mset_eq_imp_distinct_iff)
  have "set ys = set xs"
    using assms(2) by (metis set_mset_mset)
  then show "map_of ys = map_of xs"
    using wf assms(1) by (metis gm_wf_def map_of_eqI map_of_is_SomeI map_of_SomeD option.exhaust ext)
qed

section \<open>Formatting\<close>

definition nl :: char where
  "nl = CHR 0x0A"

text \<open>A raw string literal of the source, line by line.\<close>

definition unlines :: "string list \<Rightarrow> string" where
  "unlines ls = concat (map (\<lambda>l. l @ [nl]) ls)"

lemma unlines_Nil [text_simps]: "unlines [] = []"
  and unlines_Cons [text_simps]: "unlines (l # ls) = l @ nl # unlines ls"
  and unlines_append [text_simps]: "unlines (ls @ ms) = unlines ls @ unlines ms"
  by (simp_all add: unlines_def)

lemma unlines_concat: "unlines (concat lss) = concat (map unlines lss)"
  by (induction lss) (simp_all add: text_simps)

text \<open>The verb \<^verbatim>\<open>%d\<close>.\<close>

definition digit :: "nat \<Rightarrow> char" where
  "digit d = char_of (48 + d)"

fun show_nat :: "nat \<Rightarrow> string" where
  "show_nat n = (if n < 10 then [digit n] else show_nat (n div 10) @ [digit (n mod 10)])"

declare show_nat.simps [simp del]

definition show_int :: "int \<Rightarrow> string" where
  "show_int i = (if i < 0 then CHR ''-'' # show_nat (nat (- i)) else show_nat (nat i))"

definition read_nat :: "string \<Rightarrow> nat" where
  "read_nat s = foldl (\<lambda>n c. 10 * n + (of_char c - 48)) 0 s"

lemma of_char_digit: "d < 10 \<Longrightarrow> of_char (digit d) = 48 + d"
  by (simp add: digit_def)

lemma read_show_nat: "read_nat (show_nat n) = n"
proof (induction n rule: show_nat.induct)
  case (1 n)
  show ?case
  proof (cases "n < 10")
    case True
    then show ?thesis by (simp add: show_nat.simps [of n] read_nat_def of_char_digit)
  next
    case False
    with "1.IH" have "read_nat (show_nat (n div 10)) = n div 10" by simp
    then have "read_nat (show_nat n) = 10 * (n div 10) + n mod 10"
      using False by (simp add: show_nat.simps [of n] read_nat_def of_char_digit)
    then show ?thesis by simp
  qed
qed

lemma show_nat_inj: "show_nat m = show_nat n \<Longrightarrow> m = n"
  by (metis read_show_nat)

lemma show_nat_digits: "c \<in> set (show_nat n) \<Longrightarrow> \<exists>d < 10. c = digit d"
proof (induction n rule: show_nat.induct)
  case (1 n)
  then show ?case
    by (subst (asm) (2) show_nat.simps) (auto split: if_splits simp: intro: exI [of _ "n mod 10"])
qed

section \<open>Splitting\<close>

text \<open>\<^verbatim>\<open>strings.Split(s, sep)\<close> for a separator of one byte: the pieces between the separators.\<close>

fun split_on :: "char \<Rightarrow> string \<Rightarrow> string list" where
  "split_on c [] = [[]]"
| "split_on c (x # xs) =
     (if x = c then [] # split_on c xs
      else case split_on c xs of [] \<Rightarrow> [[x]] | p # ps \<Rightarrow> (x # p) # ps)"

lemma split_on_nonempty [simp]: "split_on c s \<noteq> []"
  by (induction s) (auto split: list.splits)

lemma split_on_none: "c \<notin> set s \<Longrightarrow> split_on c s = [s]"
  by (induction s) auto

lemma split_on_append: "split_on c (a @ c # b) = split_on c a @ split_on c b"
  by (induction a) (auto split: list.splits)

lemma split_on_pieces: "p \<in> set (split_on c s) \<Longrightarrow> c \<notin> set p"
  by (induction s arbitrary: p) (auto split: if_splits list.splits)

lemma split_on_length: "length (split_on c s) = Suc (count_list s c)"
  by (induction s) (auto split: list.splits)

text \<open>The words of a line, separated by blanks, and the lines of a text that have words.\<close>

definition blank :: char where
  "blank = CHR '' ''"

definition tokens :: "string \<Rightarrow> string list" where
  "tokens l = filter (\<lambda>w. w \<noteq> []) (split_on blank l)"

definition text_tokens :: "string \<Rightarrow> string list list" where
  "text_tokens t = filter (\<lambda>ws. ws \<noteq> []) (map tokens (split_on nl t))"

definition is_word :: "string \<Rightarrow> bool" where
  "is_word s \<longleftrightarrow> s \<noteq> [] \<and> blank \<notin> set s \<and> nl \<notin> set s"

lemma tokens_append [text_simps]: "tokens (a @ blank # b) = tokens a @ tokens b"
  by (simp add: tokens_def split_on_append)

lemma tokens_Nil [text_simps]: "tokens [] = []"
  by (simp add: tokens_def)

lemma tokens_blank [text_simps]: "tokens (blank # b) = tokens b"
  using tokens_append [of "[]" b] by (simp add: tokens_Nil)

lemma tokens_word [text_simps]: "is_word w \<Longrightarrow> tokens w = [w]"
  by (simp add: tokens_def is_word_def split_on_none)

lemma text_tokens_line: "nl \<notin> set l \<Longrightarrow>
    text_tokens (l @ nl # t) = (if tokens l = [] then text_tokens t else tokens l # text_tokens t)"
  by (simp add: text_tokens_def split_on_append split_on_none)

lemma text_tokens_Nil [text_simps]: "text_tokens [] = []"
  by (simp add: text_tokens_def tokens_Nil)

lemma text_tokens_append: "(\<And>l. l \<in> set ls \<Longrightarrow> nl \<notin> set l) \<Longrightarrow>
    text_tokens (unlines ls @ t) = filter (\<lambda>ws. ws \<noteq> []) (map tokens ls) @ text_tokens t"
  by (induction ls) (simp_all add: text_simps text_tokens_line)

lemma text_tokens_unlines: "(\<And>l. l \<in> set ls \<Longrightarrow> nl \<notin> set l) \<Longrightarrow>
    text_tokens (unlines ls) = filter (\<lambda>ws. ws \<noteq> []) (map tokens ls)"
  using text_tokens_append [of ls "[]"] by (simp add: text_simps)

lemma show_nat_nonempty [simp]: "show_nat n \<noteq> []"
  by (subst show_nat.simps) simp

lemma digit_not: "d < 10 \<Longrightarrow> digit d \<noteq> blank \<and> digit d \<noteq> nl \<and> digit d \<noteq> CHR ''-''"
  using of_char_digit [of d] by (auto simp: blank_def nl_def)

lemma show_nat_chars: "c \<in> set (show_nat n) \<Longrightarrow> c \<noteq> blank \<and> c \<noteq> nl \<and> c \<noteq> CHR ''-''"
  using show_nat_digits [of c n] digit_not by auto

lemma show_int_chars: "c \<in> set (show_int i) \<Longrightarrow> c \<noteq> blank \<and> c \<noteq> nl"
  using show_nat_chars by (auto simp: show_int_def blank_def nl_def split: if_splits)

lemma show_int_nonempty [simp]: "show_int i \<noteq> []"
  by (simp add: show_int_def)

lemma is_word_show_int [simp]: "is_word (show_int i)"
  using show_int_chars [of _ i] by (auto simp: is_word_def)

lemma show_int_inj: "show_int i = show_int j \<Longrightarrow> i = j"
proof -
  assume eq: "show_int i = show_int j"
  have neg: "show_nat n \<noteq> CHR ''-'' # s" for n s
    using show_nat_chars [of "CHR ''-''" n] by auto
  show "i = j"
    using eq neg neg [symmetric] show_nat_inj [of "nat i" "nat j"] show_nat_inj [of "nat (- i)" "nat (- j)"]
    by (auto simp: show_int_def split: if_splits)
qed

section \<open>Transition systems\<close>

text \<open>The states a system reaches from its initial states, and invariants over them.\<close>

inductive reach :: "('s \<Rightarrow> bool) \<Rightarrow> ('s \<Rightarrow> 's \<Rightarrow> bool) \<Rightarrow> 's \<Rightarrow> bool" for init step where
  reach_init: "init s \<Longrightarrow> reach init step s"
| reach_step: "reach init step s \<Longrightarrow> step s t \<Longrightarrow> reach init step t"

locale invariant_system =
  fixes init :: "'s \<Rightarrow> bool" and step :: "'s \<Rightarrow> 's \<Rightarrow> bool" and inv :: "'s \<Rightarrow> bool"
  assumes inv_init: "init s \<Longrightarrow> inv s"
    and inv_step: "inv s \<Longrightarrow> step s t \<Longrightarrow> inv t"
begin

lemma reach_inv: "reach init step s \<Longrightarrow> inv s"
  by (induction rule: reach.induct) (auto intro: inv_init inv_step)

lemma run_inv: "step\<^sup>*\<^sup>* s t \<Longrightarrow> inv s \<Longrightarrow> inv t"
  by (induction rule: rtranclp_induct) (auto intro: inv_step)

end

end
