(* ===== verification/API_Types.thy ===== *)
theory API_Types
  imports Prelude "HOL-Library.Char_ord" "HOL-Library.List_Lexorder"
begin

text \<open>
  The custom resources of \<^verbatim>\<open>api/v1alpha1\<close> (\<^verbatim>\<open>GlobalLoadBalancer\<close>, \<^verbatim>\<open>Frontend\<close>,
  \<^verbatim>\<open>Backend\<close>, \<^verbatim>\<open>Peer\<close> and their lists) as records with the fields of the Go structs, a
  pointer as an \<open>option\<close> (\<^const>\<open>None\<close> is nil) and a map as an association list. The
  types of \<^verbatim>\<open>k8s.io/apimachinery\<close> they embed carry the fields the program reads or writes.
\<close>

section \<open>Metadata of apimachinery\<close>

datatype NamespacedName = NN (nn_Namespace: string) (nn_Name: string)

record TypeMeta =
  tm_Kind :: string
  tm_APIVersion :: string

record ListMeta =
  lm_ResourceVersion :: string
  lm_Continue :: string

record OwnerReference =
  or_Kind :: string
  or_Name :: string
  or_UID :: string
  or_Controller :: bool

record ObjectMeta =
  om_Name :: string
  om_Namespace :: string
  om_UID :: string
  om_ResourceVersion :: string
  om_CreationTimestamp :: "int option"
  om_Labels :: "(string, string) gomap"
  om_Annotations :: "(string, string) gomap"
  om_OwnerReferences :: "OwnerReference list"
  om_Finalizers :: "string list"

record Condition =
  cond_Type :: string
  cond_Status :: string
  cond_Reason :: string
  cond_Message :: string

record LabelSelectorRequirement =
  lsr_Key :: string
  lsr_Operator :: string
  lsr_Values :: "string list"

record LabelSelector =
  ls_MatchLabels :: "(string, string) gomap"
  ls_MatchExpressions :: "LabelSelectorRequirement list"

type_synonym label_set = "(string, string) gomap"

text \<open>An object that implements \<^verbatim>\<open>labels.Selector\<close>, as its method \<^verbatim>\<open>Matches\<close>.\<close>

type_synonym selector = "label_set \<Rightarrow> bool"

text \<open>Go's zero values.\<close>

definition zero_TypeMeta :: TypeMeta where
  "zero_TypeMeta = \<lparr>tm_Kind = '''', tm_APIVersion = ''''\<rparr>"

definition zero_ObjectMeta :: ObjectMeta where
  "zero_ObjectMeta = \<lparr>om_Name = '''', om_Namespace = '''', om_UID = '''', om_ResourceVersion = '''',
     om_CreationTimestamp = None, om_Labels = [], om_Annotations = [], om_OwnerReferences = [],
     om_Finalizers = []\<rparr>"

text \<open>The literal \<^verbatim>\<open>metav1.ObjectMeta{Name: n, Namespace: ns}\<close>.\<close>

definition named_meta :: "string \<Rightarrow> string \<Rightarrow> ObjectMeta" where
  "named_meta n ns = zero_ObjectMeta\<lparr>om_Name := n, om_Namespace := ns\<rparr>"

definition meta_key :: "ObjectMeta \<Rightarrow> NamespacedName" where
  "meta_key m = NN (om_Namespace m) (om_Name m)"

lemma meta_key_version [simp]: "meta_key (om\<lparr>om_ResourceVersion := v\<rparr>) = meta_key om"
  by (simp add: meta_key_def)

lemma meta_key_named [simp]: "meta_key (named_meta n ns) = NN ns n"
  by (simp add: meta_key_def named_meta_def)

text \<open>Keys are ordered by namespace, then by name, so that listings can be put in a fixed order.\<close>

instantiation NamespacedName :: linorder
begin

definition less_eq_NamespacedName :: "NamespacedName \<Rightarrow> NamespacedName \<Rightarrow> bool" where
  "less_eq_NamespacedName a b \<longleftrightarrow>
     nn_Namespace a < nn_Namespace b \<or> nn_Namespace a = nn_Namespace b \<and> nn_Name a \<le> nn_Name b"

definition less_NamespacedName :: "NamespacedName \<Rightarrow> NamespacedName \<Rightarrow> bool" where
  "less_NamespacedName a b \<longleftrightarrow>
     nn_Namespace a < nn_Namespace b \<or> nn_Namespace a = nn_Namespace b \<and> nn_Name a < nn_Name b"

instance
  by standard (auto simp: less_eq_NamespacedName_def less_NamespacedName_def intro: NamespacedName.expand)

end

section \<open>GlobalLoadBalancer\<close>

record LoadBalancerReference =
  lbr_Name :: string
  lbr_Namespace :: string

record PeersSpec =
  ps_AutoDiscover :: bool

record GlobalLoadBalancerSpec =
  lbs_Replicas :: int32
  lbs_Image :: string
  lbs_Peers :: "PeersSpec option"
  lbs_FrontendSelector :: LabelSelector

record GlobalLoadBalancerStatus =
  lbst_Conditions :: "Condition list"

record GlobalLoadBalancerFrontendStatus =
  lbfs_Name :: string
  lbfs_InternalPort :: int32

record GlobalLoadBalancer =
  lb_TypeMeta :: TypeMeta
  lb_ObjectMeta :: ObjectMeta
  lb_Spec :: GlobalLoadBalancerSpec
  lb_Status :: GlobalLoadBalancerStatus

record GlobalLoadBalancerList =
  lbl_TypeMeta :: TypeMeta
  lbl_ListMeta :: ListMeta
  lbl_Items :: "GlobalLoadBalancer list"

section \<open>Frontend\<close>

record FrontendServiceSpec =
  fss_IPAddress :: "string option"
  fss_Port :: int32
  fss_Annotations :: "(string, string) gomap"

record FrontendSpec =
  fes_Service :: "FrontendServiceSpec option"
  fes_BackendSelector :: LabelSelector

record FrontendStatus =
  fest_Conditions :: "Condition list"
  fest_Port :: "int32 option"
  fest_LoadBalancer :: "LoadBalancerReference option"

record Frontend =
  fe_TypeMeta :: TypeMeta
  fe_ObjectMeta :: ObjectMeta
  fe_Spec :: FrontendSpec
  fe_Status :: FrontendStatus

record FrontendList =
  fel_TypeMeta :: TypeMeta
  fel_ListMeta :: ListMeta
  fel_Items :: "Frontend list"

section \<open>Backend\<close>

type_synonym LoadBalancingStrategy = string

definition StrategyRoundRobin :: LoadBalancingStrategy where
  "StrategyRoundRobin = ''RoundRobin''"

definition StrategySource :: LoadBalancingStrategy where
  "StrategySource = ''Source''"

record BackendServerSpec =
  bss_Name :: string
  bss_Address :: string
  bss_Port :: int64

record BackendSpec =
  bes_Host :: string
  bes_Strategy :: "LoadBalancingStrategy option"
  bes_StickySessions :: "bool option"
  bes_Servers :: "BackendServerSpec option list"

record BackendStatus =
  best_Conditions :: "Condition list"

record Backend =
  be_TypeMeta :: TypeMeta
  be_ObjectMeta :: ObjectMeta
  be_Spec :: BackendSpec
  be_Status :: BackendStatus

record BackendList =
  bel_TypeMeta :: TypeMeta
  bel_ListMeta :: ListMeta
  bel_Items :: "Backend list"

section \<open>Peer\<close>

record PeerStatus =
  pst_PeerName :: string
  pst_LocalIP :: string
  pst_RemoteIP :: string
  pst_Conditions :: "Condition list"

record Peer =
  peer_TypeMeta :: TypeMeta
  peer_ObjectMeta :: ObjectMeta
  peer_Status :: PeerStatus

record PeerList =
  pl_TypeMeta :: TypeMeta
  pl_ListMeta :: ListMeta
  pl_Items :: "Peer list"

section \<open>Field paths the components use\<close>

abbreviation lb_Name :: "GlobalLoadBalancer \<Rightarrow> string" where
  "lb_Name lb \<equiv> om_Name (lb_ObjectMeta lb)"

abbreviation lb_Namespace :: "GlobalLoadBalancer \<Rightarrow> string" where
  "lb_Namespace lb \<equiv> om_Namespace (lb_ObjectMeta lb)"

abbreviation fe_Name :: "Frontend \<Rightarrow> string" where
  "fe_Name fe \<equiv> om_Name (fe_ObjectMeta fe)"

abbreviation fe_Namespace :: "Frontend \<Rightarrow> string" where
  "fe_Namespace fe \<equiv> om_Namespace (fe_ObjectMeta fe)"

abbreviation fe_Port :: "Frontend \<Rightarrow> int32 option" where
  "fe_Port fe \<equiv> fest_Port (fe_Status fe)"

abbreviation fe_Owner :: "Frontend \<Rightarrow> LoadBalancerReference option" where
  "fe_Owner fe \<equiv> fest_LoadBalancer (fe_Status fe)"

abbreviation fe_key :: "Frontend \<Rightarrow> NamespacedName" where
  "fe_key fe \<equiv> meta_key (fe_ObjectMeta fe)"

abbreviation be_Name :: "Backend \<Rightarrow> string" where
  "be_Name be \<equiv> om_Name (be_ObjectMeta be)"

abbreviation be_Labels :: "Backend \<Rightarrow> label_set" where
  "be_Labels be \<equiv> om_Labels (be_ObjectMeta be)"

section \<open>Sample objects\<close>

text \<open>Concrete objects on which the witnesses of the properties run.\<close>

definition sample_frontend :: "string \<Rightarrow> LoadBalancerReference option \<Rightarrow> int32 option \<Rightarrow> Frontend" where
  "sample_frontend name owner port =
     \<lparr>fe_TypeMeta = zero_TypeMeta, fe_ObjectMeta = named_meta name ''glb'',
      fe_Spec = \<lparr>fes_Service = Some \<lparr>fss_IPAddress = None, fss_Port = 443, fss_Annotations = []\<rparr>,
                 fes_BackendSelector = \<lparr>ls_MatchLabels = [(''site'', ''a'')], ls_MatchExpressions = []\<rparr>\<rparr>,
      fe_Status = \<lparr>fest_Conditions = [], fest_Port = port, fest_LoadBalancer = owner\<rparr>\<rparr>"

definition sample_backend :: "string \<Rightarrow> string \<Rightarrow> Backend" where
  "sample_backend name host =
     \<lparr>be_TypeMeta = zero_TypeMeta, be_ObjectMeta = (named_meta name ''glb'')\<lparr>om_Labels := [(''site'', ''a'')]\<rparr>,
      be_Spec = \<lparr>bes_Host = host, bes_Strategy = None, bes_StickySessions = None,
                 bes_Servers = [Some \<lparr>bss_Name = ''s1'', bss_Address = ''10.0.0.1'', bss_Port = 8443\<rparr>]\<rparr>,
      be_Status = \<lparr>best_Conditions = []\<rparr>\<rparr>"

definition sample_lb :: "int32 \<Rightarrow> GlobalLoadBalancer" where
  "sample_lb replicas =
     \<lparr>lb_TypeMeta = zero_TypeMeta, lb_ObjectMeta = named_meta ''lb'' ''glb'',
      lb_Spec = \<lparr>lbs_Replicas = replicas, lbs_Image = ''haproxy'', lbs_Peers = None,
                 lbs_FrontendSelector = \<lparr>ls_MatchLabels = [], ls_MatchExpressions = []\<rparr>\<rparr>,
      lb_Status = \<lparr>lbst_Conditions = []\<rparr>\<rparr>"

lemmas sample_defs = sample_frontend_def sample_backend_def sample_lb_def named_meta_def zero_ObjectMeta_def
  zero_TypeMeta_def meta_key_def

lemma sample_sel [simp]:
  "fe_ObjectMeta (sample_frontend n ref p) = named_meta n ''glb''"
  "fe_Status (sample_frontend n ref p) = \<lparr>fest_Conditions = [], fest_Port = p, fest_LoadBalancer = ref\<rparr>"
  "be_ObjectMeta (sample_backend n h) = (named_meta n ''glb'')\<lparr>om_Labels := [(''site'', ''a'')]\<rparr>"
  "lb_ObjectMeta (sample_lb r) = named_meta ''lb'' ''glb''"
  "lbs_Replicas (lb_Spec (sample_lb r)) = r"
  by (simp_all add: sample_frontend_def sample_backend_def sample_lb_def)

lemma named_meta_sel [simp]:
  "om_Name (named_meta n ns) = n" "om_Namespace (named_meta n ns) = ns" "om_Labels (named_meta n ns) = []"
  by (simp_all add: named_meta_def zero_ObjectMeta_def)

end
