(* ===== verification/Ports.thy ===== *)
theory Ports
  imports API_Types
begin

text \<open>
  The allocator of frontend ports, \<^verbatim>\<open>GetNextPort\<close> of
  \<^verbatim>\<open>internal/controller/globalloadbalancer_controller.go\<close>, over \<^verbatim>\<open>int32\<close> with its
  wrap-around, and the contract \<open>port_source\<close> the reconciler relies on.
\<close>

section \<open>The code\<close>

text \<open>The first loop: the ports of the frontends that have one, in the frontends' order.\<close>

fun collect_ports :: "Frontend list \<Rightarrow> int32 list" where
  "collect_ports [] = []"
| "collect_ports (fe # fes) =
     (case fe_Port fe of None \<Rightarrow> collect_ports fes | Some p \<Rightarrow> p # collect_ports fes)"

text \<open>The second loop over the sorted slice, from index \<open>i\<close>, and the return after it.\<close>

function gap_loop :: "int32 list \<Rightarrow> nat \<Rightarrow> int32" where
  "gap_loop ports i =
     (if i + 1 < length ports
      then if 1 < sint (ports ! (i + 1) - ports ! i) then ports ! i + 1
           else gap_loop ports (i + 1)
      else ports ! (length ports - 1) + 1)"
  by pat_completeness auto
termination
  by (relation "measure (\<lambda>(ports, i). length ports - i)") auto

declare gap_loop.simps [simp del]

definition GetNextPort :: "Frontend list \<Rightarrow> int32 \<Rightarrow> int32" where
  "GetNextPort frontends minPort =
     (if length frontends = 0 then minPort
      else let ports = sort_key sint (collect_ports frontends)
           in if length ports = 0 \<or> sint minPort < sint (ports ! 0) then minPort
              else gap_loop ports 0)"

section \<open>Facts of the loop\<close>

lemma collect_ports_mem: "fe \<in> set fes \<Longrightarrow> fe_Port fe = Some p \<Longrightarrow> p \<in> set (collect_ports fes)"
  by (induction fes) (auto split: option.splits)

text \<open>No port is the largest \<^verbatim>\<open>int32\<close>, so adding one to a port does not wrap.\<close>

definition room :: "int32 list \<Rightarrow> bool" where
  "room ports \<longleftrightarrow> (\<forall>p \<in> set ports. sint p < 2 ^ 31 - 1)"

lemma room_nth: "room ports \<Longrightarrow> i < length ports \<Longrightarrow> sint (ports ! i + 1) = sint (ports ! i) + 1"
  by (simp add: room_def sint_int32_add_one)

text \<open>
  On a sorted slice the loop returns the successor of some element, and no element of the
  slice from \<open>i\<close> on equals the result.
\<close>

lemma gap_loop_succ:
  assumes "i < length ports"
  shows "\<exists>j. i \<le> j \<and> j < length ports \<and> gap_loop ports i = ports ! j + 1
    \<and> (j + 1 < length ports \<longrightarrow> 1 < sint (ports ! (j + 1) - ports ! j))
    \<and> (\<forall>k. i \<le> k \<and> k < j \<longrightarrow> sint (ports ! (k + 1) - ports ! k) \<le> 1)"
  using assms
proof (induction ports i rule: gap_loop.induct)
  case (1 ports i)
  let ?gap = "1 < sint (ports ! (i + 1) - ports ! i)"
  consider (last) "\<not> i + 1 < length ports" | (gap) "i + 1 < length ports" ?gap
    | (step) "i + 1 < length ports" "\<not> ?gap"
    by blast
  then show ?case
  proof cases
    case last
    with 1(2) show ?thesis
      by (intro exI [of _ "length ports - 1"]) (auto simp: gap_loop.simps [of ports i])
  next
    case gap
    then show ?thesis
      by (intro exI [of _ i]) (auto simp: gap_loop.simps [of ports i])
  next
    case step
    with 1(1) obtain j where j: "i + 1 \<le> j" "j < length ports"
      "gap_loop ports (i + 1) = ports ! j + 1"
      "j + 1 < length ports \<longrightarrow> 1 < sint (ports ! (j + 1) - ports ! j)"
      "\<forall>k. i + 1 \<le> k \<and> k < j \<longrightarrow> sint (ports ! (k + 1) - ports ! k) \<le> 1"
      by blast
    have "\<forall>k. i \<le> k \<and> k < j \<longrightarrow> sint (ports ! (k + 1) - ports ! k) \<le> 1"
      using j(5) step(2) by (metis Suc_eq_plus1 Suc_leI le_neq_implies_less not_less)
    then show ?thesis
      using j step by (intro exI [of _ j]) (auto simp: gap_loop.simps [of ports i])
  qed
qed

lemma sorted_nth_sint:
  "sorted (map sint ports) \<Longrightarrow> i \<le> j \<Longrightarrow> j < length ports \<Longrightarrow> sint (ports ! i) \<le> sint (ports ! j)"
  using sorted_nth_mono [of "map sint ports" i j] by simp

lemma gap_loop_fresh:
  assumes sorted: "sorted (map sint ports)" and room: "room ports" and i: "i < length ports"
  shows "\<forall>p \<in> set ports. gap_loop ports i \<noteq> p"
proof -
  obtain j where j: "j < length ports" "gap_loop ports i = ports ! j + 1"
    and gap: "j + 1 < length ports \<longrightarrow> 1 < sint (ports ! (j + 1) - ports ! j)"
    using gap_loop_succ [OF i] by blast
  have r: "sint (gap_loop ports i) = sint (ports ! j) + 1"
    using j room_nth [OF room] by simp
  have "sint (gap_loop ports i) \<noteq> sint (ports ! k)" if k: "k < length ports" for k
  proof (cases "k \<le> j")
    case True
    then show ?thesis using r sorted_nth_sint [OF sorted True j(1)] by simp
  next
    case False
    then have "j + 1 < length ports" "j + 1 \<le> k" using k by simp_all
    moreover have "sint (ports ! j) + 1 < sint (ports ! (j + 1))"
      using calculation gap sorted_nth_sint [OF sorted, of j "j + 1"]
      by (intro sint_int32_diff_gt_one) simp_all
    ultimately show ?thesis using r sorted_nth_sint [OF sorted, of "j + 1" k] k by simp
  qed
  then show ?thesis by (metis in_set_conv_nth)
qed

text \<open>Everything from the first element up to the result is taken, as long as nothing wraps.\<close>

lemma gap_loop_dense:
  assumes sorted: "sorted (map sint ports)" and pos: "\<forall>p \<in> set ports. 0 \<le> sint p"
    and room: "room ports" and ne: "0 < length ports"
    and v: "sint (ports ! 0) \<le> v" "v < sint (gap_loop ports 0)"
  shows "\<exists>p \<in> set ports. sint p = v"
proof -
  obtain j where j: "j < length ports" "gap_loop ports 0 = ports ! j + 1"
    and close: "\<forall>k. k < j \<longrightarrow> sint (ports ! (k + 1) - ports ! k) \<le> 1"
    using gap_loop_succ [OF ne] by blast
  have "sint (ports ! 0) \<le> v \<Longrightarrow> v \<le> sint (ports ! k) \<Longrightarrow> \<exists>p \<in> set ports. sint p = v" if "k \<le> j" for k
    using that
  proof (induction k)
    case 0
    then show ?case using ne by (metis antisym nth_mem)
  next
    case (Suc k)
    have "sint (ports ! Suc k - ports ! k) \<le> 1"
      using Suc.prems(3) close by simp
    then have "sint (ports ! Suc k) - sint (ports ! k) \<le> 1"
      using Suc.prems(3) j(1) pos sorted_nth_sint [OF sorted, of k "Suc k"]
        sint_int32_diff_exact [of "ports ! k" "ports ! Suc k"] by simp
    then consider "v \<le> sint (ports ! k)" | "v = sint (ports ! Suc k)"
      using Suc.prems(2) by linarith
    then show ?case using Suc j(1) by cases auto
  qed
  from this [of j] show ?thesis using v j room_nth [OF room] by simp
qed

section \<open>The allocator\<close>

lemma set_sorted_ports [simp]: "set (sort_key sint ports) = set ports"
  by simp

lemma sorted_sort_sint: "sorted (map sint (sort_key sint (ports :: int32 list)))"
  by simp

lemma sort_sint_Nil [simp]: "sort_key sint ports = [] \<longleftrightarrow> ports = []"
  by (metis length_0_conv length_sort)

lemma room_sort [simp]: "room (sort_key sint ports) = room ports"
  by (simp add: room_def)

text \<open>Either the minimum is below every port, or the loop runs on a non-empty sorted slice.\<close>

lemma GetNextPort_cases:
  obtains (low) "GetNextPort fes m = m" "\<forall>p \<in> set (collect_ports fes). sint m < sint p"
  | (scan) ports where "GetNextPort fes m = gap_loop ports 0" "ports = sort_key sint (collect_ports fes)"
      "0 < length ports" "sint (ports ! 0) \<le> sint m"
proof (cases "collect_ports fes = [] \<or> sint m < sint (sort_key sint (collect_ports fes) ! 0)")
  case True
  have "\<forall>p \<in> set (collect_ports fes). sint m < sint p"
  proof
    fix p assume p: "p \<in> set (collect_ports fes)"
    then obtain k where k: "k < length (sort_key sint (collect_ports fes))"
      "p = sort_key sint (collect_ports fes) ! k"
      by (metis in_set_conv_nth set_sort)
    then show "sint m < sint p"
      using True p sorted_nth_sint [OF sorted_sort_sint, of 0 k "collect_ports fes"] by auto
  qed
  moreover have "GetNextPort fes m = m"
    using True by (auto simp: GetNextPort_def Let_def)
  ultimately show thesis by (rule low [rotated])
next
  case False
  then have "fes \<noteq> []" by auto
  with False show thesis
    by (intro scan [of "sort_key sint (collect_ports fes)"]) (auto simp: GetNextPort_def Let_def)
qed

lemma GetNextPort_not_used:
  assumes "room (collect_ports fes)"
  shows "GetNextPort fes m \<notin> set (collect_ports fes)"
proof (cases fes m rule: GetNextPort_cases)
  case low
  then show ?thesis by auto
next
  case (scan ports)
  then show ?thesis
    using assms gap_loop_fresh [of ports 0] by (metis room_sort set_sort sorted_sort_sint)
qed

text \<open>Where the search starts: at the minimum, or at the smallest port in use when that is lower.\<close>

definition search_start :: "Frontend list \<Rightarrow> int32 \<Rightarrow> int" where
  "search_start fes m = Min (insert (sint m) (sint ` set (collect_ports fes)))"

lemma search_start_minimum: "\<forall>p \<in> set (collect_ports fes). sint m \<le> sint p \<Longrightarrow> search_start fes m = sint m"
  unfolding search_start_def by (rule Min_eqI) auto

lemma GetNextPort_from_start:
  assumes room: "room (collect_ports fes)"
  shows "search_start fes m \<le> sint (GetNextPort fes m)"
proof (cases fes m rule: GetNextPort_cases)
  case low
  then show ?thesis by (simp add: search_start_def)
next
  case (scan ports)
  obtain j where j: "j < length ports" "gap_loop ports 0 = ports ! j + 1"
    using gap_loop_succ [OF scan(3)] by blast
  then have "ports ! j \<in> set (collect_ports fes)" using scan by (metis nth_mem set_sort)
  then have "search_start fes m \<le> sint (ports ! j)" unfolding search_start_def by (intro Min_le) auto
  then show ?thesis using scan(1,2) j room room_nth [of ports j] by simp
qed

lemma GetNextPort_below_taken:
  assumes room: "room (collect_ports fes)" and pos: "\<forall>p \<in> set (collect_ports fes). 0 \<le> sint p"
    and v: "search_start fes m \<le> v" "v < sint (GetNextPort fes m)"
  shows "v \<in> sint ` set (collect_ports fes)"
proof (cases fes m rule: GetNextPort_cases)
  case low
  then have "search_start fes m = sint m" by (intro search_start_minimum) auto
  then show ?thesis using v low(1) by simp
next
  case (scan ports)
  have same: "set ports = set (collect_ports fes)" using scan(2) by simp
  have "\<forall>p \<in> set ports. sint (ports ! 0) \<le> sint p"
    using sorted_nth_sint [of ports 0] scan(2) sorted_sort_sint by (metis in_set_conv_nth le0)
  then have "search_start fes m = sint (ports ! 0)"
    unfolding search_start_def using scan(3,4) same by (intro Min_eqI) auto
  then have "\<exists>p \<in> set ports. sint p = v"
    using gap_loop_dense [of ports v] scan room v pos same sorted_sort_sint by simp
  then show ?thesis using same by auto
qed

section \<open>The contract\<close>

text \<open>
  What a caller that hands out ports one at a time relies on: a port that is not in use, not
  below the minimum when nothing in use is, and with every smaller port from the start of the
  search on already taken.
\<close>

locale port_source =
  fixes next_port :: "Frontend list \<Rightarrow> int32 \<Rightarrow> int32"
  assumes unused: "room (collect_ports fes) \<Longrightarrow> next_port fes m \<notin> set (collect_ports fes)"
    and at_least: "room (collect_ports fes) \<Longrightarrow> search_start fes m \<le> sint (next_port fes m)"
    and below_taken: "room (collect_ports fes) \<Longrightarrow> \<forall>p \<in> set (collect_ports fes). 0 \<le> sint p
      \<Longrightarrow> search_start fes m \<le> v \<Longrightarrow> v < sint (next_port fes m) \<Longrightarrow> v \<in> sint ` set (collect_ports fes)"
begin

lemma least_free:
  assumes "room (collect_ports fes)" and "\<forall>p \<in> set (collect_ports fes). 0 \<le> sint p"
  shows "sint (next_port fes m) = (LEAST v. search_start fes m \<le> v \<and> v \<notin> sint ` set (collect_ports fes))"
proof (rule Least_equality [symmetric])
  show "search_start fes m \<le> sint (next_port fes m) \<and> sint (next_port fes m) \<notin> sint ` set (collect_ports fes)"
    using at_least [OF assms(1)] unused [OF assms(1)] sint_int32_inj by auto
next
  fix v
  assume "search_start fes m \<le> v \<and> v \<notin> sint ` set (collect_ports fes)"
  then show "sint (next_port fes m) \<le> v"
    using below_taken [OF assms] by (meson not_le)
qed

text \<open>Pigeonhole: the allocated port is at most as far above the minimum as there are ports in use.\<close>

lemma bounded:
  assumes "room (collect_ports fes)" and "0 \<le> sint m"
    and "\<forall>p \<in> set (collect_ports fes). sint m \<le> sint p"
  shows "sint (next_port fes m) \<le> sint m + int (length (collect_ports fes))"
proof -
  have "\<forall>p \<in> set (collect_ports fes). 0 \<le> sint p" using assms(2,3) by force
  then have "{sint m ..< sint (next_port fes m)} \<subseteq> sint ` set (collect_ports fes)"
    using below_taken [OF assms(1), where m = m] search_start_minimum [OF assms(3)] by auto
  then have "card {sint m ..< sint (next_port fes m)} \<le> card (sint ` set (collect_ports fes))"
    by (intro card_mono) auto
  also have "\<dots> \<le> card (set (collect_ports fes))"
    by (rule card_image_le) simp
  also have "\<dots> \<le> length (collect_ports fes)"
    by (rule card_length)
  finally show ?thesis by simp
qed

text \<open>One frontend that takes the port next leaves the ports in use pairwise distinct.\<close>

lemma one_more_distinct:
  assumes "room (collect_ports fes)" and "distinct (collect_ports fes)"
  shows "distinct (next_port fes m # collect_ports fes)"
  using assms unused by simp

end

interpretation ports: port_source GetNextPort
  by unfold_locales (simp_all add: GetNextPort_not_used GetNextPort_from_start GetNextPort_below_taken)

section \<open>Properties\<close>

text \<open>
  C11: GetNextPort returns the least port that no frontend has, searched from minPort on, or from the
  smallest port in use when that is below minPort. Assumed: no port in use is negative or the largest
  int32, so that differences and successors do not wrap; nothing is assumed of minPort.
\<close>

theorem GetNextPort_least:
  assumes "room (collect_ports fes)" and "\<forall>p \<in> set (collect_ports fes). 0 \<le> sint p"
  shows "sint (GetNextPort fes m)
    = (LEAST v. Min (insert (sint m) (sint ` set (collect_ports fes))) \<le> v \<and> v \<notin> sint ` set (collect_ports fes))"
  using ports.least_free [OF assms] by (simp add: search_start_def)

theorem GetNextPort_least_witness:
  "sint (GetNextPort [sample_frontend ''a'' None (Some 10240), sample_frontend ''b'' None (Some 10242),
      sample_frontend ''c'' None None] 10240) = (LEAST v. 10240 \<le> v \<and> v \<notin> {10240, 10242})
   \<and> sint (GetNextPort [sample_frontend ''a'' None (Some 80)] 10240) = (LEAST v. 80 \<le> v \<and> v \<notin> {80})"
  using GetNextPort_least [of "[sample_frontend ''a'' None (Some 10240), sample_frontend ''b'' None (Some 10242),
      sample_frontend ''c'' None None]" 10240] GetNextPort_least [of "[sample_frontend ''a'' None (Some 80)]" 10240]
  by (simp add: room_def)

text \<open>
  The port GetNextPort returns is not one of the frontends' ports, whatever minPort is and even
  when ports below minPort are in use; only the largest int32 among the ports would break it.
\<close>

theorem GetNextPort_fresh:
  assumes "room (collect_ports fes)" and "fe \<in> set fes"
  shows "fe_Port fe \<noteq> Some (GetNextPort fes m)"
proof
  assume port: "fe_Port fe = Some (GetNextPort fes m)"
  then show False using ports.unused [OF assms(1), of m] collect_ports_mem [OF assms(2)] by blast
qed

theorem GetNextPort_fresh_witness:
  "fe_Port (sample_frontend ''a'' None (Some 7)) \<noteq> Some (GetNextPort [sample_frontend ''a'' None (Some 7)] 10240)"
  using GetNextPort_fresh [of "[sample_frontend ''a'' None (Some 7)]" "sample_frontend ''a'' None (Some 7)" 10240]
  by (simp add: room_def)

text \<open>
  C40: the port GetNextPort returns is at least minPort and at most the number of frontends above it: the
  allocator does not leave the range it needs. Assumed: minPort is not negative, no port in use is below it,
  and none is the largest int32.
\<close>

theorem GetNextPort_bounds:
  assumes "room (collect_ports fes)" and "0 \<le> sint m" and "\<forall>p \<in> set (collect_ports fes). sint m \<le> sint p"
  shows "sint m \<le> sint (GetNextPort fes m) \<and> sint (GetNextPort fes m) \<le> sint m + int (length fes)"
proof -
  have "length (collect_ports fes) \<le> length fes" by (induction fes) (auto split: option.splits)
  then show ?thesis using ports.bounded [OF assms] ports.at_least [OF assms(1), of m] search_start_minimum [OF assms(3)] by linarith
qed

theorem GetNextPort_bounds_witness:
  "sint (GetNextPort [sample_frontend ''a'' None (Some 10240)] 10240) \<le> 10241"
  using GetNextPort_bounds [of "[sample_frontend ''a'' None (Some 10240)]" 10240]
  by (simp add: room_def)

text \<open>
  A port below minPort in use draws the allocation below minPort as long as any port between
  the two is free: the scan starts at the smallest port in use and never looks at minPort again.
\<close>

theorem GetNextPort_below_minimum:
  assumes "room (collect_ports fes)" and "\<forall>p \<in> set (collect_ports fes). 0 \<le> sint p"
    and "p \<in> set (collect_ports fes)" and "sint p \<le> v" and "v < sint m" and "v \<notin> sint ` set (collect_ports fes)"
  shows "sint (GetNextPort fes m) < sint m"
proof (cases fes m rule: GetNextPort_cases)
  case low
  then show ?thesis using assms(3-5) by fastforce
next
  case (scan ports)
  have sorted: "sorted (map sint ports)" and same: "set ports = set (collect_ports fes)"
    using scan(2) by simp_all
  then obtain i where "i < length ports" "ports ! i = p" using assms(3) by (metis in_set_conv_nth)
  then have "sint (ports ! 0) \<le> v" using sorted_nth_sint [OF sorted, of 0 i] assms(4) by simp
  moreover have "room ports" using assms(1) scan(2) by simp
  ultimately have "\<not> v < sint (gap_loop ports 0)"
    using gap_loop_dense [OF sorted, of v] scan(3) assms(2,6) same by auto
  then show ?thesis using scan(1) assms(5) by simp
qed

theorem GetNextPort_below_minimum_witness:
  "sint (GetNextPort [sample_frontend ''a'' None (Some 80)] 10240) < 10240"
  using GetNextPort_below_minimum [of "[sample_frontend ''a'' None (Some 80)]" 80 81 10240]
  by (simp add: room_def)

end
