(* ===== verification/Config_Builder.thy ===== *)
theory Config_Builder
  imports API_Types
begin

text \<open>
  \<^verbatim>\<open>internal/haproxy/configbuilder.go\<close>: the HAProxy configuration text of every replica. The
  templates are the raw string literals of the source line by line; dereferencing a nil
  \<^verbatim>\<open>Service\<close> or a nil server pointer is a panic. The second half reads the text back the way
  HAProxy does, line by line and word by word, and shows which routes and sections it holds.
\<close>

section \<open>The code\<close>

definition frontend_text :: "Frontend \<Rightarrow> string result" where
  "frontend_text fe =
     (case fes_Service (fe_Spec fe) of
        None \<Rightarrow> Inl (Panic NilDereference)
      | Some service \<Rightarrow> Inr (unlines
          ['''',
           ''frontend '' @ fe_Name fe,
           ''  bind *:'' @ show_int (sint (fss_Port service)),
           ''  mode '' @ ''tcp'',
           ''  option tcplog'',
           '''',
           ''  tcp-request inspect-delay 5s'',
           ''  tcp-request content accept if { req_ssl_hello_type 1 }'',
           '''']))"

definition use_backend_text :: "Backend \<Rightarrow> string" where
  "use_backend_text be = unlines
     ['''',
      ''  use_backend '' @ be_Name be @ '' if { req_ssl_sni -i '' @ bes_Host (be_Spec be) @ '' }'']"

definition server_text :: "BackendServerSpec option \<Rightarrow> string result" where
  "server_text server =
     (case server of
        None \<Rightarrow> Inl (Panic NilDereference)
      | Some s \<Rightarrow> Inr (unlines
          ['''',
           ''  server '' @ bss_Name s @ '' '' @ bss_Address s @ '':'' @ show_int (sint (bss_Port s)) @ '' check'']))"

definition backend_text :: "Backend \<Rightarrow> string result" where
  "backend_text be =
     res_bind (res_map server_text (bes_Servers (be_Spec be))) (\<lambda>servers.
       Inr (unlines ['''', ''backend '' @ be_Name be, ''  mode '' @ ''tcp''] @ concat servers))"

text \<open>Reading a missing key of the map of slices gives the nil slice.\<close>

definition backends_at :: "(string, Backend list) gomap \<Rightarrow> string \<Rightarrow> Backend list" where
  "backends_at backends name = (case gm_get backends name of None \<Rightarrow> [] | Some bs \<Rightarrow> bs)"

text \<open>One round of the loop over the frontends, and the loop.\<close>

definition frontend_block :: "(string, Backend list) gomap \<Rightarrow> Frontend \<Rightarrow> string result" where
  "frontend_block backends fe =
     res_bind (frontend_text fe) (\<lambda>header.
     let selected = backends_at backends (fe_Name fe) in
     res_bind (res_map backend_text selected) (\<lambda>sections.
       Inr (header @ concat (map use_backend_text selected) @ concat sections)))"

definition loadBalancerConfig :: "Frontend list \<Rightarrow> (string, Backend list) gomap \<Rightarrow> string result" where
  "loadBalancerConfig frontends backends =
     res_bind (res_map (frontend_block backends) frontends) (\<lambda>blocks. Inr (concat blocks))"

definition static_config :: string where
  "static_config = unlines
     ['''',
      ''global'',
      ''  log stdout format raw local0'',
      '''',
      ''defaults'',
      ''  log global'',
      ''  option dontlognull'',
      ''  timeout connect 5s'',
      ''  timeout client 50s'',
      ''  timeout client-fin 50s'',
      ''  timeout server 50s'',
      ''  timeout tunnel 1h'',
      '''',
      ''frontend stats'',
      ''  mode http'',
      ''  bind :8404'',
      ''  stats enable'',
      ''  stats refresh 10s'',
      ''  stats uri /stats'',
      ''  stats show-modules'',
      '''',
      ''frontend prometheus'',
      ''  bind :8405'',
      ''  mode http'',
      ''  http-request use-service prometheus-exporter'',
      ''  no log'']"

definition podName :: "GlobalLoadBalancer \<Rightarrow> int \<Rightarrow> string" where
  "podName lb i = lb_Name lb @ ''-haproxy-'' @ show_int i"

text \<open>\<^verbatim>\<open>for i := range loadBalancer.Spec.Replicas\<close>: no round for a count that is not positive.\<close>

definition replica_indices :: "GlobalLoadBalancer \<Rightarrow> int list" where
  "replica_indices lb = map int [0 ..< nat (sint (lbs_Replicas (lb_Spec lb)))]"

definition BuildConfig ::
  "GlobalLoadBalancer \<Rightarrow> Frontend list \<Rightarrow> (string, Backend list) gomap \<Rightarrow> (string, string) gomap result" where
  "BuildConfig lb frontends backends =
     res_bind (loadBalancerConfig frontends backends) (\<lambda>body.
       Inr (foldl (\<lambda>configMap i. gm_put (podName lb i) (static_config @ body) configMap)
              [] (replica_indices lb)))"

section \<open>The replicas\<close>

lemma podName_inj: "podName lb i = podName lb j \<Longrightarrow> i = j"
  by (simp add: podName_def show_int_inj)

lemma foldl_put_const_get:
  "gm_get (foldl (\<lambda>m i. gm_put (f i) v m) m xs) k = (if k \<in> f ` set xs then Some v else gm_get m k)"
  by (induction xs arbitrary: m) (auto simp: gomap_simps)

lemma foldl_put_const_wf: "gm_wf m \<Longrightarrow> gm_wf (foldl (\<lambda>m i. gm_put (f i) v m) m xs)"
  by (induction xs arbitrary: m) auto

lemma set_replica_indices:
  "set (replica_indices lb) = {i. 0 \<le> i \<and> i < sint (lbs_Replicas (lb_Spec lb))}"
proof -
  have "i \<in> int ` {0 ..< nat n}" if "0 \<le> i" "i < n" for i n
    using that by (intro image_eqI [of _ _ "nat i"]) auto
  then show ?thesis by (auto simp: replica_indices_def)
qed

lemma BuildConfig_get:
  assumes "loadBalancerConfig frontends backends = Inr body"
  shows "\<exists>cfg. BuildConfig lb frontends backends = Inr cfg \<and> gm_wf cfg
    \<and> (\<forall>k. gm_get cfg k = (if k \<in> podName lb ` set (replica_indices lb) then Some (static_config @ body) else None))"
  using assms by (simp add: BuildConfig_def foldl_put_const_get foldl_put_const_wf)

section \<open>When it panics\<close>

definition servers_present :: "Backend \<Rightarrow> bool" where
  "servers_present be \<longleftrightarrow> None \<notin> set (bes_Servers (be_Spec be))"

definition buildable :: "(string, Backend list) gomap \<Rightarrow> Frontend \<Rightarrow> bool" where
  "buildable backends fe \<longleftrightarrow> fes_Service (fe_Spec fe) \<noteq> None
     \<and> (\<forall>be \<in> set (backends_at backends (fe_Name fe)). servers_present be)"

lemma server_text_ok: "(\<exists>t. server_text s = Inr t) \<longleftrightarrow> s \<noteq> None"
  and server_text_panic: "server_text s = Inl f \<Longrightarrow> f = Panic NilDereference"
  by (auto simp: server_text_def split: option.splits)

lemma backend_text_ok: "(\<exists>t. backend_text be = Inr t) \<longleftrightarrow> servers_present be"
proof -
  have "(\<exists>t. backend_text be = Inr t) \<longleftrightarrow> (\<exists>ts. res_map server_text (bes_Servers (be_Spec be)) = Inr ts)"
    by (auto simp: backend_text_def res_bind_eq_Inr)
  also have "\<dots> \<longleftrightarrow> servers_present be"
    by (simp add: res_map_ok_iff server_text_ok servers_present_def) (metis not_None_eq)
  finally show ?thesis .
qed

lemma backend_text_panic: "backend_text be = Inl f \<Longrightarrow> f = Panic NilDereference"
  by (auto simp: backend_text_def res_bind_def split: sum.splits dest!: res_map_Inl server_text_panic)

lemma frontend_block_ok: "(\<exists>t. frontend_block backends fe = Inr t) \<longleftrightarrow> buildable backends fe"
proof -
  have "(\<exists>t. frontend_block backends fe = Inr t) \<longleftrightarrow> fes_Service (fe_Spec fe) \<noteq> None
      \<and> (\<exists>ts. res_map backend_text (backends_at backends (fe_Name fe)) = Inr ts)"
    by (auto simp: frontend_block_def frontend_text_def Let_def res_bind_eq_Inr split: option.splits)
  also have "\<dots> \<longleftrightarrow> buildable backends fe"
    by (auto simp: res_map_ok_iff backend_text_ok buildable_def)
  finally show ?thesis .
qed

lemma frontend_block_panic: "frontend_block backends fe = Inl f \<Longrightarrow> f = Panic NilDereference"
  by (auto simp: frontend_block_def frontend_text_def Let_def res_bind_def
      split: sum.splits option.splits dest!: res_map_Inl backend_text_panic)

lemma loadBalancerConfig_ok:
  "(\<exists>body. loadBalancerConfig frontends backends = Inr body) \<longleftrightarrow> (\<forall>fe \<in> set frontends. buildable backends fe)"
proof -
  have "(\<exists>body. loadBalancerConfig frontends backends = Inr body)
      \<longleftrightarrow> (\<exists>bs. res_map (frontend_block backends) frontends = Inr bs)"
    by (auto simp: loadBalancerConfig_def res_bind_eq_Inr)
  also have "\<dots> \<longleftrightarrow> (\<forall>fe \<in> set frontends. buildable backends fe)"
    by (simp add: res_map_ok_iff frontend_block_ok)
  finally show ?thesis .
qed

lemma loadBalancerConfig_panic:
  "loadBalancerConfig frontends backends = Inl f \<Longrightarrow> f = Panic NilDereference"
  by (auto simp: loadBalancerConfig_def res_bind_def split: sum.splits
      dest!: res_map_Inl frontend_block_panic)

section \<open>Reading the text back\<close>

text \<open>
  HAProxy reads a configuration line by line, each line as words. The words of the lines the
  templates write, when the names, hosts and addresses filled in are single words.
\<close>

definition frontend_words :: "Frontend \<Rightarrow> FrontendServiceSpec \<Rightarrow> string list list" where
  "frontend_words fe service =
     [[''frontend'', fe_Name fe],
      [''bind'', ''*:'' @ show_int (sint (fss_Port service))],
      [''mode'', ''tcp''],
      [''option'', ''tcplog''],
      [''tcp-request'', ''inspect-delay'', ''5s''],
      [''tcp-request'', ''content'', ''accept'', ''if'', ''{'', ''req_ssl_hello_type'', ''1'', ''}'']]"

definition use_backend_words :: "Backend \<Rightarrow> string list" where
  "use_backend_words be = [''use_backend'', be_Name be, ''if'', ''{'', ''req_ssl_sni'', ''-i'', bes_Host (be_Spec be), ''}'']"

definition server_words :: "BackendServerSpec \<Rightarrow> string list" where
  "server_words s = [''server'', bss_Name s, bss_Address s @ '':'' @ show_int (sint (bss_Port s)), ''check'']"

definition backend_words :: "Backend \<Rightarrow> string list list" where
  "backend_words be = [[''backend'', be_Name be], [''mode'', ''tcp'']]
     @ map server_words (List.map_filter id (bes_Servers (be_Spec be)))"

definition plain_server :: "BackendServerSpec \<Rightarrow> bool" where
  "plain_server s \<longleftrightarrow> is_word (bss_Name s) \<and> is_word (bss_Address s)"

definition plain_backend :: "Backend \<Rightarrow> bool" where
  "plain_backend be \<longleftrightarrow> is_word (be_Name be) \<and> is_word (bes_Host (be_Spec be))
     \<and> (\<forall>s. Some s \<in> set (bes_Servers (be_Spec be)) \<longrightarrow> plain_server s)"

definition plain_frontend :: "(string, Backend list) gomap \<Rightarrow> Frontend \<Rightarrow> bool" where
  "plain_frontend backends fe \<longleftrightarrow> is_word (fe_Name fe)
     \<and> (\<forall>be \<in> set (backends_at backends (fe_Name fe)). plain_backend be)"

lemma is_wordD: "is_word w \<Longrightarrow> nl \<notin> set w" "is_word w \<Longrightarrow> blank \<notin> set w" "is_word w \<Longrightarrow> w \<noteq> []"
  by (simp_all add: is_word_def)

lemma tokens_prefixed:
  "tokens (''frontend '' @ n) = ''frontend'' # tokens n"
  "tokens (''backend '' @ n) = ''backend'' # tokens n"
  "tokens (''  bind '' @ n) = ''bind'' # tokens n"
  "tokens (''  use_backend '' @ n) = ''use_backend'' # tokens n"
  "tokens (''  server '' @ n) = ''server'' # tokens n"
  by (simp_all add: tokens_def blank_def)

lemma tokens_then_blank: "tokens (a @ '' '' @ b) = tokens a @ tokens b"
  using tokens_append [of a b] by (simp add: blank_def)

lemma server_line_words:
  assumes "plain_server s"
  shows "tokens (''  server '' @ bss_Name s @ '' '' @ bss_Address s @ '':'' @ show_int (sint (bss_Port s)) @ '' check'')
    = server_words s"
proof -
  have w: "is_word (bss_Address s @ '':'' @ show_int (sint (bss_Port s)))"
    using assms is_word_show_int [of "sint (bss_Port s)"]
    by (auto simp: plain_server_def is_word_def blank_def nl_def)
  have "tokens (bss_Name s @ '' '' @ (bss_Address s @ '':'' @ show_int (sint (bss_Port s))) @ '' '' @ ''check'')
      = [bss_Name s, bss_Address s @ '':'' @ show_int (sint (bss_Port s))] @ tokens ''check''"
    using assms w by (simp only: tokens_then_blank tokens_word plain_server_def) simp
  then show ?thesis
    by (simp add: tokens_prefixed server_words_def) (simp add: tokens_def blank_def)
qed

lemma use_backend_line_words:
  assumes "plain_backend be"
  shows "tokens (''  use_backend '' @ be_Name be @ '' if { req_ssl_sni -i '' @ bes_Host (be_Spec be) @ '' }'')
    = use_backend_words be"
proof -
  have "tokens (be_Name be @ '' '' @ ''if { req_ssl_sni -i'' @ '' '' @ bes_Host (be_Spec be) @ '' '' @ ''}'')
      = [be_Name be] @ tokens ''if { req_ssl_sni -i'' @ [bes_Host (be_Spec be)] @ tokens ''}''"
    using assms by (simp only: tokens_then_blank tokens_word plain_backend_def)
  then show ?thesis
    by (simp add: tokens_prefixed use_backend_words_def) (simp add: tokens_def blank_def)
qed

lemma bind_port_word: "is_word (''*:'' @ show_int i)"
  using is_word_show_int [of i] by (auto simp: is_word_def blank_def nl_def)

lemma frontend_text_words:
  assumes "fes_Service (fe_Spec fe) = Some service" and "is_word (fe_Name fe)" and "frontend_text fe = Inr t"
  shows "text_tokens (t @ rest) = frontend_words fe service @ text_tokens rest"
proof -
  let ?ls = "['''', ''frontend '' @ fe_Name fe, ''  bind *:'' @ show_int (sint (fss_Port service)),
     ''  mode tcp'', ''  option tcplog'', '''', ''  tcp-request inspect-delay 5s'',
     ''  tcp-request content accept if { req_ssl_hello_type 1 }'', '''']"
  have t: "t = unlines ?ls"
    using assms(1,3) by (simp add: frontend_text_def)
  have b: "tokens (''  bind *:'' @ show_int i) = [''bind'', ''*:'' @ show_int i]" for i
    using tokens_prefixed(3) [of "''*:'' @ show_int i"] tokens_word [OF bind_port_word [of i]] by simp
  have "nl \<notin> set l" if "l \<in> set ?ls" for l
    using that is_wordD(1) [OF assms(2)] is_wordD(1) [OF is_word_show_int]
    by (auto simp: nl_def)
  then have "text_tokens (t @ rest) = filter (\<lambda>ws. ws \<noteq> []) (map tokens ?ls) @ text_tokens rest"
    unfolding t by (rule text_tokens_append)
  also have "filter (\<lambda>ws. ws \<noteq> []) (map tokens ?ls) = frontend_words fe service"
    by (simp only: list.map b tokens_prefixed tokens_word [OF assms(2)])
      (simp add: tokens_def blank_def frontend_words_def)
  finally show ?thesis .
qed

lemma use_backend_text_words:
  assumes "plain_backend be"
  shows "text_tokens (use_backend_text be @ rest) = use_backend_words be # text_tokens rest"
proof -
  let ?l = "''  use_backend '' @ be_Name be @ '' if { req_ssl_sni -i '' @ bes_Host (be_Spec be) @ '' }''"
  have "nl \<notin> set ?l"
    using assms by (auto simp: plain_backend_def is_word_def nl_def)
  then have "text_tokens (unlines ['''', ?l] @ rest)
      = filter (\<lambda>ws. ws \<noteq> []) (map tokens ['''', ?l]) @ text_tokens rest"
    by (intro text_tokens_append) auto
  then show ?thesis
    unfolding use_backend_text_def
    by (simp only: list.map use_backend_line_words [OF assms]) (simp add: tokens_Nil use_backend_words_def)
qed

lemma server_text_words:
  assumes "plain_server s" and "server_text (Some s) = Inr t"
  shows "text_tokens (t @ rest) = server_words s # text_tokens rest"
proof -
  let ?l = "''  server '' @ bss_Name s @ '' '' @ bss_Address s @ '':'' @ show_int (sint (bss_Port s)) @ '' check''"
  have "nl \<notin> set ?l"
    using assms(1) is_wordD(1) [OF is_word_show_int] by (auto simp: plain_server_def is_word_def nl_def)
  then have "text_tokens (unlines ['''', ?l] @ rest)
      = filter (\<lambda>ws. ws \<noteq> []) (map tokens ['''', ?l]) @ text_tokens rest"
    by (intro text_tokens_append) auto
  moreover have "t = unlines ['''', ?l]"
    using assms(2) by (simp add: server_text_def)
  ultimately show ?thesis
    by (simp only: list.map server_line_words [OF assms(1)]) (simp add: tokens_Nil server_words_def)
qed

lemma servers_text_words:
  assumes "\<forall>s. Some s \<in> set servers \<longrightarrow> plain_server s" and "res_map server_text servers = Inr ts"
  shows "text_tokens (concat ts @ rest) = map server_words (List.map_filter id servers) @ text_tokens rest"
  using assms
proof (induction servers arbitrary: ts)
  case (Cons s servers)
  then obtain t ts' where ts: "ts = t # ts'" "server_text s = Inr t" "res_map server_text servers = Inr ts'"
    by (auto simp: res_bind_eq_Inr)
  then obtain s' where "s = Some s'"
    using server_text_ok by blast
  moreover from this have "plain_server s'" using Cons.prems(1) by simp
  ultimately show ?case
    using Cons ts server_text_words [of s' t] by (simp add: List.map_filter_simps)
qed (simp add: List.map_filter_simps)

lemma backend_text_words:
  assumes "plain_backend be" and "backend_text be = Inr t"
  shows "text_tokens (t @ rest) = backend_words be @ text_tokens rest"
proof -
  from assms(2) obtain ts where ts: "res_map server_text (bes_Servers (be_Spec be)) = Inr ts"
    "t = unlines ['''', ''backend '' @ be_Name be, ''  mode tcp''] @ concat ts"
    by (auto simp: backend_text_def res_bind_eq_Inr)
  have name: "is_word (be_Name be)" using assms(1) by (simp add: plain_backend_def)
  have "text_tokens (t @ rest) = filter (\<lambda>ws. ws \<noteq> []) (map tokens ['''', ''backend '' @ be_Name be, ''  mode tcp''])
      @ text_tokens (concat ts @ rest)"
    unfolding ts(2) append_assoc
    by (rule text_tokens_append) (use is_wordD(1) [OF name] in \<open>auto simp: nl_def\<close>)
  also have "filter (\<lambda>ws. ws \<noteq> []) (map tokens ['''', ''backend '' @ be_Name be, ''  mode tcp''])
      = [[''backend'', be_Name be], [''mode'', ''tcp'']]"
    by (simp only: list.map tokens_prefixed tokens_word [OF name]) (simp add: tokens_def blank_def)
  also have "text_tokens (concat ts @ rest)
      = map server_words (List.map_filter id (bes_Servers (be_Spec be))) @ text_tokens rest"
    using assms(1) by (intro servers_text_words [OF _ ts(1)]) (simp add: plain_backend_def)
  finally show ?thesis by (simp add: backend_words_def)
qed

text \<open>Lists of pieces, when each piece is read on its own.\<close>

lemma text_tokens_pieces:
  assumes "res_map f xs = Inr ts"
    and "\<And>x t rest. x \<in> set xs \<Longrightarrow> f x = Inr t \<Longrightarrow> text_tokens (t @ rest) = g x @ text_tokens rest"
  shows "text_tokens (concat ts @ rest) = concat (map g xs) @ text_tokens rest"
  using assms
proof (induction xs arbitrary: ts)
  case (Cons x xs)
  then obtain t ts' where "ts = t # ts'" "f x = Inr t" "res_map f xs = Inr ts'"
    by (auto simp: res_bind_eq_Inr)
  with Cons.IH [of ts'] Cons.prems(2) [of x t "concat ts' @ rest"] Cons.prems(2) show ?case by simp
qed simp

lemma use_backends_words:
  "\<forall>be \<in> set bs. plain_backend be \<Longrightarrow>
   text_tokens (concat (map use_backend_text bs) @ rest) = map use_backend_words bs @ text_tokens rest"
  by (induction bs) (simp_all add: use_backend_text_words)

definition block_words :: "(string, Backend list) gomap \<Rightarrow> Frontend \<Rightarrow> string list list" where
  "block_words backends fe =
     (case fes_Service (fe_Spec fe) of None \<Rightarrow> [] | Some service \<Rightarrow> frontend_words fe service)
     @ map use_backend_words (backends_at backends (fe_Name fe))
     @ concat (map backend_words (backends_at backends (fe_Name fe)))"

lemma frontend_block_words:
  assumes "plain_frontend backends fe" and "frontend_block backends fe = Inr t"
  shows "text_tokens (t @ rest) = block_words backends fe @ text_tokens rest"
proof -
  let ?bs = "backends_at backends (fe_Name fe)"
  from assms(2) obtain h ss where h: "frontend_text fe = Inr h" and ss: "res_map backend_text ?bs = Inr ss"
    and t: "t = h @ concat (map use_backend_text ?bs) @ concat ss"
    by (auto simp: frontend_block_def res_bind_eq_Inr Let_def)
  obtain service where service: "fes_Service (fe_Spec fe) = Some service"
    using h by (auto simp: frontend_text_def split: option.splits)
  have plain: "is_word (fe_Name fe)" "\<forall>be \<in> set ?bs. plain_backend be"
    using assms(1) by (simp_all add: plain_frontend_def)
  have "text_tokens (concat ss @ rest) = concat (map backend_words ?bs) @ text_tokens rest"
    using plain(2) by (intro text_tokens_pieces [OF ss]) (simp add: backend_text_words)
  then have "text_tokens (t @ rest) = frontend_words fe service @ map use_backend_words ?bs
      @ concat (map backend_words ?bs) @ text_tokens rest"
    by (simp add: t frontend_text_words [OF service plain(1) h] use_backends_words [OF plain(2)])
  with service show ?thesis by (simp add: block_words_def)
qed

lemma loadBalancerConfig_words:
  assumes "\<forall>fe \<in> set frontends. plain_frontend backends fe" and "loadBalancerConfig frontends backends = Inr body"
  shows "text_tokens body = concat (map (block_words backends) frontends)"
proof -
  from assms(2) obtain blocks where "res_map (frontend_block backends) frontends = Inr blocks" "body = concat blocks"
    by (auto simp: loadBalancerConfig_def res_bind_eq_Inr)
  then show ?thesis
    using text_tokens_pieces [of "frontend_block backends" frontends blocks "block_words backends" "[]"]
      frontend_block_words assms(1) by (simp add: text_simps)
qed

section \<open>Routes and sections\<close>

text \<open>
  A reader of the words: the routes \<open>(frontend, SNI host, backend)\<close> in order, and the backend
  sections in order.
\<close>

definition frontend_of :: "string list \<Rightarrow> string option" where
  "frontend_of l = (case l of [kw, n] \<Rightarrow> if kw = ''frontend'' then Some n else None | _ \<Rightarrow> None)"

definition backend_of :: "string list \<Rightarrow> string option" where
  "backend_of l = (case l of [kw, n] \<Rightarrow> if kw = ''backend'' then Some n else None | _ \<Rightarrow> None)"

definition route_of :: "string list \<Rightarrow> (string \<times> string) option" where
  "route_of l = (case l of [kw, b, _, _, _, _, host, _] \<Rightarrow>
     if kw = ''use_backend'' then Some (host, b) else None | _ \<Rightarrow> None)"

fun read_routes :: "string \<Rightarrow> string list list \<Rightarrow> (string \<times> string \<times> string) list" where
  "read_routes cur [] = []"
| "read_routes cur (l # ls) =
     (case frontend_of l of Some n \<Rightarrow> read_routes n ls
      | None \<Rightarrow> (case route_of l of Some (host, b) \<Rightarrow> (cur, host, b) # read_routes cur ls
                | None \<Rightarrow> read_routes cur ls))"

definition read_backends :: "string list list \<Rightarrow> string list" where
  "read_backends ls = List.map_filter backend_of ls"

text \<open>What the configuration is meant to route.\<close>

definition planned_routes :: "Frontend list \<Rightarrow> (string, Backend list) gomap \<Rightarrow> (string \<times> string \<times> string) list" where
  "planned_routes frontends backends = concat (map (\<lambda>fe.
     map (\<lambda>be. (fe_Name fe, bes_Host (be_Spec be), be_Name be)) (backends_at backends (fe_Name fe))) frontends)"

definition planned_backends :: "Frontend list \<Rightarrow> (string, Backend list) gomap \<Rightarrow> string list" where
  "planned_backends frontends backends = concat (map (\<lambda>fe. map be_Name (backends_at backends (fe_Name fe))) frontends)"

lemma line_kinds:
  "frontend_of (use_backend_words be) = None" "route_of (use_backend_words be) = Some (bes_Host (be_Spec be), be_Name be)"
  "backend_of (use_backend_words be) = None"
  "frontend_of (server_words s) = None" "route_of (server_words s) = None" "backend_of (server_words s) = None"
  by (simp_all add: use_backend_words_def server_words_def frontend_of_def route_of_def backend_of_def)

lemma read_routes_quiet:
  "\<forall>l \<in> set ls. frontend_of l = None \<and> route_of l = None \<Longrightarrow> read_routes cur (ls @ ms) = read_routes cur ms"
  by (induction ls) auto

lemma read_routes_uses:
  "read_routes cur (map use_backend_words bs @ ms)
   = map (\<lambda>be. (cur, bes_Host (be_Spec be), be_Name be)) bs @ read_routes cur ms"
  by (induction bs) (simp_all add: line_kinds)

lemma read_routes_frontend:
  "read_routes cur (frontend_words fe service @ ms) = read_routes (fe_Name fe) ms"
  by (simp add: frontend_words_def frontend_of_def route_of_def)

lemma quiet_backends:
  "\<forall>l \<in> set (concat (map backend_words bs)). frontend_of l = None \<and> route_of l = None"
proof -
  have "frontend_of [''backend'', n] = None \<and> route_of [''backend'', n] = None"
    "frontend_of [''mode'', ''tcp''] = None \<and> route_of [''mode'', ''tcp''] = None" for n
    by (simp_all add: frontend_of_def route_of_def)
  then show ?thesis by (auto simp: backend_words_def line_kinds)
qed

lemma read_routes_block:
  assumes "fes_Service (fe_Spec fe) \<noteq> None"
  shows "read_routes cur (block_words backends fe @ ms)
    = map (\<lambda>be. (fe_Name fe, bes_Host (be_Spec be), be_Name be)) (backends_at backends (fe_Name fe))
      @ read_routes (fe_Name fe) ms"
  using assms
  by (auto simp: block_words_def read_routes_frontend read_routes_uses read_routes_quiet [OF quiet_backends])

lemma read_routes_blocks:
  "\<forall>fe \<in> set frontends. fes_Service (fe_Spec fe) \<noteq> None \<Longrightarrow>
   read_routes cur (concat (map (block_words backends) frontends)) = planned_routes frontends backends"
  by (induction frontends arbitrary: cur) (simp_all add: planned_routes_def read_routes_block)

lemma read_backends_simps [simp]:
  "read_backends [] = []" "read_backends (ls @ ms) = read_backends ls @ read_backends ms"
  "read_backends (l # ls) = (case backend_of l of None \<Rightarrow> read_backends ls | Some n \<Rightarrow> n # read_backends ls)"
  by (simp_all add: read_backends_def List.map_filter_def split: option.splits)

lemma read_backends_quiet: "\<forall>l \<in> set ls. backend_of l = None \<Longrightarrow> read_backends ls = []"
  by (induction ls) auto

lemma read_backends_sections: "read_backends (concat (map backend_words bs)) = map be_Name bs"
proof (induction bs)
  case (Cons be bs)
  have "read_backends (map server_words ss) = []" for ss
    by (rule read_backends_quiet) (auto simp: line_kinds)
  with Cons show ?case by (simp add: backend_words_def backend_of_def)
qed simp

lemma read_backends_block:
  "read_backends (block_words backends fe) = map be_Name (backends_at backends (fe_Name fe))"
proof -
  have "read_backends (map use_backend_words bs) = []" for bs
    by (rule read_backends_quiet) (auto simp: line_kinds)
  moreover have "read_backends (frontend_words fe service) = []" for service
    by (rule read_backends_quiet) (auto simp: frontend_words_def backend_of_def)
  ultimately show ?thesis
    by (simp add: block_words_def read_backends_sections split: option.splits)
qed

lemma read_backends_blocks:
  "read_backends (concat (map (block_words backends) frontends)) = planned_backends frontends backends"
  by (induction frontends) (simp_all add: planned_backends_def read_backends_block)

section \<open>Properties\<close>

text \<open>
  C13: when every frontend has a Service and the backends it selects have no nil server,
  BuildConfig returns one file per replica, named after the pod, all with the same text; nothing
  else is in the map.
\<close>

theorem BuildConfig_files:
  assumes "\<forall>fe \<in> set frontends. buildable backends fe"
  shows "\<exists>cfg content. BuildConfig lb frontends backends = Inr cfg \<and> gm_wf cfg
    \<and> (\<forall>n. gm_get cfg n = (if \<exists>i. 0 \<le> i \<and> i < sint (lbs_Replicas (lb_Spec lb)) \<and> n = podName lb i then Some content else None))
    \<and> length cfg = nat (sint (lbs_Replicas (lb_Spec lb)))"
proof -
  obtain body where body: "loadBalancerConfig frontends backends = Inr body"
    using assms loadBalancerConfig_ok by blast
  obtain cfg where cfg: "BuildConfig lb frontends backends = Inr cfg" "gm_wf cfg"
    "\<And>k. gm_get cfg k = (if k \<in> podName lb ` set (replica_indices lb) then Some (static_config @ body) else None)"
    using BuildConfig_get [OF body, of lb] by blast
  have "set (map fst cfg) = podName lb ` set (replica_indices lb)"
    using cfg(3) by (force simp: dom_map_of_conv_image_fst [symmetric] dom_def split: if_splits)
  moreover have "card (podName lb ` set (replica_indices lb)) = card (set (replica_indices lb))"
    by (intro card_image inj_onI) (rule podName_inj)
  moreover have "card (set (replica_indices lb)) = nat (sint (lbs_Replicas (lb_Spec lb)))"
  proof -
    have "set (replica_indices lb) = {0 ..< sint (lbs_Replicas (lb_Spec lb))}" by (auto simp: set_replica_indices)
    then show ?thesis by simp
  qed
  ultimately have "length cfg = nat (sint (lbs_Replicas (lb_Spec lb)))"
    using cfg(2) by (metis distinct_card gm_wf_def length_map)
  moreover have "gm_get cfg n = (if \<exists>i. 0 \<le> i \<and> i < sint (lbs_Replicas (lb_Spec lb)) \<and> n = podName lb i
      then Some (static_config @ body) else None)" for n
    by (auto simp: cfg(3) set_replica_indices)
  ultimately show ?thesis using cfg(1,2) by blast
qed

theorem BuildConfig_files_witness:
  "\<exists>cfg content. BuildConfig (sample_lb 2) [sample_frontend ''web'' None None] [] = Inr cfg
     \<and> gm_get cfg (podName (sample_lb 2) 1) = Some content \<and> length cfg = 2"
proof -
  have "\<forall>fe \<in> set [sample_frontend ''web'' None None]. buildable [] fe"
    by (simp add: buildable_def backends_at_def sample_frontend_def)
  from BuildConfig_files [OF this, of "sample_lb 2"] obtain cfg content where
    cfg: "BuildConfig (sample_lb 2) [sample_frontend ''web'' None None] [] = Inr cfg" "length cfg = 2"
    "\<forall>n. gm_get cfg n = (if \<exists>i. 0 \<le> i \<and> i < sint (2 :: int32) \<and> n = podName (sample_lb 2) i then Some content else None)"
    by fastforce
  have "\<exists>i. 0 \<le> i \<and> i < sint (2 :: int32) \<and> podName (sample_lb 2) 1 = podName (sample_lb 2) i"
    by (intro exI [of _ 1]) simp
  then have "gm_get cfg (podName (sample_lb 2) 1) = Some content" using cfg(3) by presburger
  with cfg show ?thesis by blast
qed

text \<open>
  C14: BuildConfig panics exactly when some frontend has no Service or is given a backend with a nil
  server; otherwise it returns the files, and it never returns an error.
\<close>

theorem BuildConfig_panics:
  "(BuildConfig lb frontends backends = Inl (Panic NilDereference)
     \<longleftrightarrow> (\<exists>fe \<in> set frontends. fes_Service (fe_Spec fe) = None
          \<or> (\<exists>be \<in> set (backends_at backends (fe_Name fe)). None \<in> set (bes_Servers (be_Spec be)))))
   \<and> (BuildConfig lb frontends backends = Inl (Panic NilDereference) \<or> (\<exists>files. BuildConfig lb frontends backends = Inr files))"
proof -
  have inv: "(\<forall>fe \<in> set frontends. buildable backends fe) \<longleftrightarrow> \<not> (\<exists>fe \<in> set frontends. fes_Service (fe_Spec fe) = None
      \<or> (\<exists>be \<in> set (backends_at backends (fe_Name fe)). None \<in> set (bes_Servers (be_Spec be))))"
    by (auto simp: buildable_def servers_present_def)
  show ?thesis
  proof (cases "loadBalancerConfig frontends backends")
    case (Inl f)
    then have "f = Panic NilDereference" "\<not> (\<forall>fe \<in> set frontends. buildable backends fe)"
      using loadBalancerConfig_panic loadBalancerConfig_ok by (blast, metis sum.distinct(1))
    with Inl inv show ?thesis by (simp add: BuildConfig_def)
  next
    case (Inr body)
    then have "\<forall>fe \<in> set frontends. buildable backends fe" using loadBalancerConfig_ok by blast
    with Inr inv show ?thesis by (simp add: BuildConfig_def)
  qed
qed

text \<open>The words of a whole file: the fixed part, then the blocks of the frontends.\<close>

definition static_words :: "string list list" where
  "static_words = text_tokens static_config"

lemma static_config_words: "text_tokens (static_config @ t) = static_words @ text_tokens t"
proof -
  obtain ls where ls: "static_config = unlines ls" "\<And>l. l \<in> set ls \<Longrightarrow> nl \<notin> set l"
  proof
    show "static_config = unlines (butlast (split_on nl static_config))"
      by code_simp
    show "\<And>l. l \<in> set (butlast (split_on nl static_config)) \<Longrightarrow> nl \<notin> set l"
      using split_on_pieces in_set_butlastD by fastforce
  qed
  show ?thesis
    unfolding static_words_def ls(1) using text_tokens_append [of ls t] text_tokens_unlines [of ls] ls(2) by simp
qed

lemma static_quiet: "read_routes cur (static_words @ ms) = read_routes ''prometheus'' ms" "read_backends static_words = []"
proof -
  have w: "static_words = [[''global''], [''log'', ''stdout'', ''format'', ''raw'', ''local0''], [''defaults''],
      [''log'', ''global''], [''option'', ''dontlognull''], [''timeout'', ''connect'', ''5s''], [''timeout'', ''client'', ''50s''],
      [''timeout'', ''client-fin'', ''50s''], [''timeout'', ''server'', ''50s''], [''timeout'', ''tunnel'', ''1h''],
      [''frontend'', ''stats''], [''mode'', ''http''], [''bind'', '':8404''], [''stats'', ''enable''],
      [''stats'', ''refresh'', ''10s''], [''stats'', ''uri'', ''/stats''], [''stats'', ''show-modules''],
      [''frontend'', ''prometheus''], [''bind'', '':8405''], [''mode'', ''http''],
      [''http-request'', ''use-service'', ''prometheus-exporter''], [''no'', ''log'']]"
    by code_simp
  show "read_routes cur (static_words @ ms) = read_routes ''prometheus'' ms" "read_backends static_words = []"
    by (simp_all add: w frontend_of_def route_of_def backend_of_def)
qed

text \<open>The words of a file BuildConfig wrote.\<close>

lemma BuildConfig_words:
  assumes "BuildConfig lb frontends backends = Inr cfg" and "gm_get cfg n = Some content"
    and "\<forall>fe \<in> set frontends. plain_frontend backends fe"
  shows "text_tokens content = static_words @ concat (map (block_words backends) frontends)"
    and "\<forall>fe \<in> set frontends. fes_Service (fe_Spec fe) \<noteq> None"
proof -
  from assms(1) obtain body where body: "loadBalancerConfig frontends backends = Inr body"
    by (auto simp: BuildConfig_def res_bind_eq_Inr)
  obtain cfg' where cfg': "BuildConfig lb frontends backends = Inr cfg'"
    "\<And>k. gm_get cfg' k = (if k \<in> podName lb ` set (replica_indices lb) then Some (static_config @ body) else None)"
    using BuildConfig_get [OF body, of lb] by blast
  then have "content = static_config @ body" using assms(1,2) by (auto split: if_splits)
  then show "text_tokens content = static_words @ concat (map (block_words backends) frontends)"
    by (simp add: static_config_words loadBalancerConfig_words [OF assms(3) body])
  show "\<forall>fe \<in> set frontends. fes_Service (fe_Spec fe) \<noteq> None"
    using body loadBalancerConfig_ok [of frontends backends] by (auto simp: buildable_def)
qed

text \<open>
  C12: reading back a file BuildConfig wrote, line by line and word by word, gives exactly the routes
  meant: for each frontend and each backend it selects, the backend's host routed to the backend,
  in order; and the backend sections are exactly the selected backends. So every route leads to a
  backend section of the same file. Names, hosts and addresses are single words.
\<close>

theorem BuildConfig_routes:
  assumes "BuildConfig lb frontends backends = Inr cfg" and "gm_get cfg n = Some content"
    and "\<forall>fe \<in> set frontends. plain_frontend backends fe"
  shows "read_routes '''' (text_tokens content) = planned_routes frontends backends
    \<and> read_backends (text_tokens content) = planned_backends frontends backends
    \<and> (\<lambda>(fe, host, be). be) ` set (read_routes '''' (text_tokens content)) = set (read_backends (text_tokens content))"
proof -
  have routes: "read_routes '''' (text_tokens content) = planned_routes frontends backends"
    using BuildConfig_words [OF assms] by (simp add: static_quiet read_routes_blocks)
  have sections: "read_backends (text_tokens content) = planned_backends frontends backends"
    using BuildConfig_words(1) [OF assms] by (simp add: static_quiet read_backends_blocks)
  have "(\<lambda>(fe, host, be). be) ` set (planned_routes frontends backends) = set (planned_backends frontends backends)"
    by (force simp: planned_routes_def planned_backends_def)
  with routes sections show ?thesis by simp
qed

lemma sample_plain:
  assumes "\<forall>be \<in> set (backends_at backends name). \<exists>n h. be = sample_backend n h \<and> is_word n \<and> is_word h"
  shows "is_word name \<Longrightarrow> plain_frontend backends (sample_frontend name None p)"
    and "buildable backends (sample_frontend name None p)"
  using assms
  by (fastforce simp: plain_frontend_def plain_backend_def plain_server_def is_word_def blank_def nl_def
      sample_backend_def sample_frontend_def buildable_def servers_present_def)+

lemma sample_words: "is_word ''web''" "is_word ''api''" "is_word ''b''" "is_word ''example.org''"
  by (simp_all add: is_word_def blank_def nl_def)

definition sample_backends :: "(string, Backend list) gomap" where
  "sample_backends = [(''web'', [sample_backend ''b'' ''example.org'']), (''api'', [sample_backend ''b'' ''example.org''])]"

lemma sample_backends_at [simp]: "backends_at sample_backends ''web'' = [sample_backend ''b'' ''example.org'']"
  "backends_at sample_backends ''api'' = [sample_backend ''b'' ''example.org'']"
  by (simp_all add: backends_at_def sample_backends_def)

lemma sample_blocks:
  "\<forall>fe \<in> set [sample_frontend ''web'' None p, sample_frontend ''api'' None q]. plain_frontend sample_backends fe"
  "\<forall>fe \<in> set [sample_frontend ''web'' None p, sample_frontend ''api'' None q]. buildable sample_backends fe"
proof -
  have "\<exists>n h. sample_backend ''b'' ''example.org'' = sample_backend n h \<and> is_word n \<and> is_word h"
    using sample_words by blast
  then show "\<forall>fe \<in> set [sample_frontend ''web'' None p, sample_frontend ''api'' None q]. plain_frontend sample_backends fe"
    "\<forall>fe \<in> set [sample_frontend ''web'' None p, sample_frontend ''api'' None q]. buildable sample_backends fe"
    using sample_plain [of sample_backends "''web''"] sample_plain [of sample_backends "''api''"] sample_words by simp_all
qed

text \<open>What BuildConfig gives for one replica and these two frontends.\<close>

lemma sample_config:
  "\<exists>cfg content. BuildConfig (sample_lb 1) [sample_frontend ''web'' None p, sample_frontend ''api'' None q] sample_backends = Inr cfg
     \<and> gm_get cfg (podName (sample_lb 1) 0) = Some content"
proof -
  obtain body where body: "loadBalancerConfig [sample_frontend ''web'' None p, sample_frontend ''api'' None q] sample_backends = Inr body"
    using sample_blocks(2) loadBalancerConfig_ok by blast
  show ?thesis
    using BuildConfig_get [OF body, of "sample_lb 1"] by (auto simp: set_replica_indices)
qed

theorem BuildConfig_routes_witness:
  "\<exists>cfg content. BuildConfig (sample_lb 1) [sample_frontend ''web'' None None, sample_frontend ''api'' None None] sample_backends = Inr cfg
     \<and> gm_get cfg (podName (sample_lb 1) 0) = Some content
     \<and> read_routes '''' (text_tokens content) = [(''web'', ''example.org'', ''b''), (''api'', ''example.org'', ''b'')]"
proof -
  obtain cfg content where cfg: "BuildConfig (sample_lb 1) [sample_frontend ''web'' None None, sample_frontend ''api'' None None] sample_backends = Inr cfg"
    "gm_get cfg (podName (sample_lb 1) 0) = Some content"
    using sample_config by blast
  from BuildConfig_routes [OF cfg sample_blocks(1)] cfg show ?thesis
    by (simp add: planned_routes_def) (simp add: sample_backend_def)
qed

text \<open>
  The configuration does not depend on the frontends' status: the port allocated for a
  frontend is not what HAProxy binds.
\<close>

theorem BuildConfig_ignores_status:
  "BuildConfig lb (map (\<lambda>fe. fe\<lparr>fe_Status := status fe\<rparr>) frontends) backends = BuildConfig lb frontends backends"
proof -
  have "res_map (frontend_block backends) (map (\<lambda>fe. fe\<lparr>fe_Status := status fe\<rparr>) frontends)
      = res_map (frontend_block backends) frontends"
  proof (induction frontends)
    case (Cons fe frontends)
    have "frontend_block backends (fe\<lparr>fe_Status := status fe\<rparr>) = frontend_block backends fe"
      by (cases "fes_Service (fe_Spec fe)") (simp_all add: frontend_block_def frontend_text_def)
    with Cons show ?case by simp
  qed simp
  then show ?thesis by (simp add: BuildConfig_def loadBalancerConfig_def)
qed

text \<open>
  A backend that two frontends select gets two sections of the same name in one file.
\<close>

theorem BuildConfig_duplicate_sections:
  assumes "BuildConfig lb frontends backends = Inr cfg" and "gm_get cfg n = Some content"
    and "\<forall>fe \<in> set frontends. plain_frontend backends fe"
    and "frontends = xs @ fe1 # ys @ fe2 # zs"
    and "be1 \<in> set (backends_at backends (fe_Name fe1))" and "be2 \<in> set (backends_at backends (fe_Name fe2))"
    and "be_Name be1 = be_Name be2"
  shows "\<not> distinct (read_backends (text_tokens content))"
proof -
  let ?names = "\<lambda>fe. map be_Name (backends_at backends (fe_Name fe))"
  have "read_backends (text_tokens content) = planned_backends frontends backends"
    using BuildConfig_words(1) [OF assms(1-3)] by (simp add: static_quiet read_backends_blocks)
  moreover have "planned_backends frontends backends =
      concat (map ?names xs) @ ?names fe1 @ concat (map ?names ys) @ ?names fe2 @ concat (map ?names zs)"
    by (simp add: planned_backends_def assms(4))
  moreover have "be_Name be1 \<in> set (?names fe1)" using assms(5) by simp
  moreover have "be_Name be1 \<in> set (?names fe2)" unfolding assms(7) using assms(6) by simp
  ultimately show ?thesis by auto
qed

theorem BuildConfig_duplicate_sections_witness:
  "\<exists>cfg content. BuildConfig (sample_lb 1) [sample_frontend ''web'' None None, sample_frontend ''api'' None None] sample_backends = Inr cfg
     \<and> gm_get cfg (podName (sample_lb 1) 0) = Some content \<and> \<not> distinct (read_backends (text_tokens content))"
proof -
  obtain cfg content where cfg: "BuildConfig (sample_lb 1) [sample_frontend ''web'' None None, sample_frontend ''api'' None None] sample_backends = Inr cfg"
    "gm_get cfg (podName (sample_lb 1) 0) = Some content"
    using sample_config by blast
  have "\<not> distinct (read_backends (text_tokens content))"
    using BuildConfig_duplicate_sections [OF cfg sample_blocks(1), of "[]" _ "[]" _ "[]"
        "sample_backend ''b'' ''example.org''" "sample_backend ''b'' ''example.org''"] by simp
  with cfg show ?thesis by blast
qed

end
