(* ===== verification/Kube_Client.thy ===== *)
theory Kube_Client
  imports API_Types
begin

text \<open>
  The boundary to Kubernetes. The core objects the operator reads and writes are records with
  the fields the program touches. The client, the cache, the label machinery and
  \<^verbatim>\<open>controllerutil\<close> are code outside the repository: they are the fields of the record
  \<open>kube\<close>, an argument of every operation that calls them, and what the program relies on is
  stated as named hypotheses (\<open>ignore_not_found_doc\<close>, \<open>create_or_update_doc\<close>, and so on).

  Two contracts of the program's own code are stated here as locales: \<open>mutator\<close>, what a
  callback passed to \<^verbatim>\<open>CreateOrUpdate\<close> has to satisfy, and \<open>event_filter\<close>, the label filter
  both informer clients put in front of their handlers.
\<close>

section \<open>Core objects\<close>

record Pod =
  pod_ObjectMeta :: ObjectMeta
  pod_NodeName :: string
  pod_PodIP :: string

datatype IntOrString = FromInt32 int32 | FromString string

record ServicePort =
  sp_Name :: string
  sp_Protocol :: string
  sp_Port :: int32
  sp_TargetPort :: IntOrString

record Service =
  svc_ObjectMeta :: ObjectMeta
  svc_Ports :: "ServicePort list"
  svc_ClusterIP :: string
  svc_Ingress :: "string list"

record SliceEndpoint =
  se_Addresses :: "string list"
  se_Ready :: "bool option"
  se_NodeName :: "string option"

record EndpointPort =
  epp_Name :: "string option"
  epp_Port :: "int32 option"
  epp_Protocol :: "string option"

record EndpointSlice =
  es_ObjectMeta :: ObjectMeta
  es_AddressType :: string
  es_Endpoints :: "SliceEndpoint list"
  es_Ports :: "EndpointPort list"

text \<open>The data of a ConfigMap distinguishes the nil map (\<^const>\<open>None\<close>) from an empty one.\<close>

record ConfigMap =
  cm_ObjectMeta :: ObjectMeta
  cm_Data :: "(string, string) gomap option"

subsection \<open>StatefulSet\<close>

record EnvVar =
  env_Name :: string
  env_FieldPath :: "string option"

record ContainerPort =
  cp_Name :: string
  cp_Protocol :: string
  cp_ContainerPort :: int32

record VolumeMount =
  vm_Name :: string
  vm_MountPath :: string
  vm_ReadOnly :: bool

record SecurityContext =
  sc_AllowPrivilegeEscalation :: "bool option"
  sc_RunAsNonRoot :: "bool option"
  sc_DropCapabilities :: "string list"
  sc_SeccompProfile :: "string option"

record Container =
  ct_Name :: string
  ct_Image :: string
  ct_Args :: "string list"
  ct_Env :: "EnvVar list"
  ct_Ports :: "ContainerPort list"
  ct_VolumeMounts :: "VolumeMount list"
  ct_SecurityContext :: "SecurityContext option"

datatype VolumeSource = EmptyDir string | ConfigMapVolume string

record Volume =
  vol_Name :: string
  vol_Source :: VolumeSource

record PodSpec =
  pds_RunAsNonRoot :: "bool option"
  pds_Containers :: "Container list"
  pds_Volumes :: "Volume list"

record PodTemplateSpec =
  pts_ObjectMeta :: ObjectMeta
  pts_Spec :: PodSpec

record StatefulSet =
  ss_ObjectMeta :: ObjectMeta
  ss_Replicas :: "int32 option"
  ss_ServiceName :: string
  ss_Selector :: "LabelSelector option"
  ss_Template :: PodTemplateSpec

section \<open>The client and the label machinery, as parameters\<close>

text \<open>The owner passed to \<^verbatim>\<open>SetControllerReference\<close>: its kind (from the scheme) and its metadata.\<close>

record Owner =
  ow_Kind :: string
  ow_Meta :: ObjectMeta

datatype selection = In | Exists

record ListOptions =
  lo_LabelSelector :: "selector option"
  lo_Namespace :: "string option"

record 'w kube =
  IsNotFound :: "goerror \<Rightarrow> bool"
  IgnoreNotFound :: "goerror \<Rightarrow> goerror option"
  LabelSelectorAsSelector :: "LabelSelector \<Rightarrow> goerror + selector"
  NewRequirement :: "string \<Rightarrow> selection \<Rightarrow> string list \<Rightarrow> goerror + selector"
  SetControllerReference :: "Owner \<Rightarrow> ObjectMeta \<Rightarrow> goerror + OwnerReference list"
  GetLoadBalancer :: "NamespacedName \<Rightarrow> ('w, GlobalLoadBalancer) go"
  GetFrontend :: "NamespacedName \<Rightarrow> ('w, Frontend) go"
  ListFrontends :: "ListOptions \<Rightarrow> ('w, FrontendList) go"
  ListBackends :: "ListOptions \<Rightarrow> ('w, BackendList) go"
  UpdateFrontendStatus :: "Frontend \<Rightarrow> ('w, Frontend) go"
  CreateOrUpdateStatefulSet :: "StatefulSet \<Rightarrow> (StatefulSet \<Rightarrow> StatefulSet result) \<Rightarrow> ('w, StatefulSet) go"
  CreateOrUpdateConfigMap :: "ConfigMap \<Rightarrow> (ConfigMap \<Rightarrow> ConfigMap result) \<Rightarrow> ('w, ConfigMap) go"
  CreateOrUpdateService :: "Service \<Rightarrow> (Service \<Rightarrow> Service result) \<Rightarrow> ('w, Service) go"
  CreateOrUpdateEndpointSlice :: "EndpointSlice \<Rightarrow> (EndpointSlice \<Rightarrow> EndpointSlice result) \<Rightarrow> ('w, EndpointSlice) go"
  CacheGetPeer :: "NamespacedName \<Rightarrow> ('w, Peer) go"
  CreatePeer :: "Peer \<Rightarrow> ('w, Peer) go"
  UpdatePeerStatus :: "Peer \<Rightarrow> ('w, Peer) go"

text \<open>An error of such a call that has no world effect, in the monad.\<close>

definition go_of_error :: "(goerror + 'a) \<Rightarrow> ('w, 'a) go" where
  "go_of_error r = (case r of Inl e \<Rightarrow> go_fail e | Inr x \<Rightarrow> go_return x)"

definition result_of_error :: "(goerror + 'a) \<Rightarrow> 'a result" where
  "result_of_error r = (case r of Inl e \<Rightarrow> Inl (Err e) | Inr x \<Rightarrow> Inr x)"

text \<open>\<^verbatim>\<open>return ctrl.Result{}, client.IgnoreNotFound(err)\<close>: a panic is no error and passes.\<close>

definition ignore_not_found :: "'w kube \<Rightarrow> fault \<Rightarrow> unit result" where
  "ignore_not_found k f =
     (case f of Panic p \<Rightarrow> Inl (Panic p)
      | Err e \<Rightarrow> (case IgnoreNotFound k e of None \<Rightarrow> Inr () | Some e' \<Rightarrow> Inl (Err e')))"

lemma go_of_error_run [go_run, simp]:
  "go_of_error (Inl e) w = (Inl (Err e), w)" "go_of_error (Inr x) w = (Inr x, w)"
  by (simp_all add: go_of_error_def)

lemma result_of_error_simps [simp]:
  "result_of_error (Inl e) = Inl (Err e)" "result_of_error (Inr x) = Inr x"
  by (simp_all add: result_of_error_def)

section \<open>Documented behaviour the program relies on\<close>

text \<open>
  \<^verbatim>\<open>client.IgnoreNotFound\<close>: nil on NotFound errors; every other error is returned unmodified.
\<close>

definition ignore_not_found_doc :: "'w kube \<Rightarrow> bool" where
  "ignore_not_found_doc k \<longleftrightarrow> (\<forall>e. IgnoreNotFound k e = (if IsNotFound k e then None else Some e))"

text \<open>\<^verbatim>\<open>labels.NewRequirement\<close>: the operators \<^verbatim>\<open>In\<close> and \<^verbatim>\<open>Exists\<close>.\<close>

definition requirement_doc :: "'w kube \<Rightarrow> bool" where
  "requirement_doc k \<longleftrightarrow>
     (\<forall>key vs sel ls. NewRequirement k key In vs = Inr sel \<longrightarrow> sel ls = (\<exists>v \<in> set vs. gm_get ls key = Some v)) \<and>
     (\<forall>key vs sel ls. NewRequirement k key Exists vs = Inr sel \<longrightarrow> sel ls = (gm_get ls key \<noteq> None))"

text \<open>
  \<^verbatim>\<open>controllerutil.CreateOrUpdate\<close>: the object is fetched; the callback runs on the fetched
  object, or on the given one when there is none; if it fails, its failure is returned, unless
  the object could not be fetched in the first place, and nothing is stored; on success the object is stored under its key with what the callback
  set (\<open>payload\<close>), and no other object changes. \<open>stored\<close> reads the objects of that kind
  from a world.
\<close>

definition fetched :: "('w \<Rightarrow> NamespacedName \<Rightarrow> 'o option) \<Rightarrow> ('o \<Rightarrow> NamespacedName) \<Rightarrow> 'w \<Rightarrow> 'o \<Rightarrow> 'o" where
  "fetched stored key w obj = (case stored w (key obj) of None \<Rightarrow> obj | Some present \<Rightarrow> present)"

definition create_or_update_doc ::
  "('o \<Rightarrow> ('o \<Rightarrow> 'o result) \<Rightarrow> ('w, 'o) go) \<Rightarrow> ('w \<Rightarrow> NamespacedName \<Rightarrow> 'o option) \<Rightarrow> ('o \<Rightarrow> NamespacedName)
    \<Rightarrow> ('o \<Rightarrow> 'p) \<Rightarrow> bool" where
  "create_or_update_doc cou stored key payload \<longleftrightarrow>
     (\<forall>obj mut w r w'. cou obj mut w = (Inr r, w') \<longrightarrow>
        (\<exists>m. mut (fetched stored key w obj) = Inr m \<and> payload r = payload m
           \<and> stored w' (key obj) = Some r \<and> (\<forall>n. n \<noteq> key obj \<longrightarrow> stored w' n = stored w n))) \<and>
     (\<forall>obj mut w f. mut (fetched stored key w obj) = Inl f \<longrightarrow>
        (fst (cou obj mut w) = Inl f \<or> (\<exists>e. fst (cou obj mut w) = Inl (Err e))) \<and> stored (snd (cou obj mut w)) = stored w)"

lemma create_or_update_docD:
  assumes "create_or_update_doc cou stored key payload" and "cou obj mut w = (Inr r, w')"
  obtains m where "mut (fetched stored key w obj) = Inr m" "payload r = payload m"
    "stored w' (key obj) = Some r" "\<And>n. n \<noteq> key obj \<Longrightarrow> stored w' n = stored w n"
  using assms unfolding create_or_update_doc_def by blast

lemma create_or_update_doc_fail:
  assumes "create_or_update_doc cou stored key payload" and "mut (fetched stored key w obj) = Inl f"
  shows "fst (cou obj mut w) = Inl f \<or> (\<exists>e. fst (cou obj mut w) = Inl (Err e))" "stored (snd (cou obj mut w)) = stored w"
  using assms unfolding create_or_update_doc_def by blast+

section \<open>Callbacks of CreateOrUpdate\<close>

text \<open>
  A callback must not change the name or the namespace of the object it is run for, the one
  under the key \<open>target\<close> (\<^verbatim>\<open>CreateOrUpdate\<close> refuses that), and run on what it has stored before
  it must not set anything else: reconciling again settles.
\<close>

locale mutator =
  fixes mut :: "'o \<Rightarrow> 'o result"
    and target :: NamespacedName
    and key :: "'o \<Rightarrow> NamespacedName"
    and payload :: "'o \<Rightarrow> 'p"
  assumes keeps_key: "key obj = target \<Longrightarrow> mut obj = Inr m \<Longrightarrow> key m = target"
    and settles: "mut obj = Inr m \<Longrightarrow> payload r = payload m \<Longrightarrow> mut r = Inr m' \<Longrightarrow> payload m' = payload m"
begin

text \<open>A second run of \<^verbatim>\<open>CreateOrUpdate\<close> that succeeds leaves the stored payload as it is.\<close>

lemma second_run_settles:
  assumes doc: "create_or_update_doc cou stored key payload"
    and first: "cou obj mut w = (Inr r, w')" and second: "cou obj mut w' = (Inr r', w'')"
  shows "payload r' = payload r \<and> stored w'' (key obj) = Some r'"
proof -
  from doc first obtain m where m: "mut (fetched stored key w obj) = Inr m" "payload r = payload m"
    "stored w' (key obj) = Some r"
    by (rule create_or_update_docD)
  from doc second obtain m' where m': "mut (fetched stored key w' obj) = Inr m'" "payload r' = payload m'"
    "stored w'' (key obj) = Some r'"
    by (rule create_or_update_docD)
  have "mut r = Inr m'" using m(3) m'(1) by (simp add: fetched_def)
  then have "payload m' = payload m" using settles m(1,2) by blast
  with m m' show ?thesis by simp
qed

end

section \<open>Informer events\<close>

text \<open>
  What an informer hands to a callback of type \<^verbatim>\<open>func(any)\<close>: an object of the watched type, the
  tombstone \<^verbatim>\<open>cache.DeletedFinalStateUnknown\<close> of a deletion it has not seen, or anything else.
\<close>

datatype 'o any = Obj 'o | FinalStateUnknown 'o | Foreign

locale event_filter =
  fixes labels_of :: "'o \<Rightarrow> label_set"
    and skip :: "'s \<Rightarrow> 't"
    and filt :: "selector \<Rightarrow> ('o \<Rightarrow> 's \<Rightarrow> 't) \<Rightarrow> 'o any \<Rightarrow> 's \<Rightarrow> 't"
    and filt_update :: "selector \<Rightarrow> ('o \<Rightarrow> 'o \<Rightarrow> 's \<Rightarrow> 't) \<Rightarrow> 'o any \<Rightarrow> 'o any \<Rightarrow> 's \<Rightarrow> 't"
  assumes filt_hit: "sel (labels_of x) \<Longrightarrow> filt sel h (Obj x) s = h x s"
    and filt_miss: "(\<And>x. a = Obj x \<Longrightarrow> \<not> sel (labels_of x)) \<Longrightarrow> filt sel h a s = skip s"
    and filt_update_hit: "sel (labels_of y) \<Longrightarrow> filt_update sel g (Obj x) (Obj y) s = g x y s"
    and filt_update_miss: "(\<And>x y. a = Obj x \<Longrightarrow> b = Obj y \<Longrightarrow> \<not> sel (labels_of y))
      \<Longrightarrow> filt_update sel g a b s = skip s"
begin

lemma filt_cases: "filt sel h a s = skip s \<or> (\<exists>x. a = Obj x \<and> sel (labels_of x) \<and> filt sel h a s = h x s)"
  using filt_hit filt_miss by metis

lemma filt_update_cases:
  "filt_update sel g a b s = skip s
   \<or> (\<exists>x y. a = Obj x \<and> b = Obj y \<and> sel (labels_of y) \<and> filt_update sel g a b s = g x y s)"
  using filt_update_hit filt_update_miss by metis

text \<open>What the handlers guarantee for selected objects the filtered callbacks guarantee for all.\<close>

lemma filt_inv: "P (skip s) \<Longrightarrow> (\<And>x. sel (labels_of x) \<Longrightarrow> P (h x s)) \<Longrightarrow> P (filt sel h a s)"
  using filt_cases [of sel h a s] by auto

lemma filt_update_inv:
  "P (skip s) \<Longrightarrow> (\<And>x y. sel (labels_of y) \<Longrightarrow> P (g x y s)) \<Longrightarrow> P (filt_update sel g a b s)"
  using filt_update_cases [of sel g a b s] by auto

text \<open>A tombstone is never handled: it is not an object of the watched type.\<close>

lemma tombstone_skipped: "filt sel h (FinalStateUnknown x) s = skip s"
  by (rule filt_miss) simp

end

end
