(* ===== verification/Stateful_Set.thy ===== *)
theory Stateful_Set
  imports Kube_Client
begin

text \<open>
  \<^verbatim>\<open>internal/controller/statefulset.go\<close>: the StatefulSet of HAProxy pods. The closure passed to
  \<^verbatim>\<open>CreateOrUpdate\<close> is \<open>statefulset_mutate\<close>; a \<^verbatim>\<open>resource.Quantity\<close> is kept as the literal
  it is parsed from, and a pointer made with \<^verbatim>\<open>ptr.To\<close> as \<^const>\<open>Some\<close>.
\<close>

section \<open>The code\<close>

definition componentLabel :: string where "componentLabel = ''app.kubernetes.io/component''"
definition nameLabel :: string where "nameLabel = ''app.kubernetes.io/name''"
definition versionLabel :: string where "versionLabel = ''app.kubernetes.io/version''"
definition haproxyRunPath :: string where "haproxyRunPath = ''/var/run/haproxy''"
definition haproxyRunVolumeName :: string where "haproxyRunVolumeName = ''haproxy-run''"
definition haproxyConfigPath :: string where "haproxyConfigPath = ''/etc/haproxy''"
definition haproxyConfigVolumeName :: string where "haproxyConfigVolumeName = ''haproxy-config''"
definition haproxyConfigMapVolumeName :: string where "haproxyConfigMapVolumeName = ''haproxy-static-config''"
definition haproxyConfigMapName :: string where "haproxyConfigMapName = ''haproxy-config''"
definition haproxyConfigMapPath :: string where "haproxyConfigMapPath = ''/etc/haproxy/static''"

definition haproxyLabels :: "(string, string) gomap" where
  "haproxyLabels = [(componentLabel, ''haproxy''), (nameLabel, ''global-load-balancer'')]"

text \<open>\<^verbatim>\<open>version.Version\<close>.\<close>

definition Version :: string where
  "Version = ''0.1.0''"

text \<open>The map literal of the labels; a missing key reads as the empty string.\<close>

definition label_at :: "(string, string) gomap \<Rightarrow> string \<Rightarrow> string" where
  "label_at m k = (case gm_get m k of None \<Rightarrow> '''' | Some v \<Rightarrow> v)"

definition pod_labels :: "(string, string) gomap" where
  "pod_labels =
     [(componentLabel, label_at haproxyLabels componentLabel),
      (nameLabel, label_at haproxyLabels nameLabel),
      (versionLabel, Version)]"

definition deploymentName :: "GlobalLoadBalancer \<Rightarrow> string" where
  "deploymentName cluster = lb_Name cluster @ ''-haproxy''"

definition haproxy_container :: "GlobalLoadBalancer \<Rightarrow> Container" where
  "haproxy_container cluster =
     \<lparr>ct_Name = ''haproxy'',
      ct_Image = lbs_Image (lb_Spec cluster),
      ct_Args = [''-W'', ''-f'', ''/etc/haproxy/static/$(POD_NAME).cfg'', ''-p'', ''/var/run/haproxy/haproxy.pid''],
      ct_Env = [\<lparr>env_Name = ''POD_NAME'', env_FieldPath = Some ''metadata.name''\<rparr>],
      ct_Ports =
        [\<lparr>cp_Name = ''stats'', cp_Protocol = ''TCP'', cp_ContainerPort = 8404\<rparr>,
         \<lparr>cp_Name = ''metrics'', cp_Protocol = ''TCP'', cp_ContainerPort = 8405\<rparr>],
      ct_VolumeMounts =
        [\<lparr>vm_Name = haproxyConfigVolumeName, vm_MountPath = haproxyConfigPath, vm_ReadOnly = False\<rparr>,
         \<lparr>vm_Name = haproxyConfigMapVolumeName, vm_MountPath = haproxyConfigMapPath, vm_ReadOnly = True\<rparr>,
         \<lparr>vm_Name = haproxyRunVolumeName, vm_MountPath = haproxyRunPath, vm_ReadOnly = False\<rparr>],
      ct_SecurityContext = Some
        \<lparr>sc_AllowPrivilegeEscalation = Some False,
         sc_RunAsNonRoot = Some True,
         sc_DropCapabilities = [''ALL''],
         sc_SeccompProfile = Some ''RuntimeDefault''\<rparr>\<rparr>"

text \<open>The name of the ConfigMap, formatted the same way here and in \<^verbatim>\<open>ReconcileConfig\<close>.\<close>

definition configMapName :: "GlobalLoadBalancer \<Rightarrow> string" where
  "configMapName cluster = lb_Name cluster @ ''-'' @ haproxyConfigMapName"

definition pod_template :: "GlobalLoadBalancer \<Rightarrow> PodTemplateSpec" where
  "pod_template cluster =
     \<lparr>pts_ObjectMeta = zero_ObjectMeta\<lparr>om_Labels := pod_labels\<rparr>,
      pts_Spec =
        \<lparr>pds_RunAsNonRoot = Some True,
         pds_Containers = [haproxy_container cluster],
         pds_Volumes =
           [\<lparr>vol_Name = haproxyConfigVolumeName, vol_Source = EmptyDir ''100Mi''\<rparr>,
            \<lparr>vol_Name = haproxyConfigMapVolumeName, vol_Source = ConfigMapVolume (configMapName cluster)\<rparr>,
            \<lparr>vol_Name = haproxyRunVolumeName, vol_Source = EmptyDir ''50Mi''\<rparr>]\<rparr>\<rparr>"

text \<open>The closure: metadata, replicas and template are replaced, then the guarded part runs.\<close>

definition statefulset_mutate :: "'w kube \<Rightarrow> GlobalLoadBalancer \<Rightarrow> StatefulSet \<Rightarrow> StatefulSet result" where
  "statefulset_mutate k cluster deployment =
     (let deployment = deployment
            \<lparr>ss_ObjectMeta := (named_meta (deploymentName cluster) (lb_Namespace cluster))\<lparr>om_Labels := pod_labels\<rparr>,
             ss_Replicas := Some (lbs_Replicas (lb_Spec cluster)),
             ss_Template := pod_template cluster\<rparr>
      in if om_CreationTimestamp (ss_ObjectMeta deployment) = None
         then let deployment = deployment
                    \<lparr>ss_Selector := Some \<lparr>ls_MatchLabels = haproxyLabels, ls_MatchExpressions = []\<rparr>\<rparr>
              in res_bind (result_of_error (SetControllerReference k
                     \<lparr>ow_Kind = ''GlobalLoadBalancer'', ow_Meta = lb_ObjectMeta cluster\<rparr> (ss_ObjectMeta deployment)))
                   (\<lambda>refs. Inr (deployment\<lparr>ss_ObjectMeta := (ss_ObjectMeta deployment)\<lparr>om_OwnerReferences := refs\<rparr>\<rparr>))
         else Inr deployment)"

text \<open>The literal the closure starts from when the StatefulSet does not exist yet.\<close>

definition new_statefulset :: "GlobalLoadBalancer \<Rightarrow> StatefulSet" where
  "new_statefulset cluster =
     \<lparr>ss_ObjectMeta = named_meta (deploymentName cluster) (lb_Namespace cluster),
      ss_Replicas = None, ss_ServiceName = '''', ss_Selector = None,
      ss_Template = \<lparr>pts_ObjectMeta = zero_ObjectMeta,
        pts_Spec = \<lparr>pds_RunAsNonRoot = None, pds_Containers = [], pds_Volumes = []\<rparr>\<rparr>\<rparr>"

definition EnsureHAProxyStatefulSet :: "'w kube \<Rightarrow> GlobalLoadBalancer \<Rightarrow> ('w, unit) go" where
  "EnsureHAProxyStatefulSet k cluster =
     go_bind (CreateOrUpdateStatefulSet k (new_statefulset cluster) (statefulset_mutate k cluster))
       (\<lambda>_. go_return ())"

section \<open>The closure\<close>

definition ss_key :: "StatefulSet \<Rightarrow> NamespacedName" where
  "ss_key ss = meta_key (ss_ObjectMeta ss)"

text \<open>What the closure sets of the object.\<close>

definition ss_payload ::
  "StatefulSet \<Rightarrow> (string, string) gomap \<times> OwnerReference list \<times> int32 option \<times> LabelSelector option \<times> PodTemplateSpec" where
  "ss_payload ss = (om_Labels (ss_ObjectMeta ss), om_OwnerReferences (ss_ObjectMeta ss),
     ss_Replicas ss, ss_Selector ss, ss_Template ss)"

text \<open>The owner references requested for the StatefulSet: a function of the load balancer alone.\<close>

definition statefulset_owner :: "'w kube \<Rightarrow> GlobalLoadBalancer \<Rightarrow> goerror + OwnerReference list" where
  "statefulset_owner k cluster = SetControllerReference k
     \<lparr>ow_Kind = ''GlobalLoadBalancer'', ow_Meta = lb_ObjectMeta cluster\<rparr>
     ((named_meta (deploymentName cluster) (lb_Namespace cluster))\<lparr>om_Labels := pod_labels\<rparr>)"

text \<open>
  The replaced metadata has no creation time, so the guard always holds: the closure sets the
  same labels, owner, replicas, selector and template whatever object it is given.
\<close>

lemma statefulset_mutate_eq:
  "statefulset_mutate k cluster ss = res_bind (result_of_error (statefulset_owner k cluster)) (\<lambda>refs.
     Inr (ss\<lparr>ss_ObjectMeta := (named_meta (deploymentName cluster) (lb_Namespace cluster))
               \<lparr>om_Labels := pod_labels, om_OwnerReferences := refs\<rparr>,
             ss_Replicas := Some (lbs_Replicas (lb_Spec cluster)),
             ss_Template := pod_template cluster,
             ss_Selector := Some \<lparr>ls_MatchLabels = haproxyLabels, ls_MatchExpressions = []\<rparr>\<rparr>))"
  by (cases ss) (simp add: statefulset_mutate_def statefulset_owner_def named_meta_def zero_ObjectMeta_def Let_def)

lemma statefulset_mutate_payload:
  assumes "statefulset_mutate k cluster ss = Inr m"
  shows "\<exists>refs. statefulset_owner k cluster = Inr refs \<and> ss_payload m = (pod_labels, refs,
    Some (lbs_Replicas (lb_Spec cluster)), Some \<lparr>ls_MatchLabels = haproxyLabels, ls_MatchExpressions = []\<rparr>,
    pod_template cluster) \<and> ss_key m = NN (lb_Namespace cluster) (deploymentName cluster)"
  using assms
  by (auto simp: statefulset_mutate_eq ss_payload_def ss_key_def meta_key_def named_meta_def
      result_of_error_def res_bind_def split: sum.splits)

interpretation ss: mutator "statefulset_mutate k cluster" "NN (lb_Namespace cluster) (deploymentName cluster)"
  ss_key ss_payload for k cluster
proof unfold_locales
  fix obj m r m'
  show "ss_key m = NN (lb_Namespace cluster) (deploymentName cluster)"
    if "statefulset_mutate k cluster obj = Inr m"
    using statefulset_mutate_payload [OF that] by blast
  show "ss_payload m' = ss_payload m"
    if "statefulset_mutate k cluster obj = Inr m" "statefulset_mutate k cluster r = Inr m'"
    using statefulset_mutate_payload [OF that(1)] statefulset_mutate_payload [OF that(2)] by auto
qed

section \<open>The pod template\<close>

text \<open>A pod spec is consistent when every mount names a declared volume and no volume is declared twice.\<close>

definition mounts_declared :: "PodSpec \<Rightarrow> bool" where
  "mounts_declared spec \<longleftrightarrow> distinct (map vol_Name (pds_Volumes spec)) \<and>
     (\<forall>ct \<in> set (pds_Containers spec). \<forall>vm \<in> set (ct_VolumeMounts ct).
        vm_Name vm \<in> set (map vol_Name (pds_Volumes spec)))"

text \<open>The labels of a selector's \<^verbatim>\<open>MatchLabels\<close> are among the given ones.\<close>

definition match_labels :: "LabelSelector \<Rightarrow> label_set \<Rightarrow> bool" where
  "match_labels sel ls \<longleftrightarrow> (\<forall>(k, v) \<in> set (ls_MatchLabels sel). gm_get ls k = Some v)"

text \<open>\<^verbatim>\<open>internal/consts/main.go\<close>: the literal in the pod template is the name the constants package gives.\<close>

definition HAPROXY_CONTAINER_NAME :: string where "HAPROXY_CONTAINER_NAME = ''haproxy''"

lemma container_named: "map ct_Name (pds_Containers (pts_Spec (pod_template cluster))) = [HAPROXY_CONTAINER_NAME]"
  by (simp add: pod_template_def haproxy_container_def HAPROXY_CONTAINER_NAME_def)

lemmas label_defs = componentLabel_def nameLabel_def versionLabel_def haproxyLabels_def pod_labels_def label_at_def

lemmas volume_defs = haproxyRunVolumeName_def haproxyConfigVolumeName_def haproxyConfigMapVolumeName_def

lemma pod_template_mounts: "mounts_declared (pts_Spec (pod_template cluster))"
  by (simp add: mounts_declared_def pod_template_def haproxy_container_def volume_defs)

lemma pod_template_selected:
  "match_labels \<lparr>ls_MatchLabels = haproxyLabels, ls_MatchExpressions = []\<rparr>
     (om_Labels (pts_ObjectMeta (pod_template cluster)))"
  by (simp add: match_labels_def pod_template_def label_defs)

end
