(* ===== verification/GLB_Controller.thy ===== *)
theory GLB_Controller
  imports Ports Config_Builder Stateful_Set
begin

text \<open>
  \<^verbatim>\<open>internal/controller/globalloadbalancer_controller.go\<close>: selecting the frontends of a load
  balancer, claiming them and giving them ports, and writing the HAProxy configuration. The
  loops are recursive functions over the slices; a \<^verbatim>\<open>for _, frontend := range frontends\<close> binds a
  copy of the element, so the slice itself does not change. \<open>planned_writes\<close> is the abstract
  description of what the claiming loop asks the API server to store.
\<close>

section \<open>The code\<close>

record GlobalLoadBalancerReconciler =
  glbr_StartingPort :: int32

definition owned_by :: "GlobalLoadBalancer \<Rightarrow> LoadBalancerReference \<Rightarrow> bool" where
  "owned_by lb ref \<longleftrightarrow> lbr_Namespace ref = lb_Namespace lb \<and> lbr_Name ref = lb_Name lb"

fun getFrontends_loop :: "GlobalLoadBalancer \<Rightarrow> bool \<Rightarrow> Frontend list \<Rightarrow> Frontend list \<Rightarrow> Frontend list" where
  "getFrontends_loop lb onlyOwned filtered [] = filtered"
| "getFrontends_loop lb onlyOwned filtered (fe # fes) =
     (if onlyOwned \<and> fe_Owner fe = None then getFrontends_loop lb onlyOwned filtered fes
      else if (case fe_Owner fe of None \<Rightarrow> True | Some ref \<Rightarrow> owned_by lb ref)
           then getFrontends_loop lb onlyOwned (filtered @ [fe]) fes
           else getFrontends_loop lb onlyOwned filtered fes)"

definition getFrontends :: "'w kube \<Rightarrow> GlobalLoadBalancer \<Rightarrow> bool \<Rightarrow> ('w, Frontend list) go" where
  "getFrontends k lb onlyOwned =
     (case LabelSelectorAsSelector k (lbs_FrontendSelector (lb_Spec lb)) of
        Inl e \<Rightarrow> go_fail (Wrapped ''invalid backend selector on GlobalLoadBalancer'' e)
      | Inr sel \<Rightarrow>
          go_bind (ListFrontends k \<lparr>lo_LabelSelector = Some sel, lo_Namespace = None\<rparr>) (\<lambda>frontends.
            go_return (getFrontends_loop lb onlyOwned [] (fel_Items frontends))))"

fun getBackends_loop ::
  "'w kube \<Rightarrow> (string, Backend list) gomap \<Rightarrow> Frontend list \<Rightarrow> ('w, (string, Backend list) gomap) go" where
  "getBackends_loop k backendMap [] = go_return backendMap"
| "getBackends_loop k backendMap (fe # fes) =
     (case LabelSelectorAsSelector k (fes_BackendSelector (fe_Spec fe)) of
        Inl e \<Rightarrow> go_fail (Wrapped ''invalid backend selector on GlobalLoadBalancer'' e)
      | Inr sel \<Rightarrow>
          go_bind (ListBackends k \<lparr>lo_LabelSelector = Some sel, lo_Namespace = None\<rparr>) (\<lambda>backends.
            getBackends_loop k (gm_put (fe_Name fe) (bel_Items backends) backendMap) fes))"

definition getBackends :: "'w kube \<Rightarrow> Frontend list \<Rightarrow> ('w, (string, Backend list) gomap) go" where
  "getBackends k frontends = getBackends_loop k [] frontends"

text \<open>The two assignments of the loop body on its copy of the frontend, and whether one was made.\<close>

definition assign_frontend :: "GlobalLoadBalancer \<Rightarrow> int32 \<Rightarrow> Frontend \<Rightarrow> Frontend \<times> bool" where
  "assign_frontend lb nextPort fe =
     (let (fe, updated) =
            (if fe_Owner fe = None
             then (fe\<lparr>fe_Status := (fe_Status fe)\<lparr>fest_LoadBalancer :=
                     Some \<lparr>lbr_Name = lb_Name lb, lbr_Namespace = lb_Namespace lb\<rparr>\<rparr>\<rparr>, True)
             else (fe, False))
      in if fe_Port fe = None
         then (fe\<lparr>fe_Status := (fe_Status fe)\<lparr>fest_Port := Some nextPort\<rparr>\<rparr>, True)
         else (fe, updated))"

text \<open>The loop: a failed status update is logged and skipped, a panic unwinds.\<close>

fun ReconcileFrontends_loop ::
  "'w kube \<Rightarrow> GlobalLoadBalancer \<Rightarrow> int32 \<Rightarrow> Frontend list \<Rightarrow> int32 \<Rightarrow> Frontend list \<Rightarrow> ('w, unit) go" where
  "ReconcileFrontends_loop k lb startingPort frontends nextPort [] = go_return ()"
| "ReconcileFrontends_loop k lb startingPort frontends nextPort (fe # fes) = (\<lambda>w.
     let (fe', updated) = assign_frontend lb nextPort fe
     in if updated
        then (case UpdateFrontendStatus k fe' w of
                (Inl (Panic p), w') \<Rightarrow> (Inl (Panic p), w')
              | (Inl (Err e), w') \<Rightarrow> ReconcileFrontends_loop k lb startingPort frontends nextPort fes w'
              | (Inr _, w') \<Rightarrow> ReconcileFrontends_loop k lb startingPort frontends
                                 (GetNextPort frontends startingPort) fes w')
        else ReconcileFrontends_loop k lb startingPort frontends (GetNextPort frontends startingPort) fes w)"

definition ReconcileFrontends ::
  "'w kube \<Rightarrow> GlobalLoadBalancerReconciler \<Rightarrow> GlobalLoadBalancer \<Rightarrow> ('w, unit) go" where
  "ReconcileFrontends k r lb =
     go_bind (getFrontends k lb False) (\<lambda>frontends.
       let nextPort = (if length frontends > 0 then GetNextPort frontends (glbr_StartingPort r)
                       else glbr_StartingPort r)
       in ReconcileFrontends_loop k lb (glbr_StartingPort r) frontends nextPort frontends)"

text \<open>The closure of \<^verbatim>\<open>ReconcileConfig\<close>: assigning to an entry of a nil map panics.\<close>

fun config_loop :: "(string \<times> string) list \<Rightarrow> (string, string) gomap option \<Rightarrow> (string, string) gomap option result" where
  "config_loop [] data = Inr data"
| "config_loop ((pod, config) # rest) data =
     (case data of None \<Rightarrow> Inl (Panic NilMapAssignment)
      | Some d \<Rightarrow> config_loop rest (Some (gm_put (pod @ ''.cfg'') config d)))"

definition configmap_mutate ::
  "((string \<times> string) list \<Rightarrow> (string \<times> string) list) \<Rightarrow> (string, string) gomap \<Rightarrow> ConfigMap \<Rightarrow> ConfigMap result" where
  "configmap_mutate ord configMap cm =
     res_bind (config_loop (ord configMap) (cm_Data cm)) (\<lambda>data. Inr (cm\<lparr>cm_Data := data\<rparr>))"

definition new_configmap :: "GlobalLoadBalancer \<Rightarrow> ConfigMap" where
  "new_configmap lb = \<lparr>cm_ObjectMeta = named_meta (configMapName lb) (lb_Namespace lb), cm_Data = Some []\<rparr>"

definition ReconcileConfig ::
  "'w kube \<Rightarrow> ((string \<times> string) list \<Rightarrow> (string \<times> string) list) \<Rightarrow> GlobalLoadBalancer \<Rightarrow> ('w, unit) go" where
  "ReconcileConfig k ord lb =
     go_bind (getFrontends k lb False) (\<lambda>frontends.
     go_bind (getBackends k frontends) (\<lambda>backends.
     go_bind (go_lift (BuildConfig lb frontends backends)) (\<lambda>configMap.
     go_bind (CreateOrUpdateConfigMap k (new_configmap lb) (configmap_mutate ord configMap)) (\<lambda>_.
       go_return ()))))"

text \<open>\<^verbatim>\<open>Reconcile\<close>; the \<^verbatim>\<open>ctrl.Result\<close> is empty on every path.\<close>

definition GLB_Reconcile ::
  "'w kube \<Rightarrow> ((string \<times> string) list \<Rightarrow> (string \<times> string) list) \<Rightarrow> GlobalLoadBalancerReconciler
    \<Rightarrow> NamespacedName \<Rightarrow> ('w, unit) go" where
  "GLB_Reconcile k ord r req = (\<lambda>w.
     case GetLoadBalancer k req w of
       (Inl f, w') \<Rightarrow> (ignore_not_found k f, w')
     | (Inr lb, w') \<Rightarrow>
         go_bind (EnsureHAProxyStatefulSet k lb) (\<lambda>_.
         go_bind (ReconcileFrontends k r lb) (\<lambda>_.
         go_bind (ReconcileConfig k ord lb) (\<lambda>_. go_return ()))) w')"

section \<open>Selecting frontends\<close>

text \<open>The frontends a load balancer may work on: its own and, unless only those are asked for, unclaimed ones.\<close>

definition eligible :: "GlobalLoadBalancer \<Rightarrow> bool \<Rightarrow> Frontend \<Rightarrow> bool" where
  "eligible lb onlyOwned fe \<longleftrightarrow>
     (case fe_Owner fe of None \<Rightarrow> \<not> onlyOwned | Some ref \<Rightarrow> owned_by lb ref)"

lemma getFrontends_loop_filter:
  "getFrontends_loop lb onlyOwned acc fes = acc @ filter (eligible lb onlyOwned) fes"
  by (induction fes arbitrary: acc) (auto simp: eligible_def split: option.splits)

lemma getFrontends_run:
  "getFrontends k lb onlyOwned w =
     (case LabelSelectorAsSelector k (lbs_FrontendSelector (lb_Spec lb)) of
        Inl e \<Rightarrow> (Inl (Err (Wrapped ''invalid backend selector on GlobalLoadBalancer'' e)), w)
      | Inr sel \<Rightarrow>
          (case ListFrontends k \<lparr>lo_LabelSelector = Some sel, lo_Namespace = None\<rparr> w of
             (Inl f, w') \<Rightarrow> (Inl f, w')
           | (Inr l, w') \<Rightarrow> (Inr (filter (eligible lb onlyOwned) (fel_Items l)), w')))"
  by (auto simp: getFrontends_def getFrontends_loop_filter go_run split: sum.splits prod.splits)

section \<open>What the claiming loop writes\<close>

definition needs_write :: "Frontend \<Rightarrow> bool" where
  "needs_write fe \<longleftrightarrow> fe_Owner fe = None \<or> fe_Port fe = None"

definition planned_writes :: "GlobalLoadBalancer \<Rightarrow> int32 \<Rightarrow> Frontend list \<Rightarrow> Frontend list" where
  "planned_writes lb startingPort frontends =
     map (\<lambda>fe. fst (assign_frontend lb (GetNextPort frontends startingPort) fe)) (filter needs_write frontends)"

text \<open>Issuing status updates in order, ignoring the ones that fail.\<close>

fun run_writes :: "'w kube \<Rightarrow> Frontend list \<Rightarrow> ('w, unit) go" where
  "run_writes k [] = go_return ()"
| "run_writes k (fe # fes) = (\<lambda>w.
     case UpdateFrontendStatus k fe w of
       (Inl (Panic p), w') \<Rightarrow> (Inl (Panic p), w')
     | (_, w') \<Rightarrow> run_writes k fes w')"

lemma assign_updated [simp]: "snd (assign_frontend lb p fe) = needs_write fe"
  by (simp add: assign_frontend_def needs_write_def Let_def)

lemma assign_key [simp]: "fe_ObjectMeta (fst (assign_frontend lb p fe)) = fe_ObjectMeta fe"
  by (simp add: assign_frontend_def Let_def)

lemma assign_spec [simp]: "fe_Spec (fst (assign_frontend lb p fe)) = fe_Spec fe"
  by (simp add: assign_frontend_def Let_def)

lemma assign_port: "fe_Port (fst (assign_frontend lb p fe)) = Some (case fe_Port fe of None \<Rightarrow> p | Some q \<Rightarrow> q)"
  by (auto simp: assign_frontend_def Let_def split: option.splits)

lemma assign_owner: "fe_Owner (fst (assign_frontend lb p fe)) =
    Some (case fe_Owner fe of None \<Rightarrow> \<lparr>lbr_Name = lb_Name lb, lbr_Namespace = lb_Namespace lb\<rparr> | Some ref \<Rightarrow> ref)"
  by (auto simp: assign_frontend_def Let_def split: option.splits)

lemmas assign_facts = assign_port assign_owner

text \<open>
  The loop recomputes the next port from the slice it never changes, so every round uses the
  same port: the loop is exactly the planned writes.
\<close>

lemma ReconcileFrontends_loop_eq:
  "ReconcileFrontends_loop k lb sp frontends (GetNextPort frontends sp) fes w =
     run_writes k (map (\<lambda>fe. fst (assign_frontend lb (GetNextPort frontends sp) fe)) (filter needs_write fes)) w"
proof (induction fes arbitrary: w)
  case (Cons fe fes)
  show ?case
  proof (cases "needs_write fe")
    case True
    then show ?thesis
      using Cons by (simp add: Let_def split_beta split: prod.splits sum.splits fault.splits)
  next
    case False
    then show ?thesis using Cons by (simp add: Let_def split_beta)
  qed
qed simp

lemma ReconcileFrontends_run:
  "ReconcileFrontends k r lb w =
     (case getFrontends k lb False w of
        (Inl f, w') \<Rightarrow> (Inl f, w')
      | (Inr frontends, w') \<Rightarrow> run_writes k (planned_writes lb (glbr_StartingPort r) frontends) w')"
proof -
  have "ReconcileFrontends_loop k lb sp fs (if length fs > 0 then GetNextPort fs sp else sp) fs w'
      = run_writes k (planned_writes lb sp fs) w'" for sp fs w'
  proof (cases "fs = []")
    case False
    then show ?thesis
      using ReconcileFrontends_loop_eq [of k lb sp fs fs w'] by (simp add: planned_writes_def)
  qed (simp add: planned_writes_def)
  then show ?thesis
    by (auto simp: ReconcileFrontends_def go_run Let_def split: prod.splits sum.splits)
qed

lemma run_writes_never_errs: "fst (run_writes k fes w) \<noteq> Inl (Err e)"
  by (induction fes arbitrary: w) (auto split: prod.splits sum.splits fault.splits)

section \<open>The stored frontends\<close>

text \<open>
  \<^verbatim>\<open>Status().Update\<close> writes the status of one stored object and nothing else but its resource version: on success
  the object existed with the resource version that was sent, and has the new status; on a failure, a conflict of
  versions among them, the write may or may not have taken effect.
\<close>

abbreviation fe_version :: "Frontend \<Rightarrow> string" where
  "fe_version fe \<equiv> om_ResourceVersion (fe_ObjectMeta fe)"

definition with_version :: "string \<Rightarrow> Frontend \<Rightarrow> Frontend" where
  "with_version v fe = fe\<lparr>fe_ObjectMeta := (fe_ObjectMeta fe)\<lparr>om_ResourceVersion := v\<rparr>\<rparr>"

lemma with_version_sel [simp]:
  "fe_ObjectMeta (with_version v fe) = (fe_ObjectMeta fe)\<lparr>om_ResourceVersion := v\<rparr>"
  "fe_key (with_version v fe) = fe_key fe" "fe_Spec (with_version v fe) = fe_Spec fe" "fe_Status (with_version v fe) = fe_Status fe"
  by (simp_all add: with_version_def meta_key_def)

lemma with_version_twice [simp]:
  "with_version v ((with_version v' (fe\<lparr>fe_Status := s'\<rparr>))\<lparr>fe_Status := s\<rparr>) = with_version v (fe\<lparr>fe_Status := s\<rparr>)"
  by (simp add: with_version_def)

definition status_written :: "(NamespacedName \<rightharpoonup> Frontend) \<Rightarrow> Frontend \<Rightarrow> (NamespacedName \<rightharpoonup> Frontend) \<Rightarrow> bool" where
  "status_written s fe s' \<longleftrightarrow>
     (\<exists>old v. s (fe_key fe) = Some old \<and> fe_version old = fe_version fe
        \<and> s' = s(fe_key fe \<mapsto> with_version v (old\<lparr>fe_Status := fe_Status fe\<rparr>)))"

definition status_update_doc :: "'w kube \<Rightarrow> ('w \<Rightarrow> NamespacedName \<rightharpoonup> Frontend) \<Rightarrow> bool" where
  "status_update_doc k stored \<longleftrightarrow> (\<forall>fe w.
     (case UpdateFrontendStatus k fe w of
        (Inr _, w') \<Rightarrow> status_written (stored w) fe (stored w')
      | (Inl _, w') \<Rightarrow> stored w' = stored w \<or> status_written (stored w) fe (stored w')))"

text \<open>
  \<^verbatim>\<open>List\<close> with a label selector: stored objects that match, each once; nothing changes, also when it fails. The client
  \<^verbatim>\<open>main\<close> passes reads from a cache, so this describes a list made while the cache is up to date. Reads that are older than
  the store are treated where runs interleave, in \<open>Concurrent_Claims\<close> and \<open>Claim_Liveness\<close>.
\<close>

definition list_frontends_doc :: "'w kube \<Rightarrow> ('w \<Rightarrow> NamespacedName \<rightharpoonup> Frontend) \<Rightarrow> bool" where
  "list_frontends_doc k stored \<longleftrightarrow> (\<forall>opts w. stored (snd (ListFrontends k opts w)) = stored w) \<and> (\<forall>sel w l w'.
     ListFrontends k \<lparr>lo_LabelSelector = Some sel, lo_Namespace = None\<rparr> w = (Inr l, w') \<longrightarrow>
       distinct (map fe_key (fel_Items l))
       \<and> (\<forall>fe. fe \<in> set (fel_Items l) \<longleftrightarrow> stored w (fe_key fe) = Some fe \<and> sel (om_Labels (fe_ObjectMeta fe))))"

lemma status_written_step: "status_written s fe s' \<Longrightarrow> s' n = s n \<or>
    fe_key fe = n \<and> (\<exists>old v. s n = Some old \<and> s' n = Some (with_version v (old\<lparr>fe_Status := fe_Status fe\<rparr>)))"
  by (auto simp: status_written_def split: if_splits)

lemma status_update_docD:
  assumes "status_update_doc k stored" and "UpdateFrontendStatus k fe w = (res, w')"
  shows "res = Inr x \<Longrightarrow> status_written (stored w) fe (stored w')"
    and "stored w' = stored w \<or> status_written (stored w) fe (stored w')"
proof -
  have "case UpdateFrontendStatus k fe w of
        (Inr _, w') \<Rightarrow> status_written (stored w) fe (stored w')
      | (Inl _, w') \<Rightarrow> stored w' = stored w \<or> status_written (stored w) fe (stored w')"
    using assms(1) by (simp add: status_update_doc_def)
  with assms(2) show "res = Inr x \<Longrightarrow> status_written (stored w) fe (stored w')"
    and "stored w' = stored w \<or> status_written (stored w) fe (stored w')"
    by (cases res; simp)+
qed

text \<open>After a run of writes every stored object is as before or has the status of a write to its key.\<close>

lemma run_writes_stored:
  assumes "status_update_doc k stored" and "run_writes k ws w = (res, w')"
  shows "stored w' n = stored w n \<or>
    (\<exists>fe \<in> set ws. \<exists>old v. fe_key fe = n \<and> stored w n = Some old \<and> stored w' n = Some (with_version v (old\<lparr>fe_Status := fe_Status fe\<rparr>)))"
  using assms(2)
proof (induction ws arbitrary: w)
  case (Cons fe ws)
  obtain o1 w1 where up: "UpdateFrontendStatus k fe w = (o1, w1)" by (cases "UpdateFrontendStatus k fe w")
  have "stored w1 = stored w \<or> status_written (stored w) fe (stored w1)"
    using status_update_docD(2) [OF assms(1) up] .
  then have one: "stored w1 n = stored w n \<or> fe_key fe = n
      \<and> (\<exists>old v. stored w n = Some old \<and> stored w1 n = Some (with_version v (old\<lparr>fe_Status := fe_Status fe\<rparr>)))"
    using status_written_step by metis
  have "w' = w1 \<or> run_writes k ws w1 = (res, w')"
    using Cons.prems up by (auto split: sum.splits fault.splits)
  then consider "stored w' n = stored w1 n"
    | fe2 old v where "fe2 \<in> set ws" "fe_key fe2 = n" "stored w1 n = Some old"
      "stored w' n = Some (with_version v (old\<lparr>fe_Status := fe_Status fe2\<rparr>))"
    using Cons.IH by metis
  then show ?case
  proof cases
    case 1
    with one show ?thesis by auto
  next
    case (2 fe2 old v)
    from one have "\<exists>old. stored w n = Some old \<and> stored w' n = Some (with_version v (old\<lparr>fe_Status := fe_Status fe2\<rparr>))"
      using 2(3,4) by (metis option.inject with_version_twice)
    with 2(1,2) show ?thesis by (intro disjI2 bexI [of _ fe2]) auto
  qed
qed simp

text \<open>When every update of the run succeeds, every written status is stored.\<close>

fun writes_succeed :: "'w kube \<Rightarrow> Frontend list \<Rightarrow> 'w \<Rightarrow> bool" where
  "writes_succeed k [] w = True"
| "writes_succeed k (fe # fes) w =
     (case UpdateFrontendStatus k fe w of (Inl _, _) \<Rightarrow> False | (Inr _, w') \<Rightarrow> writes_succeed k fes w')"

text \<open>
  The status updates of a run that did not succeed: the ones that failed, which the loop only logs, and after a panic
  all that were left. A frontend whose update is not among them has its new status stored.
\<close>

fun unwritten :: "'w kube \<Rightarrow> Frontend list \<Rightarrow> 'w \<Rightarrow> Frontend list" where
  "unwritten k [] w = []"
| "unwritten k (fe # fes) w =
     (case UpdateFrontendStatus k fe w of
        (Inl (Panic p), w') \<Rightarrow> fe # fes
      | (Inl (Err e), w') \<Rightarrow> fe # unwritten k fes w'
      | (Inr _, w') \<Rightarrow> unwritten k fes w')"

lemma writes_succeed_all: "writes_succeed k ws w \<Longrightarrow> unwritten k ws w = []"
  by (induction ws arbitrary: w) (auto split: prod.splits sum.splits)

lemma run_writes_each:
  assumes doc: "status_update_doc k stored" and "distinct (map fe_key ws)"
    and "fe \<in> set ws" and "fe \<notin> set (unwritten k ws w)"
  shows "\<exists>old v. stored w (fe_key fe) = Some old
    \<and> stored (snd (run_writes k ws w)) (fe_key fe) = Some (with_version v (old\<lparr>fe_Status := fe_Status fe\<rparr>))"
  using assms(2-)
proof (induction ws arbitrary: w)
  case (Cons fe' ws)
  obtain r w1 where up: "UpdateFrontendStatus k fe' w = (r, w1)" by fastforce
  have run: "run_writes k (fe' # ws) w = run_writes k ws w1" and left: "fe \<notin> set (unwritten k ws w1)" "fe = fe' \<Longrightarrow> \<exists>x. r = Inr x"
    using Cons.prems(2,3) up by (auto split: sum.splits fault.splits)
  show ?case
  proof (cases "fe \<in> set ws")
    case True
    then have "fe_key fe \<in> fe_key ` set ws" by (rule imageI)
    then have "fe_key fe \<noteq> fe_key fe'" using Cons.prems(1) by auto
    then have "stored w1 (fe_key fe) = stored w (fe_key fe)"
      using status_update_docD(2) [OF doc up] status_written_step by metis
    then show ?thesis using Cons.IH [OF _ True left(1)] Cons.prems(1) run by simp
  next
    case False
    then have fe: "fe = fe'" using Cons.prems(2) by simp
    then have wr: "status_written (stored w) fe' (stored w1)" using status_update_docD(1) [OF doc up] left(2) by blast
    obtain res w' where rest: "run_writes k ws w1 = (res, w')" by (cases "run_writes k ws w1")
    have "fe_key fe' \<notin> fe_key ` set ws" using Cons.prems(1) by simp
    then have "\<forall>fe \<in> set ws. fe_key fe \<noteq> fe_key fe'" by (metis imageI)
    then have "stored w' (fe_key fe') = stored w1 (fe_key fe')"
      using run_writes_stored [OF doc rest, of "fe_key fe'"] by blast
    then show ?thesis using wr fe run rest by (auto simp: status_written_def)
  qed
qed simp

text \<open>The frontends whose status update does not succeed in a run of \<^verbatim>\<open>ReconcileFrontends\<close>.\<close>

definition failed_claims :: "'w kube \<Rightarrow> GlobalLoadBalancerReconciler \<Rightarrow> GlobalLoadBalancer \<Rightarrow> 'w \<Rightarrow> NamespacedName list" where
  "failed_claims k r lb w =
     (case getFrontends k lb False w of
        (Inl f, w') \<Rightarrow> []
      | (Inr frontends, w') \<Rightarrow> map fe_key (unwritten k (planned_writes lb (glbr_StartingPort r) frontends) w'))"

section \<open>The ConfigMap\<close>

definition cm_key :: "ConfigMap \<Rightarrow> NamespacedName" where
  "cm_key cm = meta_key (cm_ObjectMeta cm)"

definition cm_payload :: "ConfigMap \<Rightarrow> string \<rightharpoonup> string" where
  "cm_payload cm = (case cm_Data cm of None \<Rightarrow> Map.empty | Some d \<Rightarrow> map_of d)"

text \<open>The entries the closure assigns, later ones first, as reading them back sees them.\<close>

definition cfg_entries :: "(string \<times> string) list \<Rightarrow> (string \<times> string) list" where
  "cfg_entries es = rev (map (\<lambda>(pod, config). (pod @ ''.cfg'', config)) es)"

lemma config_loop_Some: "\<exists>d'. config_loop es (Some d) = Inr (Some d') \<and> map_of d' = map_of d ++ map_of (cfg_entries es)"
proof (induction es arbitrary: d)
  case (Cons e es)
  obtain pod config where e: "e = (pod, config)" by (cases e)
  obtain d' where "config_loop es (Some (gm_put (pod @ ''.cfg'') config d)) = Inr (Some d')"
    "map_of d' = map_of (gm_put (pod @ ''.cfg'') config d) ++ map_of (cfg_entries es)"
    using Cons by blast
  then show ?case
    by (auto simp: e cfg_entries_def update_conv' fun_eq_iff map_add_def split: option.splits)
qed (simp add: cfg_entries_def)

lemma config_loop_None: "config_loop es None = (if es = [] then Inr None else Inl (Panic NilMapAssignment))"
  by (cases es) auto

lemma configmap_mutate_payload:
  assumes "configmap_mutate ord configMap cm = Inr m"
  shows "cm_payload m = cm_payload cm ++ map_of (cfg_entries (ord configMap)) \<and> cm_ObjectMeta m = cm_ObjectMeta cm"
proof (cases "cm_Data cm")
  case None
  then have "ord configMap = []" "m = cm"
    using assms by (auto simp: configmap_mutate_def config_loop_None split: if_splits)
  then show ?thesis by (simp add: cfg_entries_def)
next
  case (Some d)
  then show ?thesis
    using assms config_loop_Some [of "ord configMap" d] by (auto simp: configmap_mutate_def cm_payload_def)
qed

interpretation cfg: mutator "configmap_mutate ord configMap" target cm_key cm_payload for ord configMap target
proof unfold_locales
  fix obj m r m'
  show "cm_key m = target" if "cm_key obj = target" "configmap_mutate ord configMap obj = Inr m"
    using configmap_mutate_payload [OF that(2)] that(1) by (simp add: cm_key_def)
  show "cm_payload m' = cm_payload m" if "configmap_mutate ord configMap obj = Inr m"
    "cm_payload r = cm_payload m" "configmap_mutate ord configMap r = Inr m'"
    using configmap_mutate_payload [OF that(1)] configmap_mutate_payload [OF that(3)] that(2)
    by (simp add: map_add_def fun_eq_iff split: option.splits)
qed

text \<open>With distinct pods the order in which the closure visits them does not matter.\<close>

lemma map_of_cfg_entries:
  assumes "range_order ord" and "gm_wf configMap"
  shows "map_of (cfg_entries (ord configMap)) (pod @ ''.cfg'') = map_of configMap pod"
    and "(\<And>pod. n \<noteq> pod @ ''.cfg'') \<Longrightarrow> map_of (cfg_entries (ord configMap)) n = None"
proof -
  have wf: "gm_wf (rev (ord configMap))" "map_of (rev (ord configMap)) = map_of configMap"
    using map_of_mset_eq [OF assms(2), of "rev (ord configMap)"] assms(1) by (simp_all add: range_order_mset)
  have "map_of (map (\<lambda>(pod, config). (pod @ ''.cfg'', config)) es) (pod @ ''.cfg'') = map_of es pod" for es :: "(string \<times> string) list"
    by (induction es) auto
  then show "map_of (cfg_entries (ord configMap)) (pod @ ''.cfg'') = map_of configMap pod"
    using wf(2) by (simp add: cfg_entries_def rev_map)
  have "map_of (map (\<lambda>(pod, config). (pod @ ''.cfg'', config)) es) n = None" if "\<And>pod. n \<noteq> pod @ ''.cfg''" for es :: "(string \<times> string) list"
    using that by (induction es) force+
  then show "(\<And>pod. n \<noteq> pod @ ''.cfg'') \<Longrightarrow> map_of (cfg_entries (ord configMap)) n = None"
    by (simp add: cfg_entries_def rev_map)
qed

end
