(* ===== verification/Health_Cache.thy ===== *)
theory Health_Cache
  imports API_Types
begin

text \<open>
  \<^verbatim>\<open>internal/haproxy/healthcache.go\<close>: the endpoints last reported for each frontend. The
  lock \<^verbatim>\<open>mu\<close> makes every method one atomic step, so a method is a function on the map. The
  contract \<open>health_store\<close> is what the health manager, the monitor and the frontend
  controller rely on.
\<close>

section \<open>The code\<close>

record Endpoint =
  ep_NodeName :: string
  ep_IPAddress :: string
  ep_Healthy :: bool

record HealthCache =
  hc_endpoints :: "(NamespacedName, Endpoint list) gomap"

definition NewHealthCache :: HealthCache where
  "NewHealthCache = \<lparr>hc_endpoints = []\<rparr>"

text \<open>Reading a missing key of a map of slices gives the nil slice.\<close>

definition slice_at :: "(NamespacedName, Endpoint list) gomap \<Rightarrow> NamespacedName \<Rightarrow> Endpoint list" where
  "slice_at m k = (case gm_get m k of None \<Rightarrow> [] | Some eps \<Rightarrow> eps)"

definition HealthCache_Get :: "HealthCache \<Rightarrow> NamespacedName \<Rightarrow> Endpoint list" where
  "HealthCache_Get c frontend = [] @ slice_at (hc_endpoints c) frontend"

fun healthy_loop :: "Endpoint list \<Rightarrow> Endpoint list \<Rightarrow> Endpoint list" where
  "healthy_loop healthy [] = healthy"
| "healthy_loop healthy (ep # eps) =
     healthy_loop (if ep_Healthy ep then healthy @ [ep] else healthy) eps"

definition HealthCache_GetHealthy :: "HealthCache \<Rightarrow> NamespacedName \<Rightarrow> Endpoint list" where
  "HealthCache_GetHealthy c frontend = healthy_loop [] (slice_at (hc_endpoints c) frontend)"

text \<open>The two loops of \<^verbatim>\<open>Update\<close>: indexing the cached endpoints, and looking for a difference.\<close>

fun existing_map_loop :: "(string, bool) gomap \<Rightarrow> Endpoint list \<Rightarrow> (string, bool) gomap" where
  "existing_map_loop m [] = m"
| "existing_map_loop m (ep # eps) =
     existing_map_loop (gm_put (ep_IPAddress ep) (ep_Healthy ep) m) eps"

fun differs_loop :: "(string, bool) gomap \<Rightarrow> Endpoint list \<Rightarrow> bool" where
  "differs_loop m [] = False"
| "differs_loop m (ep # eps) =
     (case gm_get m (ep_IPAddress ep) of
        None \<Rightarrow> True
      | Some healthy \<Rightarrow> if healthy \<noteq> ep_Healthy ep then True else differs_loop m eps)"

definition HealthCache_Update ::
  "HealthCache \<Rightarrow> NamespacedName \<Rightarrow> Endpoint list \<Rightarrow> HealthCache \<times> bool" where
  "HealthCache_Update c frontend updatedEndpoints =
     (let stored = c\<lparr>hc_endpoints := gm_put frontend updatedEndpoints (hc_endpoints c)\<rparr>
      in case gm_get (hc_endpoints c) frontend of
           None \<Rightarrow> (stored, True)
         | Some existing \<Rightarrow>
             if length existing \<noteq> length updatedEndpoints then (stored, True)
             else if differs_loop (existing_map_loop [] existing) updatedEndpoints
                  then (stored, True) else (c, False))"

section \<open>Health as the cache compares it\<close>

text \<open>The address-to-health map a list of endpoints stands for; a later endpoint overrides an earlier one.\<close>

definition health_map :: "Endpoint list \<Rightarrow> string \<rightharpoonup> bool" where
  "health_map eps = map_of (rev (map (\<lambda>ep. (ep_IPAddress ep, ep_Healthy ep)) eps))"

definition distinct_ips :: "Endpoint list \<Rightarrow> bool" where
  "distinct_ips eps \<longleftrightarrow> distinct (map ep_IPAddress eps)"

lemma existing_map_loop_get:
  "gm_get (existing_map_loop m eps) = gm_get m ++ health_map eps"
  by (induction eps arbitrary: m)
    (auto simp: health_map_def fun_eq_iff map_add_def gomap_simps split: option.splits)

lemma existing_map_Nil: "gm_get (existing_map_loop [] eps) = health_map eps"
  by (simp add: existing_map_loop_get)

lemma differs_loop_iff:
  "differs_loop m eps \<longleftrightarrow> (\<exists>ep \<in> set eps. gm_get m (ep_IPAddress ep) \<noteq> Some (ep_Healthy ep))"
  by (induction eps) (auto split: option.splits)

lemma dom_health_map: "dom (health_map eps) = ep_IPAddress ` set eps"
  by (auto simp: health_map_def dom_map_of_conv_image_fst image_image)

lemma health_map_distinct:
  "distinct_ips eps \<Longrightarrow> health_map eps ip = Some h \<longleftrightarrow> (\<exists>ep \<in> set eps. ep_IPAddress ep = ip \<and> ep_Healthy ep = h)"
proof -
  assume "distinct_ips eps"
  then have "distinct (map fst (rev (map (\<lambda>ep. (ep_IPAddress ep, ep_Healthy ep)) eps)))"
    by (simp add: distinct_ips_def o_def flip: rev_map)
  then show ?thesis by (auto simp: health_map_def)
qed

lemma card_dom_health_map: "distinct_ips eps \<Longrightarrow> card (dom (health_map eps)) = length eps"
  by (simp add: dom_health_map distinct_ips_def card_image distinct_card flip: set_map)

text \<open>
  With distinct addresses on both sides the comparison is exact: equal length and every new
  endpoint found with its health means equal health maps.
\<close>

lemma no_difference_iff:
  assumes old: "distinct_ips old" and upd: "distinct_ips upd"
  shows "length old = length upd \<and> \<not> differs_loop (existing_map_loop [] old) upd
    \<longleftrightarrow> health_map old = health_map upd" (is "?same \<longleftrightarrow> _")
proof
  assume ?same
  then have sub: "\<forall>ep \<in> set upd. health_map old (ep_IPAddress ep) = Some (ep_Healthy ep)"
    by (simp add: differs_loop_iff existing_map_Nil)
  then have "health_map upd \<subseteq>\<^sub>m health_map old"
    using health_map_distinct [OF upd] by (auto simp: map_le_def dom_def)
  moreover have "dom (health_map upd) = dom (health_map old)"
  proof (rule card_subset_eq)
    show "dom (health_map upd) \<subseteq> dom (health_map old)"
      using calculation by (rule map_le_implies_dom_le)
    show "card (dom (health_map upd)) = card (dom (health_map old))"
      using \<open>?same\<close> by (simp add: card_dom_health_map old upd)
  qed (simp add: dom_health_map)
  ultimately show "health_map old = health_map upd"
    by (metis map_le_antisym map_le_def)
next
  assume eq: "health_map old = health_map upd"
  then have "length old = length upd"
    by (metis card_dom_health_map old upd)
  moreover have "\<forall>ep \<in> set upd. health_map old (ep_IPAddress ep) = Some (ep_Healthy ep)"
    using eq health_map_distinct [OF upd] by auto
  ultimately show ?same by (simp add: differs_loop_iff existing_map_Nil)
qed

section \<open>Operations\<close>

text \<open>Well-formed: one entry per frontend, and no address twice in an entry.\<close>

definition hc_inv :: "HealthCache \<Rightarrow> bool" where
  "hc_inv c \<longleftrightarrow> gm_wf (hc_endpoints c) \<and> (\<forall>k eps. gm_get (hc_endpoints c) k = Some eps \<longrightarrow> distinct_ips eps)"

lemma HealthCache_Get_alt: "HealthCache_Get c k = slice_at (hc_endpoints c) k"
  by (simp add: HealthCache_Get_def)

lemma healthy_loop_filter: "healthy_loop acc eps = acc @ filter ep_Healthy eps"
  by (induction eps arbitrary: acc) auto

lemma GetHealthy_filter: "HealthCache_GetHealthy c k = filter ep_Healthy (HealthCache_Get c k)"
  by (simp add: HealthCache_GetHealthy_def HealthCache_Get_alt healthy_loop_filter)

lemma Update_unchanged: "\<not> snd (HealthCache_Update c k eps) \<Longrightarrow> fst (HealthCache_Update c k eps) = c"
  by (auto simp: HealthCache_Update_def Let_def split: option.splits if_splits)

lemma Update_changed: "snd (HealthCache_Update c k eps) \<Longrightarrow>
    fst (HealthCache_Update c k eps) = c\<lparr>hc_endpoints := gm_put k eps (hc_endpoints c)\<rparr>"
  by (auto simp: HealthCache_Update_def Let_def split: option.splits if_splits)

lemma Update_cached: "\<not> snd (HealthCache_Update c k eps) \<Longrightarrow> gm_get (hc_endpoints c) k \<noteq> None"
  by (auto simp: HealthCache_Update_def Let_def split: option.splits)

lemma Update_cases:
  obtains (changed) "HealthCache_Update c k eps = (c\<lparr>hc_endpoints := gm_put k eps (hc_endpoints c)\<rparr>, True)"
  | (same) old where "HealthCache_Update c k eps = (c, False)" "gm_get (hc_endpoints c) k = Some old"
      "length old = length eps" "\<not> differs_loop (existing_map_loop [] old) eps"
proof (cases "snd (HealthCache_Update c k eps)")
  case True
  then show thesis using changed Update_changed by (metis prod.collapse)
next
  case False
  then obtain old where "gm_get (hc_endpoints c) k = Some old"
    using Update_cached by blast
  with False show thesis
    by (intro same [of old]) (auto simp: HealthCache_Update_def Let_def split: if_splits)
qed

lemma Update_Get_other: "k' \<noteq> k \<Longrightarrow>
    HealthCache_Get (fst (HealthCache_Update c k eps)) k' = HealthCache_Get c k'"
  by (cases rule: Update_cases [of c k eps]) (simp_all add: HealthCache_Get_alt slice_at_def gomap_simps)

lemma Update_Get_changed: "snd (HealthCache_Update c k eps) \<Longrightarrow>
    HealthCache_Get (fst (HealthCache_Update c k eps)) k = eps"
  by (simp add: Update_changed HealthCache_Get_alt slice_at_def gomap_simps)

lemma hc_inv_get: "hc_inv c \<Longrightarrow> distinct_ips (HealthCache_Get c n)"
  by (auto simp: hc_inv_def HealthCache_Get_alt slice_at_def distinct_ips_def split: option.splits)

lemma Update_inv: "hc_inv c \<Longrightarrow> distinct_ips eps \<Longrightarrow> hc_inv (fst (HealthCache_Update c k eps))"
  by (cases rule: Update_cases [of c k eps]) (auto simp: hc_inv_def gomap_simps split: if_splits)

text \<open>What \<^verbatim>\<open>Update\<close> does to one frontend depends on, and concerns, the entry of that frontend alone.\<close>

lemma Update_entry_other: "k' \<noteq> k \<Longrightarrow>
    gm_get (hc_endpoints (fst (HealthCache_Update c k eps))) k' = gm_get (hc_endpoints c) k'"
  by (cases rule: Update_cases [of c k eps]) (simp_all add: gomap_simps)

lemma Update_changed_local: "gm_get (hc_endpoints c) k = gm_get (hc_endpoints c') k \<Longrightarrow>
    snd (HealthCache_Update c k eps) = snd (HealthCache_Update c' k eps)"
  by (simp add: HealthCache_Update_def Let_def split: option.splits)

lemma Update_Get: "HealthCache_Get (fst (HealthCache_Update c k eps)) k =
    (if snd (HealthCache_Update c k eps) then eps else HealthCache_Get c k)"
  by (simp add: Update_Get_changed Update_unchanged)

lemma Update_Get_local: "HealthCache_Get c k = HealthCache_Get c' k \<Longrightarrow>
    HealthCache_Get (fst (HealthCache_Update c k eps)) k = HealthCache_Get (fst (HealthCache_Update c' k eps)) k"
  by (auto simp: Update_Get) (auto simp: HealthCache_Get_alt slice_at_def HealthCache_Update_def Let_def split: option.splits if_splits)

text \<open>Afterwards every reported address is cached with the health it was reported with last.\<close>

lemma Update_covers: "health_map eps \<subseteq>\<^sub>m health_map (HealthCache_Get (fst (HealthCache_Update c k eps)) k)"
proof (cases rule: Update_cases [of c k eps])
  case changed
  then show ?thesis by (simp add: HealthCache_Get_alt slice_at_def gomap_simps)
next
  case (same old)
  have "health_map old ip = Some h" if "health_map eps ip = Some h" for ip h
  proof -
    from that obtain ep where "ep \<in> set eps" "ep_IPAddress ep = ip" "ep_Healthy ep = h"
      unfolding health_map_def by (auto dest!: map_of_SomeD)
    then show ?thesis using same(4) by (auto simp: differs_loop_iff existing_map_Nil)
  qed
  then show ?thesis using same(1,2) by (auto simp: map_le_def HealthCache_Get_alt slice_at_def)
qed

text \<open>Exact when neither list repeats an address.\<close>

lemma Update_health:
  assumes "distinct_ips (HealthCache_Get c k)" and "distinct_ips eps"
  shows "health_map (HealthCache_Get (fst (HealthCache_Update c k eps)) k) = health_map eps"
proof (cases rule: Update_cases [of c k eps])
  case changed
  then show ?thesis by (simp add: HealthCache_Get_alt slice_at_def gomap_simps)
next
  case (same old)
  then show ?thesis
    using assms no_difference_iff [of old eps] by (simp add: HealthCache_Get_alt slice_at_def)
qed

lemma Update_changed_iff:
  assumes "distinct_ips (HealthCache_Get c k)" and "distinct_ips eps"
  shows "snd (HealthCache_Update c k eps) \<longleftrightarrow>
    map_option health_map (gm_get (hc_endpoints c) k) \<noteq> Some (health_map eps)"
proof (cases "gm_get (hc_endpoints c) k")
  case None
  then show ?thesis by (simp add: HealthCache_Update_def)
next
  case (Some old)
  then have "distinct_ips old" using assms(1) by (simp add: HealthCache_Get_alt slice_at_def)
  with Some show ?thesis
    using no_difference_iff [OF _ assms(2), of old] by (auto simp: HealthCache_Update_def Let_def)
qed

section \<open>The contract\<close>

text \<open>What a reporter relies on; every law is about the one frontend it names.\<close>

locale health_store =
  fixes get :: "'c \<Rightarrow> NamespacedName \<Rightarrow> Endpoint list"
    and update :: "'c \<Rightarrow> NamespacedName \<Rightarrow> Endpoint list \<Rightarrow> 'c \<times> bool"
  assumes stores_or_keeps: "get (fst (update c k eps)) k \<in> {eps, get c k}"
    and covers: "health_map eps \<subseteq>\<^sub>m health_map (get (fst (update c k eps)) k)"
    and get_update: "distinct_ips (get c k) \<Longrightarrow> distinct_ips eps \<Longrightarrow>
      health_map (get (fst (update c k eps)) k) = health_map eps"
    and get_update_other: "k' \<noteq> k \<Longrightarrow> get (fst (update c k eps)) k' = get c k'"
    and get_update_local: "get c k = get c' k \<Longrightarrow> get (fst (update c k eps)) k = get (fst (update c' k eps)) k"
    and update_same: "distinct_ips (get c k) \<Longrightarrow> distinct_ips eps \<Longrightarrow> \<not> snd (update (fst (update c k eps)) k eps)"
begin

text \<open>Reporting a batch, one frontend after the other: for each it is as if it were reported alone.\<close>

lemma batch_other:
  "k \<notin> fst ` set b \<Longrightarrow> get (foldl (\<lambda>c (k, eps). fst (update c k eps)) c b) k = get c k"
  by (induction b arbitrary: c) (auto simp: get_update_other split: prod.splits)

lemma batch_at:
  assumes "gm_wf b" and "(k, eps) \<in> set b"
  shows "get (foldl (\<lambda>c (k, eps). fst (update c k eps)) c b) k = get (fst (update c k eps)) k"
  using assms
proof (induction b arbitrary: c)
  case (Cons x b)
  obtain k' eps' where x: "x = (k', eps')" by (cases x)
  show ?case
  proof (cases "k = k'")
    case True
    then have "k \<notin> fst ` set b" "eps = eps'" using Cons.prems x by (force simp: gm_wf_def)+
    then show ?thesis using x True by (simp add: batch_other)
  next
    case False
    then have "get (foldl (\<lambda>c (k, eps). fst (update c k eps)) c (x # b)) k = get (fst (update (fst (update c k' eps')) k eps)) k"
      using Cons x by (simp add: gm_wf_def)
    also have "\<dots> = get (fst (update c k eps)) k"
      by (rule get_update_local) (rule get_update_other [OF False])
    finally show ?thesis .
  qed
qed simp

lemma distinct_update: "distinct_ips (get c k) \<Longrightarrow> distinct_ips eps \<Longrightarrow> distinct_ips (get (fst (update c k eps)) k)"
  using stores_or_keeps [of c k eps] by auto

end

interpretation hc: health_store HealthCache_Get HealthCache_Update
proof unfold_locales
  fix c k eps
  assume ips: "distinct_ips (HealthCache_Get c k)" "distinct_ips eps"
  let ?c = "fst (HealthCache_Update c k eps)"
  have "map_option health_map (gm_get (hc_endpoints ?c) k) = Some (health_map eps)"
    using Update_changed_iff [OF ips] by (auto simp: Update_changed Update_unchanged gomap_simps)
  moreover have "distinct_ips (HealthCache_Get ?c k)" using ips by (simp add: Update_Get)
  ultimately show "\<not> snd (HealthCache_Update ?c k eps)" using ips(2) by (simp add: Update_changed_iff)
next
  show "HealthCache_Get (fst (HealthCache_Update c k eps)) k \<in> {eps, HealthCache_Get c k}" for c k eps
    by (simp add: Update_Get)
qed (rule Update_covers Update_health Update_Get_other Update_Get_local; assumption?)+

section \<open>Properties\<close>

text \<open>The abstract cache: per frontend, a map from addresses to health.\<close>

definition abs_cache :: "HealthCache \<Rightarrow> NamespacedName \<rightharpoonup> (string \<rightharpoonup> bool)" where
  "abs_cache c = (\<lambda>k. map_option health_map (gm_get (hc_endpoints c) k))"

text \<open>
  C25: Update stores the list it is given, and says so, or changes nothing; it touches no other frontend;
  and afterwards every address of the list is cached with its health, the last one when the list has it
  twice. When neither the cached list nor the new one repeats an address, Update refines the update of
  the abstract cache, and its result says exactly whether the abstract cache changed: comparing lengths
  and looking each new endpoint up is then an exact comparison.
\<close>

theorem Update_refines:
  assumes "HealthCache_Update c k eps = (c', changed)"
  shows "HealthCache_Get c' k = (if changed then eps else HealthCache_Get c k) \<and> (\<not> changed \<longrightarrow> c' = c)
    \<and> (\<forall>k'. k' \<noteq> k \<longrightarrow> HealthCache_Get c' k' = HealthCache_Get c k')
    \<and> health_map eps \<subseteq>\<^sub>m health_map (HealthCache_Get c' k)
    \<and> (distinct_ips (HealthCache_Get c k) \<and> distinct_ips eps \<longrightarrow>
         abs_cache c' = (abs_cache c)(k \<mapsto> health_map eps) \<and> (changed \<longleftrightarrow> abs_cache c' \<noteq> abs_cache c))"
proof -
  have c': "c' = fst (HealthCache_Update c k eps)" "changed = snd (HealthCache_Update c k eps)"
    using assms by simp_all
  have "abs_cache c' = (abs_cache c)(k \<mapsto> health_map eps) \<and> (changed \<longleftrightarrow> abs_cache c' \<noteq> abs_cache c)"
    if ips: "distinct_ips (HealthCache_Get c k)" "distinct_ips eps"
  proof -
    have changed: "changed \<longleftrightarrow> abs_cache c k \<noteq> Some (health_map eps)"
      using Update_changed_iff [OF ips] c'(2) by (simp add: abs_cache_def)
    have "abs_cache c' k = Some (health_map eps)"
      using changed c' by (cases changed) (auto simp: abs_cache_def Update_changed Update_unchanged gomap_simps)
    then have "abs_cache c' = (abs_cache c)(k \<mapsto> health_map eps)"
      using c'(1) by (auto simp: abs_cache_def Update_entry_other fun_eq_iff)
    with changed show ?thesis by (metis fun_upd_same fun_upd_triv)
  qed
  moreover have "HealthCache_Get c' k = (if changed then eps else HealthCache_Get c k)" unfolding c' by (rule Update_Get)
  moreover have "\<not> changed \<longrightarrow> c' = c" unfolding c' using Update_unchanged by blast
  moreover have "HealthCache_Get c' k' = HealthCache_Get c k'" if "k' \<noteq> k" for k' unfolding c' using that by (rule Update_Get_other)
  moreover have "health_map eps \<subseteq>\<^sub>m health_map (HealthCache_Get c' k)" unfolding c' by (rule Update_covers)
  ultimately show ?thesis by blast
qed

definition sample_endpoint :: "string \<Rightarrow> string \<Rightarrow> bool \<Rightarrow> Endpoint" where
  "sample_endpoint node ip healthy = \<lparr>ep_NodeName = node, ep_IPAddress = ip, ep_Healthy = healthy\<rparr>"

theorem Update_refines_witness:
  "\<exists>c'. HealthCache_Update NewHealthCache (NN ''glb'' ''web'') [sample_endpoint ''n1'' ''10.0.0.1'' True] = (c', True)
     \<and> HealthCache_Get c' (NN ''glb'' ''web'') = [sample_endpoint ''n1'' ''10.0.0.1'' True]
     \<and> abs_cache c' = (abs_cache NewHealthCache)(NN ''glb'' ''web'' \<mapsto> health_map [sample_endpoint ''n1'' ''10.0.0.1'' True])"
proof -
  obtain c' where up: "HealthCache_Update NewHealthCache (NN ''glb'' ''web'') [sample_endpoint ''n1'' ''10.0.0.1'' True] = (c', True)"
    by (simp add: NewHealthCache_def HealthCache_Update_def)
  have "distinct_ips (HealthCache_Get NewHealthCache (NN ''glb'' ''web''))" "distinct_ips [sample_endpoint ''n1'' ''10.0.0.1'' True]"
    by (simp_all add: distinct_ips_def NewHealthCache_def HealthCache_Get_def slice_at_def)
  then have "HealthCache_Get c' (NN ''glb'' ''web'') = [sample_endpoint ''n1'' ''10.0.0.1'' True]"
    "abs_cache c' = (abs_cache NewHealthCache)(NN ''glb'' ''web'' \<mapsto> health_map [sample_endpoint ''n1'' ''10.0.0.1'' True])"
    using Update_refines [OF up] by simp_all
  with up show ?thesis by (intro exI [of _ c'] conjI)
qed

text \<open>
  After any sequence of reports with one endpoint per address, GetHealthy of a frontend gives
  exactly the addresses that its last report had as healthy.
\<close>

theorem GetHealthy_after_reports:
  assumes "hc_inv c" and "\<forall>(k, eps) \<in> set (before @ (k, eps) # after). distinct_ips eps"
    and "k \<notin> fst ` set after"
  shows "ep_IPAddress ` set (HealthCache_GetHealthy
      (foldl (\<lambda>c (k, eps). fst (HealthCache_Update c k eps)) c (before @ (k, eps) # after)) k)
    = {ip. health_map eps ip = Some True}"
proof -
  let ?run = "foldl (\<lambda>c (k, eps). fst (HealthCache_Update c k eps))"
  let ?c1 = "?run c before"
  let ?got = "HealthCache_Get (fst (HealthCache_Update ?c1 k eps)) k"
  have get: "HealthCache_Get (?run c (before @ (k, eps) # after)) k = ?got"
    using hc.batch_other [OF assms(3)] by simp
  have "hc_inv (?run c b)" if "\<forall>(k, eps) \<in> set b. distinct_ips eps" for b
    using that assms(1) by (induction b arbitrary: c) (auto simp: Update_inv split: prod.splits)
  then have old: "distinct_ips (HealthCache_Get ?c1 k)" and eps: "distinct_ips eps" using assms(2) hc_inv_get by auto
  have "health_map ?got ip = Some True \<longleftrightarrow> (\<exists>ep \<in> set ?got. ep_IPAddress ep = ip \<and> ep_Healthy ep)" for ip
    using hc.distinct_update [OF old eps] by (simp add: health_map_distinct)
  then show ?thesis using get Update_health [OF old eps] by (auto simp: GetHealthy_filter)
qed

theorem GetHealthy_after_reports_witness:
  "ep_IPAddress ` set (HealthCache_GetHealthy
      (fst (HealthCache_Update NewHealthCache (NN ''glb'' ''web'')
         [sample_endpoint ''n1'' ''10.0.0.1'' True, sample_endpoint ''n2'' ''10.0.0.2'' False])) (NN ''glb'' ''web''))
    = {ip. health_map [sample_endpoint ''n1'' ''10.0.0.1'' True, sample_endpoint ''n2'' ''10.0.0.2'' False] ip = Some True}"
  using GetHealthy_after_reports [of NewHealthCache "[]" "NN ''glb'' ''web''"
      "[sample_endpoint ''n1'' ''10.0.0.1'' True, sample_endpoint ''n2'' ''10.0.0.2'' False]" "[]"]
  by (simp add: hc_inv_def distinct_ips_def NewHealthCache_def sample_endpoint_def)

text \<open>
  Update ignores the node of an endpoint: a report that differs from the cached one only in
  the nodes is dropped, and Get keeps returning the old nodes.
\<close>

theorem Update_ignores_nodes:
  assumes "gm_get (hc_endpoints c) k = Some old"
    and "distinct_ips old" and "map (\<lambda>ep. (ep_IPAddress ep, ep_Healthy ep)) eps = map (\<lambda>ep. (ep_IPAddress ep, ep_Healthy ep)) old"
  shows "HealthCache_Update c k eps = (c, False)"
proof -
  have len: "length old = length eps" using assms(3) by (metis length_map)
  have "health_map eps = health_map old" by (simp add: health_map_def assms(3))
  moreover have "map ep_IPAddress eps = map ep_IPAddress old"
    using arg_cong [OF assms(3), of "map fst"] by (simp add: o_def)
  then have "distinct_ips eps" using assms(2) by (simp add: distinct_ips_def)
  ultimately have "\<not> differs_loop (existing_map_loop [] old) eps"
    using no_difference_iff [OF assms(2), of eps] by simp
  then show ?thesis using assms(1) len by (simp add: HealthCache_Update_def)
qed

theorem Update_ignores_nodes_witness:
  "HealthCache_Update \<lparr>hc_endpoints = [(NN ''glb'' ''web'', [sample_endpoint ''n1'' ''10.0.0.1'' True])]\<rparr>
     (NN ''glb'' ''web'') [sample_endpoint ''n2'' ''10.0.0.1'' True]
   = (\<lparr>hc_endpoints = [(NN ''glb'' ''web'', [sample_endpoint ''n1'' ''10.0.0.1'' True])]\<rparr>, False)"
  using Update_ignores_nodes [of "\<lparr>hc_endpoints = [(NN ''glb'' ''web'', [sample_endpoint ''n1'' ''10.0.0.1'' True])]\<rparr>"
      "NN ''glb'' ''web''" "[sample_endpoint ''n1'' ''10.0.0.1'' True]" "[sample_endpoint ''n2'' ''10.0.0.1'' True]"]
  by (simp add: distinct_ips_def sample_endpoint_def)

text \<open>
  Without one endpoint per address the comparison is not exact: some endpoint list in the cache
  and some report of equal length have different sets of endpoints, addresses included, and the
  report is dropped as no change.
\<close>

theorem Update_misses_change:
  "\<exists>old eps. ep_IPAddress ` set eps \<noteq> ep_IPAddress ` set old
     \<and> HealthCache_Update \<lparr>hc_endpoints = [(k, old)]\<rparr> k eps = (\<lparr>hc_endpoints = [(k, old)]\<rparr>, False)"
  by (intro exI [of _ "[sample_endpoint ''n1'' ''10.0.0.1'' True, sample_endpoint ''n2'' ''10.0.0.2'' True]"]
      exI [of _ "[sample_endpoint ''n1'' ''10.0.0.1'' True, sample_endpoint ''n1'' ''10.0.0.1'' True]"])
    (simp add: sample_endpoint_def HealthCache_Update_def)

end
