(* ===== verification/Frontend_Controller.thy ===== *)
theory Frontend_Controller
  imports Kube_Client Health_Cache
begin

text \<open>
  \<^verbatim>\<open>internal/controller/frontend_controller.go\<close>: the Service of a frontend and the EndpointSlice
  behind it, filled from the health cache. The two closures passed to \<^verbatim>\<open>CreateOrUpdate\<close> are
  \<open>service_mutate\<close> and \<open>endpointslice_mutate\<close>; the pointers they store are
  \<^const>\<open>Some\<close> values, each loop variable being its own (Go 1.22 and later).
\<close>

section \<open>The code\<close>

text \<open>Constants of \<^verbatim>\<open>k8s.io/api\<close>.\<close>

definition ProtocolTCP :: string where "ProtocolTCP = ''TCP''"
definition LabelServiceName :: string where "LabelServiceName = ''kubernetes.io/service-name''"
definition AddressTypeIPv4 :: string where "AddressTypeIPv4 = ''IPv4''"

definition new_service :: "Frontend \<Rightarrow> Service" where
  "new_service fe = \<lparr>svc_ObjectMeta = named_meta (fe_Name fe) (fe_Namespace fe), svc_Ports = [],
     svc_ClusterIP = '''', svc_Ingress = []\<rparr>"

definition service_mutate :: "'w kube \<Rightarrow> Frontend \<Rightarrow> Service \<Rightarrow> Service result" where
  "service_mutate k fe svc =
     res_bind (result_of_error (SetControllerReference k
         \<lparr>ow_Kind = ''Frontend'', ow_Meta = fe_ObjectMeta fe\<rparr> (svc_ObjectMeta svc))) (\<lambda>refs.
       let svc = svc\<lparr>svc_ObjectMeta := (svc_ObjectMeta svc)\<lparr>om_OwnerReferences := refs\<rparr>\<rparr>
       in case fes_Service (fe_Spec fe) of
            None \<Rightarrow> Inl (Panic NilDereference)
          | Some service \<Rightarrow>
              let svc = svc\<lparr>svc_ObjectMeta := (svc_ObjectMeta svc)\<lparr>om_Annotations := fss_Annotations service\<rparr>\<rparr>
              in case fe_Port fe of
                   None \<Rightarrow> Inl (Panic NilDereference)
                 | Some port \<Rightarrow> Inr (svc\<lparr>svc_Ports :=
                     [\<lparr>sp_Name = ''frontend'', sp_Protocol = ProtocolTCP, sp_Port = fss_Port service,
                       sp_TargetPort = FromInt32 port\<rparr>]\<rparr>))"

definition new_endpointslice :: "Service \<Rightarrow> EndpointSlice" where
  "new_endpointslice svc =
     \<lparr>es_ObjectMeta = (named_meta (om_Name (svc_ObjectMeta svc)) (om_Namespace (svc_ObjectMeta svc)))
        \<lparr>om_Labels := [(LabelServiceName, om_Name (svc_ObjectMeta svc))]\<rparr>,
      es_AddressType = '''', es_Endpoints = [], es_Ports = []\<rparr>"

fun endpoints_loop :: "SliceEndpoint list \<Rightarrow> Endpoint list \<Rightarrow> SliceEndpoint list" where
  "endpoints_loop epsEndpoints [] = epsEndpoints"
| "endpoints_loop epsEndpoints (ep # eps) =
     (let ready = ep_Healthy ep
      in endpoints_loop (epsEndpoints @
           [\<lparr>se_Addresses = [ep_IPAddress ep], se_Ready = Some ready, se_NodeName = Some (ep_NodeName ep)\<rparr>]) eps)"

definition endpointslice_mutate ::
  "'w kube \<Rightarrow> HealthCache \<Rightarrow> NamespacedName \<Rightarrow> Frontend \<Rightarrow> Service \<Rightarrow> EndpointSlice \<Rightarrow> EndpointSlice result" where
  "endpointslice_mutate k healthCache req fe svc es =
     res_bind (result_of_error (SetControllerReference k
         \<lparr>ow_Kind = ''Service'', ow_Meta = svc_ObjectMeta svc\<rparr> (es_ObjectMeta es))) (\<lambda>refs.
       let es = es\<lparr>es_ObjectMeta := (es_ObjectMeta es)\<lparr>om_OwnerReferences := refs,
                   om_Labels := [(LabelServiceName, om_Name (svc_ObjectMeta svc))]\<rparr>,
                 es_AddressType := AddressTypeIPv4\<rparr>;
           endpointHealth = HealthCache_Get healthCache req
       in Inr (es\<lparr>es_Endpoints := endpoints_loop [] endpointHealth,
                 es_Ports := [\<lparr>epp_Name = Some ''frontend'', epp_Port = fe_Port fe, epp_Protocol = Some ProtocolTCP\<rparr>]\<rparr>))"

definition ReconcileService ::
  "'w kube \<Rightarrow> HealthCache \<Rightarrow> NamespacedName \<Rightarrow> Frontend \<Rightarrow> ('w, unit) go" where
  "ReconcileService k healthCache req fe =
     (if fe_Port fe = None then go_return ()
      else go_bind (CreateOrUpdateService k (new_service fe) (service_mutate k fe)) (\<lambda>svc.
           go_bind (CreateOrUpdateEndpointSlice k (new_endpointslice svc)
                      (endpointslice_mutate k healthCache req fe svc)) (\<lambda>_.
             go_return ())))"

definition Frontend_Reconcile :: "'w kube \<Rightarrow> HealthCache \<Rightarrow> NamespacedName \<Rightarrow> ('w, unit) go" where
  "Frontend_Reconcile k healthCache req = (\<lambda>w.
     case GetFrontend k req w of
       (Inl f, w') \<Rightarrow> (ignore_not_found k f, w')
     | (Inr fe, w') \<Rightarrow> go_bind (ReconcileService k healthCache req fe) (\<lambda>_. go_return ()) w')"

section \<open>The closures\<close>

definition slice_endpoint :: "Endpoint \<Rightarrow> SliceEndpoint" where
  "slice_endpoint ep = \<lparr>se_Addresses = [ep_IPAddress ep], se_Ready = Some (ep_Healthy ep), se_NodeName = Some (ep_NodeName ep)\<rparr>"

lemma endpoints_loop_map: "endpoints_loop acc eps = acc @ map slice_endpoint eps"
  by (induction eps arbitrary: acc) (simp_all add: slice_endpoint_def Let_def)

definition svc_key :: "Service \<Rightarrow> NamespacedName" where
  "svc_key svc = meta_key (svc_ObjectMeta svc)"

definition svc_payload :: "Service \<Rightarrow> (string, string) gomap \<times> ServicePort list" where
  "svc_payload svc = (om_Annotations (svc_ObjectMeta svc), svc_Ports svc)"

definition es_key :: "EndpointSlice \<Rightarrow> NamespacedName" where
  "es_key es = meta_key (es_ObjectMeta es)"

definition es_payload ::
  "EndpointSlice \<Rightarrow> (string, string) gomap \<times> string \<times> SliceEndpoint list \<times> EndpointPort list" where
  "es_payload es = (om_Labels (es_ObjectMeta es), es_AddressType es, es_Endpoints es, es_Ports es)"

lemma service_mutate_payload:
  assumes "service_mutate k fe svc = Inr m"
  shows "\<exists>service port. fes_Service (fe_Spec fe) = Some service \<and> fe_Port fe = Some port
    \<and> svc_payload m = (fss_Annotations service, [\<lparr>sp_Name = ''frontend'', sp_Protocol = ProtocolTCP,
        sp_Port = fss_Port service, sp_TargetPort = FromInt32 port\<rparr>])
    \<and> svc_key m = svc_key svc"
  using assms
  by (auto simp: service_mutate_def svc_payload_def svc_key_def meta_key_def Let_def result_of_error_def res_bind_def
      split: sum.splits option.splits)

lemma endpointslice_mutate_payload:
  assumes "endpointslice_mutate k hc req fe svc es = Inr m"
  shows "es_payload m = ([(LabelServiceName, om_Name (svc_ObjectMeta svc))], AddressTypeIPv4,
      map slice_endpoint (HealthCache_Get hc req),
      [\<lparr>epp_Name = Some ''frontend'', epp_Port = fe_Port fe, epp_Protocol = Some ProtocolTCP\<rparr>])
    \<and> es_key m = es_key es"
  using assms
  by (auto simp: endpointslice_mutate_def es_payload_def es_key_def meta_key_def Let_def result_of_error_def
      res_bind_def endpoints_loop_map split: sum.splits)

interpretation svc: mutator "service_mutate k fe" target svc_key svc_payload for k fe target
proof unfold_locales
  fix obj m r m'
  show "svc_key m = target" if "svc_key obj = target" "service_mutate k fe obj = Inr m"
    using service_mutate_payload [OF that(2)] that(1) by auto
  show "svc_payload m' = svc_payload m" if "service_mutate k fe obj = Inr m" "service_mutate k fe r = Inr m'"
    using service_mutate_payload [OF that(1)] service_mutate_payload [OF that(2)] by auto
qed

interpretation es: mutator "endpointslice_mutate k hc req fe svc" target es_key es_payload for k hc req fe svc target
proof unfold_locales
  fix obj m r m'
  show "es_key m = target" if "es_key obj = target" "endpointslice_mutate k hc req fe svc obj = Inr m"
    using endpointslice_mutate_payload [OF that(2)] that(1) by auto
  show "es_payload m' = es_payload m" if "endpointslice_mutate k hc req fe svc obj = Inr m"
    "endpointslice_mutate k hc req fe svc r = Inr m'"
    using endpointslice_mutate_payload [OF that(1)] endpointslice_mutate_payload [OF that(2)] by auto
qed

section \<open>A whole run\<close>

text \<open>
  A run that succeeds for a frontend with a port has stored a Service and an EndpointSlice with
  what the closures set, each read with \<open>svcs\<close> and \<open>slices\<close>.
\<close>

lemma ReconcileService_stores:
  assumes svc_doc: "create_or_update_doc (CreateOrUpdateService k) svcs svc_key svc_payload"
    and es_doc: "create_or_update_doc (CreateOrUpdateEndpointSlice k) slices es_key es_payload"
    and port: "fe_Port fe = Some port"
    and run: "ReconcileService k hc req fe w = (Inr (), w')"
  obtains service svc es w1 where "fes_Service (fe_Spec fe) = Some service"
    "CreateOrUpdateService k (new_service fe) (service_mutate k fe) w = (Inr svc, w1)"
    "svcs w1 (fe_key fe) = Some svc" "svc_payload svc = (fss_Annotations service,
      [\<lparr>sp_Name = ''frontend'', sp_Protocol = ProtocolTCP, sp_Port = fss_Port service, sp_TargetPort = FromInt32 port\<rparr>])"
    "slices w' (svc_key svc) = Some es" "es_payload es = ([(LabelServiceName, om_Name (svc_ObjectMeta svc))],
      AddressTypeIPv4, map slice_endpoint (HealthCache_Get hc req),
      [\<lparr>epp_Name = Some ''frontend'', epp_Port = Some port, epp_Protocol = Some ProtocolTCP\<rparr>])"
proof -
  from run port obtain svc w1 es where
    svc: "CreateOrUpdateService k (new_service fe) (service_mutate k fe) w = (Inr svc, w1)" and
    es: "CreateOrUpdateEndpointSlice k (new_endpointslice svc) (endpointslice_mutate k hc req fe svc) w1 = (Inr es, w')"
    by (auto simp: ReconcileService_def go_run split: prod.splits sum.splits)
  have keys: "svc_key (new_service fe) = fe_key fe" "es_key (new_endpointslice svc) = svc_key svc"
    by (simp_all add: svc_key_def es_key_def new_service_def new_endpointslice_def meta_key_def named_meta_def)
  from svc_doc svc obtain m where m: "service_mutate k fe (fetched svcs svc_key w (new_service fe)) = Inr m"
    "svc_payload svc = svc_payload m" "svcs w1 (fe_key fe) = Some svc"
    by (rule create_or_update_docD) (simp add: keys)
  from es_doc es obtain m' where
    m': "endpointslice_mutate k hc req fe svc (fetched slices es_key w1 (new_endpointslice svc)) = Inr m'"
    "es_payload es = es_payload m'" "slices w' (svc_key svc) = Some es"
    by (rule create_or_update_docD) (simp add: keys)
  from service_mutate_payload [OF m(1)] obtain service where "fes_Service (fe_Spec fe) = Some service"
    "svc_payload svc = (fss_Annotations service, [\<lparr>sp_Name = ''frontend'', sp_Protocol = ProtocolTCP,
       sp_Port = fss_Port service, sp_TargetPort = FromInt32 port\<rparr>])"
    using m(2) port by auto
  then show thesis
    using that svc m(3) m'(2,3) endpointslice_mutate_payload [OF m'(1)] port by simp
qed

end
