(* ===== verification/Peer_Watcher.thy ===== *)
theory Peer_Watcher
  imports Kube_Client
begin

text \<open>
  \<^verbatim>\<open>internal/watchers/peerServiceWatcher.go\<close>: a \<^verbatim>\<open>Peer\<close> for every labelled Service, with the
  addresses of the Service in its status. Handlers log errors and return; a panic unwinds. The
  copy made by \<^verbatim>\<open>DeepCopy\<close> is the value itself here; theory \<open>Peer_Copy\<close> shows that copying on the
  heap and assigning to the copy implements this.
\<close>

section \<open>The code\<close>

record PeerServiceWatcher =
  pw_selector :: selector

definition NewPeerServiceWatcher :: "'w kube \<Rightarrow> string \<Rightarrow> goerror + PeerServiceWatcher" where
  "NewPeerServiceWatcher k labelKey =
     (case NewRequirement k labelKey Exists [] of Inl e \<Rightarrow> Inl e | Inr sel \<Rightarrow> Inr \<lparr>pw_selector = sel\<rparr>)"

definition Peer_NeedLeaderElection :: bool where
  "Peer_NeedLeaderElection = True"

text \<open>
  \<^verbatim>\<open>Start\<close>, by the outcome of \<^verbatim>\<open>GetInformer\<close> and of \<^verbatim>\<open>AddEventHandler\<close>; without errors it blocks until
  the context is done and returns nil.
\<close>

definition PeerServiceWatcher_Start :: "goerror option \<Rightarrow> goerror option \<Rightarrow> goerror option" where
  "PeerServiceWatcher_Start getInformer addEventHandler =
     (case getInformer of
        Some e \<Rightarrow> Some (Wrapped ''failed to get service informer'' e)
      | None \<Rightarrow> (case addEventHandler of
            Some e \<Rightarrow> Some (Wrapped ''failed to add event handler'' e)
          | None \<Rightarrow> None))"

definition service_filter ::
  "selector \<Rightarrow> (Service \<Rightarrow> ('w, unit) go) \<Rightarrow> Service any \<Rightarrow> ('w, unit) go" where
  "service_filter sel handler obj =
     (case obj of
        Obj svc \<Rightarrow> if sel (om_Labels (svc_ObjectMeta svc)) then handler svc else go_return ()
      | _ \<Rightarrow> go_return ())"

definition service_filterUpdate ::
  "selector \<Rightarrow> (Service \<Rightarrow> Service \<Rightarrow> ('w, unit) go) \<Rightarrow> Service any \<Rightarrow> Service any \<Rightarrow> ('w, unit) go" where
  "service_filterUpdate sel handler oldObj newObj =
     (case (oldObj, newObj) of
        (Obj oldSvc, Obj newSvc) \<Rightarrow>
          if sel (om_Labels (svc_ObjectMeta newSvc)) then handler oldSvc newSvc else go_return ()
      | _ \<Rightarrow> go_return ())"

definition zero_Peer :: Peer where
  "zero_Peer = \<lparr>peer_TypeMeta = zero_TypeMeta, peer_ObjectMeta = zero_ObjectMeta,
     peer_Status = \<lparr>pst_PeerName = '''', pst_LocalIP = '''', pst_RemoteIP = '''', pst_Conditions = []\<rparr>\<rparr>"

definition service_key :: "Service \<Rightarrow> NamespacedName" where
  "service_key svc = NN (om_Namespace (svc_ObjectMeta svc)) (om_Name (svc_ObjectMeta svc))"

definition new_peer :: "Service \<Rightarrow> Peer" where
  "new_peer svc = zero_Peer\<lparr>peer_ObjectMeta := named_meta (om_Name (svc_ObjectMeta svc)) (om_Namespace (svc_ObjectMeta svc))\<rparr>"

text \<open>The loop over the ingress points, left after its first round.\<close>

fun ingress_loop :: "string list \<Rightarrow> PeerStatus \<Rightarrow> PeerStatus" where
  "ingress_loop [] status = status"
| "ingress_loop (ip # _) status = status\<lparr>pst_RemoteIP := ip\<rparr>"

definition peer_status_update :: "'w kube \<Rightarrow> Service \<Rightarrow> Peer \<Rightarrow> ('w, unit) go" where
  "peer_status_update k svc peer = (\<lambda>w.
     let peerCopy = peer\<lparr>peer_Status := ingress_loop (svc_Ingress svc)
                          ((peer_Status peer)\<lparr>pst_LocalIP := svc_ClusterIP svc\<rparr>)\<rparr>
     in case UpdatePeerStatus k peerCopy w of
          (Inl (Panic p), w') \<Rightarrow> (Inl (Panic p), w')
        | (_, w') \<Rightarrow> (Inr (), w'))"

definition onAdd :: "'w kube \<Rightarrow> Service \<Rightarrow> ('w, unit) go" where
  "onAdd k svc = (\<lambda>w.
     case CacheGetPeer k (service_key svc) w of
       (Inl (Panic p), w1) \<Rightarrow> (Inl (Panic p), w1)
     | (Inl (Err e), w1) \<Rightarrow>
         if IgnoreNotFound k e \<noteq> None then (Inr (), w1)
         else if IsNotFound k e
         then (case CreatePeer k (new_peer svc) w1 of
                 (Inl (Panic p), w2) \<Rightarrow> (Inl (Panic p), w2)
               | (Inl (Err e'), w2) \<Rightarrow> (Inr (), w2)
               | (Inr peer, w2) \<Rightarrow> peer_status_update k svc peer w2)
         else peer_status_update k svc zero_Peer w1
     | (Inr peer, w1) \<Rightarrow> peer_status_update k svc peer w1)"

definition onUpdate :: "Service \<Rightarrow> Service \<Rightarrow> ('w, unit) go" where
  "onUpdate oldSvc newSvc = go_return ()"

definition onDelete :: "Service \<Rightarrow> ('w, unit) go" where
  "onDelete svc = go_return ()"

text \<open>The three callbacks \<^verbatim>\<open>Start\<close> registers.\<close>

datatype service_event = SvcAdded "Service any" | SvcUpdated "Service any" "Service any" | SvcDeleted "Service any"

fun peer_handle :: "'w kube \<Rightarrow> PeerServiceWatcher \<Rightarrow> service_event \<Rightarrow> ('w, unit) go" where
  "peer_handle k pw (SvcAdded obj) = service_filter (pw_selector pw) (onAdd k) obj"
| "peer_handle k pw (SvcUpdated oldObj newObj) = service_filterUpdate (pw_selector pw) onUpdate oldObj newObj"
| "peer_handle k pw (SvcDeleted obj) = service_filter (pw_selector pw) onDelete obj"

section \<open>The filters\<close>

abbreviation svc_labels :: "Service \<Rightarrow> label_set" where
  "svc_labels svc \<equiv> om_Labels (svc_ObjectMeta svc)"

interpretation svc_events: event_filter svc_labels "go_return ()" service_filter service_filterUpdate
  by unfold_locales
    (auto simp: service_filter_def service_filterUpdate_def split: any.splits)

section \<open>The peers\<close>

text \<open>
  Documented behaviour of the calls on peers, with \<open>peers\<close> reading them from a world: a cached
  read sees the stored object, or fails with NotFound when there is none; a create that succeeds stores the
  object under its key, without a status, which is a subresource; a status update that succeeds was sent with
  the stored resource version and writes the status and a new version. A call that fails may have been carried out.
  A cached read is taken to be up to date here: a cache that lags may still show the peer before it was created
  or updated.
\<close>

abbreviation peer_version :: "Peer \<Rightarrow> string" where
  "peer_version p \<equiv> om_ResourceVersion (peer_ObjectMeta p)"

definition peer_at_version :: "string \<Rightarrow> Peer \<Rightarrow> Peer" where
  "peer_at_version v p = p\<lparr>peer_ObjectMeta := (peer_ObjectMeta p)\<lparr>om_ResourceVersion := v\<rparr>\<rparr>"

definition peer_created :: "(NamespacedName \<rightharpoonup> Peer) \<Rightarrow> Peer \<Rightarrow> Peer \<Rightarrow> (NamespacedName \<rightharpoonup> Peer) \<Rightarrow> bool" where
  "peer_created s p q s' \<longleftrightarrow> meta_key (peer_ObjectMeta q) = meta_key (peer_ObjectMeta p)
     \<and> peer_Status q = peer_Status zero_Peer \<and> s' = s(meta_key (peer_ObjectMeta p) \<mapsto> q)"

definition peer_written :: "(NamespacedName \<rightharpoonup> Peer) \<Rightarrow> Peer \<Rightarrow> (NamespacedName \<rightharpoonup> Peer) \<Rightarrow> bool" where
  "peer_written s p s' \<longleftrightarrow> (\<exists>old v. s (meta_key (peer_ObjectMeta p)) = Some old \<and> peer_version old = peer_version p
     \<and> s' = s(meta_key (peer_ObjectMeta p) \<mapsto> peer_at_version v (old\<lparr>peer_Status := peer_Status p\<rparr>)))"

definition peer_api_doc :: "'w kube \<Rightarrow> ('w \<Rightarrow> NamespacedName \<rightharpoonup> Peer) \<Rightarrow> bool" where
  "peer_api_doc k peers \<longleftrightarrow>
     (\<forall>n w. case CacheGetPeer k n w of
        (Inr p, w') \<Rightarrow> peers w n = Some p \<and> meta_key (peer_ObjectMeta p) = n \<and> peers w' = peers w
      | (Inl (Err e), w') \<Rightarrow> peers w' = peers w \<and> (IsNotFound k e \<longrightarrow> peers w n = None)
      | (Inl (Panic _), _) \<Rightarrow> False) \<and>
     (\<forall>p w. case CreatePeer k p w of
        (Inr q, w') \<Rightarrow> peer_created (peers w) p q (peers w')
      | (Inl (Err _), w') \<Rightarrow> peers w' = peers w \<or> (\<exists>q. peer_created (peers w) p q (peers w'))
      | (Inl (Panic _), _) \<Rightarrow> False) \<and>
     (\<forall>p w. case UpdatePeerStatus k p w of
        (Inr _, w') \<Rightarrow> peer_written (peers w) p (peers w')
      | (Inl (Err _), w') \<Rightarrow> peers w' = peers w \<or> peer_written (peers w) p (peers w')
      | (Inl (Panic _), _) \<Rightarrow> False)"

text \<open>The status the watcher means to store, from the status the peer had before (or a fresh one).\<close>

definition peer_status_of :: "Service \<Rightarrow> Peer option \<Rightarrow> PeerStatus" where
  "peer_status_of svc before =
     (let base = (case before of None \<Rightarrow> peer_Status zero_Peer | Some p \<Rightarrow> peer_Status p)
      in base\<lparr>pst_LocalIP := svc_ClusterIP svc,
              pst_RemoteIP := (case svc_Ingress svc of [] \<Rightarrow> pst_RemoteIP base | ip # _ \<Rightarrow> ip)\<rparr>)"

lemma ingress_loop_eq:
  "ingress_loop ips s = s\<lparr>pst_RemoteIP := (case ips of [] \<Rightarrow> pst_RemoteIP s | ip # _ \<Rightarrow> ip)\<rparr>"
  by (cases ips) simp_all

lemma peer_api_docD:
  assumes "peer_api_doc k peers"
  shows "CacheGetPeer k n w = (Inr p, w') \<Longrightarrow>
      peers w n = Some p \<and> meta_key (peer_ObjectMeta p) = n \<and> peers w' = peers w"
    and "CacheGetPeer k n w = (Inl (Err e), w') \<Longrightarrow> peers w' = peers w \<and> (IsNotFound k e \<longrightarrow> peers w n = None)"
    and "CacheGetPeer k n w \<noteq> (Inl (Panic pan), w')"
    and "CreatePeer k p w = (Inr q, w') \<Longrightarrow> peer_created (peers w) p q (peers w')"
    and "UpdatePeerStatus k p w = (Inr r, w') \<Longrightarrow> peer_written (peers w) p (peers w')"
    and "UpdatePeerStatus k p w = (Inl (Err e), w') \<Longrightarrow> peers w' = peers w \<or> peer_written (peers w) p (peers w')"
    and "UpdatePeerStatus k p w \<noteq> (Inl (Panic pan), w')"
proof -
  note docs = assms [unfolded peer_api_doc_def]
  show "CacheGetPeer k n w = (Inr p, w') \<Longrightarrow>
      peers w n = Some p \<and> meta_key (peer_ObjectMeta p) = n \<and> peers w' = peers w"
    "CacheGetPeer k n w = (Inl (Err e), w') \<Longrightarrow> peers w' = peers w \<and> (IsNotFound k e \<longrightarrow> peers w n = None)"
    "CacheGetPeer k n w \<noteq> (Inl (Panic pan), w')"
    using conjunct1 [OF docs, THEN spec [of _ n], THEN spec [of _ w]] by auto
  show "CreatePeer k p w = (Inr q, w') \<Longrightarrow> peer_created (peers w) p q (peers w')"
    using conjunct1 [OF conjunct2 [OF docs], THEN spec [of _ p], THEN spec [of _ w]] by auto
  show "UpdatePeerStatus k p w = (Inr r, w') \<Longrightarrow> peer_written (peers w) p (peers w')"
    "UpdatePeerStatus k p w = (Inl (Err e), w') \<Longrightarrow> peers w' = peers w \<or> peer_written (peers w) p (peers w')"
    "UpdatePeerStatus k p w \<noteq> (Inl (Panic pan), w')"
    using conjunct2 [OF conjunct2 [OF docs], THEN spec [of _ p], THEN spec [of _ w]] by auto
qed

text \<open>The last step, on a peer as it is stored: it sends the new status, with the version it has read.\<close>

lemma peer_status_update_sends:
  "peer_status_update k svc peer w =
     (case UpdatePeerStatus k (peer\<lparr>peer_Status := peer_status_of svc (Some peer)\<rparr>) w of
        (Inl (Panic p), w') \<Rightarrow> (Inl (Panic p), w') | (_, w') \<Rightarrow> (Inr (), w'))"
  by (cases "svc_Ingress svc") (simp_all add: peer_status_update_def peer_status_of_def Let_def)

lemma peer_status_update_outcome:
  assumes doc: "peer_api_doc k peers" and key: "meta_key (peer_ObjectMeta peer) = n" and stored: "peers w n = Some peer"
    and run: "peer_status_update k svc peer w = (res, w')"
  shows "res = Inr ()" "m \<noteq> n \<Longrightarrow> peers w' m = peers w m"
    "peers w' n = peers w n \<or> (\<exists>v. peers w' n = Some (peer_at_version v (peer\<lparr>peer_Status := peer_status_of svc (Some peer)\<rparr>)))"
proof -
  let ?copy = "peer\<lparr>peer_Status := peer_status_of svc (Some peer)\<rparr>"
  obtain o1 w1 where up: "UpdatePeerStatus k ?copy w = (o1, w1)" by (cases "UpdatePeerStatus k ?copy w")
  have "o1 \<noteq> Inl (Panic p)" for p using peer_api_docD(7) [OF doc] up by blast
  then have run': "res = Inr ()" "w' = w1"
    using run up by (auto simp: peer_status_update_sends split: sum.splits fault.splits)
  have "peers w1 = peers w \<or> peer_written (peers w) ?copy (peers w1)"
    using peer_api_docD(5,6) [OF doc, of ?copy w] peer_api_docD(7) [OF doc] up
    by (cases o1) (metis fault.exhaust)+
  then show "res = Inr ()" "m \<noteq> n \<Longrightarrow> peers w' m = peers w m"
    "peers w' n = peers w n \<or> (\<exists>v. peers w' n = Some (peer_at_version v ?copy))"
    using run' key stored by (auto simp: peer_written_def)
qed

text \<open>Status updates that carry the stored version succeed.\<close>

definition updates_succeed :: "'w kube \<Rightarrow> ('w \<Rightarrow> NamespacedName \<rightharpoonup> Peer) \<Rightarrow> bool" where
  "updates_succeed k peers \<longleftrightarrow> (\<forall>p w old. peers w (meta_key (peer_ObjectMeta p)) = Some old \<and> peer_version old = peer_version p \<longrightarrow>
     (\<exists>q w'. UpdatePeerStatus k p w = (Inr q, w')))"

lemma peer_status_update_success:
  assumes doc: "peer_api_doc k peers" and key: "meta_key (peer_ObjectMeta peer) = n" and stored: "peers w n = Some peer"
    and ok: "updates_succeed k peers"
  shows "\<exists>v. peers (snd (peer_status_update k svc peer w)) n = Some (peer_at_version v (peer\<lparr>peer_Status := peer_status_of svc (Some peer)\<rparr>))"
proof -
  let ?copy = "peer\<lparr>peer_Status := peer_status_of svc (Some peer)\<rparr>"
  obtain q w1 where up: "UpdatePeerStatus k ?copy w = (Inr q, w1)"
    using ok key stored unfolding updates_succeed_def by force
  then have "snd (peer_status_update k svc peer w) = w1" by (simp add: peer_status_update_sends)
  then show ?thesis using peer_api_docD(5) [OF doc up] key stored by (auto simp: peer_written_def)
qed

lemma new_peer_key [simp]: "meta_key (peer_ObjectMeta (new_peer svc)) = service_key svc"
  by (simp add: new_peer_def service_key_def)

lemma peer_status_of_new: "peer_Status p = peer_Status zero_Peer \<Longrightarrow> peer_status_of svc (Some p) = peer_status_of svc None"
  by (simp add: peer_status_of_def Let_def)

end
