(* ===== verification/Health_Manager.thy ===== *)
theory Health_Manager
  imports Health_Cache
begin

text \<open>
  \<^verbatim>\<open>internal/haproxy/healthmanager.go\<close>: stores reported endpoints in the cache and wakes the
  frontend controller through a channel when they changed. The channel of \<^verbatim>\<open>main\<close> has no
  buffer and the send is in a \<^verbatim>\<open>select\<close> with a \<^verbatim>\<open>default\<close>, so whether a receiver is waiting
  at that moment decides between delivery and loss: it is the argument \<open>ready\<close>. The state
  holds the events delivered so far, oldest first.
\<close>

section \<open>The code\<close>

record GenericEvent =
  ge_Object :: Frontend

record HealthManager =
  hm_cache :: HealthCache
  hm_events :: "GenericEvent list"

definition NewHealthManager :: "HealthCache \<Rightarrow> HealthManager" where
  "NewHealthManager cache = \<lparr>hm_cache = cache, hm_events = []\<rparr>"

text \<open>The \<^verbatim>\<open>v1alpha1.Frontend\<close> literal of the event: only its key is set.\<close>

definition event_frontend :: "NamespacedName \<Rightarrow> Frontend" where
  "event_frontend frontend =
     \<lparr>fe_TypeMeta = zero_TypeMeta,
      fe_ObjectMeta = named_meta (nn_Name frontend) (nn_Namespace frontend),
      fe_Spec = \<lparr>fes_Service = None,
                 fes_BackendSelector = \<lparr>ls_MatchLabels = [], ls_MatchExpressions = []\<rparr>\<rparr>,
      fe_Status = \<lparr>fest_Conditions = [], fest_Port = None, fest_LoadBalancer = None\<rparr>\<rparr>"

definition HealthManager_Update ::
  "bool \<Rightarrow> HealthManager \<Rightarrow> NamespacedName \<Rightarrow> Endpoint list \<Rightarrow> HealthManager" where
  "HealthManager_Update ready m frontend endpoints =
     (let (cache', changed) = HealthCache_Update (hm_cache m) frontend endpoints;
          m' = m\<lparr>hm_cache := cache'\<rparr>
      in if \<not> changed then m'
         else if ready
              then m'\<lparr>hm_events := hm_events m' @ [\<lparr>ge_Object = event_frontend frontend\<rparr>]\<rparr>
              else m')"

text \<open>
  The loop at the end of \<^verbatim>\<open>updateHealthManager\<close>: one report per frontend, in the order the map
  is visited; \<open>ready\<close> says for each frontend whether the receiver is waiting then.
\<close>

fun report_loop ::
  "(NamespacedName \<Rightarrow> bool) \<Rightarrow> HealthManager \<Rightarrow> (NamespacedName \<times> Endpoint list) list \<Rightarrow> HealthManager" where
  "report_loop ready m [] = m"
| "report_loop ready m ((frontend, states) # rest) =
     report_loop ready (HealthManager_Update (ready frontend) m frontend states) rest"

section \<open>Facts\<close>

lemma event_key [simp]: "fe_key (event_frontend k) = k"
  by (cases k) (simp add: event_frontend_def)

lemma Manager_cache [simp]:
  "hm_cache (HealthManager_Update ready m k eps) = fst (HealthCache_Update (hm_cache m) k eps)"
  by (simp add: HealthManager_Update_def Let_def split_beta)

lemma Manager_events: "hm_events (HealthManager_Update ready m k eps) = hm_events m @
    (if snd (HealthCache_Update (hm_cache m) k eps) \<and> ready then [\<lparr>ge_Object = event_frontend k\<rparr>] else [])"
  by (simp add: HealthManager_Update_def Let_def split_beta)

lemma report_loop_cache:
  "hm_cache (report_loop ready m b) = foldl (\<lambda>c (k, eps). fst (HealthCache_Update c k eps)) (hm_cache m) b"
  by (induction ready m b rule: report_loop.induct) auto

text \<open>
  The events of a batch with one entry per frontend: in its order, those of the frontends whose report changes the
  cache as it was before the batch and for which the receiver is waiting.
\<close>

lemma report_loop_events:
  "gm_wf b \<Longrightarrow> hm_events (report_loop ready m b) = hm_events m
     @ map (\<lambda>(k, _). \<lparr>ge_Object = event_frontend k\<rparr>) (filter (\<lambda>(k, eps). snd (HealthCache_Update (hm_cache m) k eps) \<and> ready k) b)"
proof (induction ready m b rule: report_loop.induct)
  case (2 ready m k eps b)
  let ?m = "HealthManager_Update (ready k) m k eps"
  have "snd (HealthCache_Update (hm_cache ?m) k' eps') = snd (HealthCache_Update (hm_cache m) k' eps')" if "(k', eps') \<in> set b" for k' eps'
  proof -
    have "k' \<noteq> k" using that 2(2) by (force simp: gm_wf_def)
    then show ?thesis by (intro Update_changed_local) (simp add: Update_entry_other)
  qed
  then have "filter (\<lambda>(k', eps'). snd (HealthCache_Update (hm_cache ?m) k' eps') \<and> ready k') b
      = filter (\<lambda>(k', eps'). snd (HealthCache_Update (hm_cache m) k' eps') \<and> ready k') b"
    by (intro filter_cong) auto
  with 2 show ?case by (simp add: Manager_events gm_wf_def)
qed simp

section \<open>Properties\<close>

text \<open>
  C26: reporting a batch, one entry per frontend, with a receiver that is always waiting delivers at most one event per
  frontend. A frontend with an event has the reported endpoints cached; one without keeps its cached
  endpoints, and these show every reported address with the reported health. When neither the cached
  list of a frontend nor the reported one repeats an address, there is an event exactly when the health
  of the frontend changes, and the cache has the reported health afterwards.
\<close>

theorem report_events_exact:
  assumes "gm_wf b" and "m' = report_loop (\<lambda>_. True) m b"
  shows "\<exists>es. hm_events m' = hm_events m @ es \<and> distinct (map (\<lambda>e. fe_key (ge_Object e)) es)
    \<and> (\<lambda>e. fe_key (ge_Object e)) ` set es \<subseteq> fst ` set b
    \<and> (\<forall>(k, eps) \<in> set b. let old = HealthCache_Get (hm_cache m) k; event = (k \<in> (\<lambda>e. fe_key (ge_Object e)) ` set es) in
         HealthCache_Get (hm_cache m') k = (if event then eps else old)
       \<and> (\<not> event \<longrightarrow> health_map eps \<subseteq>\<^sub>m health_map old)
       \<and> (distinct_ips old \<and> distinct_ips eps \<longrightarrow> (event \<longleftrightarrow> abs_cache (hm_cache m) k \<noteq> Some (health_map eps))
            \<and> health_map (HealthCache_Get (hm_cache m') k) = health_map eps))"
proof -
  let ?key = "\<lambda>e. fe_key (ge_Object e)" and ?changes = "filter (\<lambda>(k, eps). snd (HealthCache_Update (hm_cache m) k eps)) b"
  let ?es = "map (\<lambda>(k, _). \<lparr>ge_Object = event_frontend k\<rparr>) ?changes"
  have keys: "map ?key ?es = map fst ?changes" by (induction b) auto
  have sub: "?key ` set ?es = fst ` set ?changes" using arg_cong [OF keys, of set] by (simp only: set_map)
  have dist: "distinct (map ?key ?es)" unfolding keys using assms(1) by (simp add: gm_wf_def distinct_map_filter)
  have events: "hm_events m' = hm_events m @ ?es" using report_loop_events [OF assms(1), of "\<lambda>_. True" m] assms(2) by simp
  let ?each = "\<lambda>k eps. let old = HealthCache_Get (hm_cache m) k; event = (k \<in> ?key ` set ?es) in
         HealthCache_Get (hm_cache m') k = (if event then eps else old)
       \<and> (\<not> event \<longrightarrow> health_map eps \<subseteq>\<^sub>m health_map old)
       \<and> (distinct_ips old \<and> distinct_ips eps \<longrightarrow> (event \<longleftrightarrow> abs_cache (hm_cache m) k \<noteq> Some (health_map eps))
            \<and> health_map (HealthCache_Get (hm_cache m') k) = health_map eps)"
  have each: "?each k eps" if k: "(k, eps) \<in> set b" for k eps
  proof -
    have unique: "eps' = eps" if "(k, eps') \<in> set b" for eps' using that k assms(1) by (metis gm_wf_entry option.inject)
    have "k \<in> fst ` set ?changes \<longleftrightarrow> (\<exists>eps'. (k, eps') \<in> set b \<and> snd (HealthCache_Update (hm_cache m) k eps'))"
      by (auto intro: rev_image_eqI)
    then have event: "k \<in> ?key ` set ?es \<longleftrightarrow> snd (HealthCache_Update (hm_cache m) k eps)"
      unfolding sub using k unique by blast
    have get: "HealthCache_Get (hm_cache m') k = HealthCache_Get (fst (HealthCache_Update (hm_cache m) k eps)) k"
      using hc.batch_at [OF assms(1) k] by (simp add: assms(2) report_loop_cache)
    show ?thesis
      unfolding Let_def event get Update_Get
      using Update_covers [of eps "hm_cache m" k] Update_changed_iff [of "hm_cache m" k eps] Update_health [of "hm_cache m" k eps]
      unfolding Update_Get abs_cache_def by auto
  qed
  have "?key ` set ?es \<subseteq> fst ` set b" unfolding sub by auto
  moreover have "\<forall>(k, eps) \<in> set b. ?each k eps" using each by blast
  ultimately show ?thesis using events dist by (intro exI [of _ ?es] conjI)
qed

theorem report_events_exact_witness:
  "\<exists>es. hm_events (report_loop (\<lambda>_. True) (NewHealthManager NewHealthCache)
       [(NN ''glb'' ''web'', [sample_endpoint ''n1'' ''10.0.0.1'' True])]) = es
     \<and> (\<lambda>e. fe_key (ge_Object e)) ` set es = {NN ''glb'' ''web''}"
proof -
  let ?k = "NN ''glb'' ''web''" and ?eps = "[sample_endpoint ''n1'' ''10.0.0.1'' True]" and ?m = "NewHealthManager NewHealthCache"
  have m: "HealthCache_Get (hm_cache ?m) ?k = []" "abs_cache (hm_cache ?m) ?k = None" "hm_events ?m = []"
    by (simp_all add: NewHealthCache_def NewHealthManager_def abs_cache_def HealthCache_Get_def slice_at_def)
  have ips: "distinct_ips []" "distinct_ips ?eps" by (simp_all add: distinct_ips_def)
  have "gm_wf [(?k, ?eps)]" by (simp add: gm_wf_def)
  from report_events_exact [OF this refl, of ?m] obtain es where
    "hm_events (report_loop (\<lambda>_. True) ?m [(?k, ?eps)]) = es" "?k \<in> (\<lambda>e. fe_key (ge_Object e)) ` set es"
    "(\<lambda>e. fe_key (ge_Object e)) ` set es \<subseteq> {?k}"
    using m ips by (auto simp: Let_def)
  then show ?thesis by blast
qed

text \<open>
  A wake-up can be lost for good: when the receiver is not waiting at the moment of a report that
  changes the cache, no event is sent, and no later report of the same endpoints sends one, however
  often it is repeated and whether or not the receiver is waiting then.
\<close>

theorem lost_wakeup:
  assumes "distinct_ips (HealthCache_Get (hm_cache m) k)" and "distinct_ips eps"
  shows "hm_events (foldl (\<lambda>m ready. HealthManager_Update ready m k eps) (HealthManager_Update False m k eps) readies)
    = hm_events m"
proof -
  let ?m = "HealthManager_Update False m k eps"
  have settled: "\<not> snd (HealthCache_Update (hm_cache ?m) k eps)"
    using hc.update_same [OF assms] by simp
  have "foldl (\<lambda>m ready. HealthManager_Update ready m k eps) ?m readies = ?m"
    using settled by (induction readies) (simp_all add: HealthManager_Update_def Let_def split_beta Update_unchanged)
  then show ?thesis by (simp add: Manager_events)
qed

theorem lost_wakeup_witness:
  "hm_events (foldl (\<lambda>m ready. HealthManager_Update ready m (NN ''glb'' ''web'') [sample_endpoint ''n1'' ''10.0.0.1'' True])
     (HealthManager_Update False (NewHealthManager NewHealthCache) (NN ''glb'' ''web'')
        [sample_endpoint ''n1'' ''10.0.0.1'' True]) [True, True]) = []"
  using lost_wakeup [of "NewHealthManager NewHealthCache" "NN ''glb'' ''web''"
      "[sample_endpoint ''n1'' ''10.0.0.1'' True]" "[True, True]"]
  by (simp add: distinct_ips_def NewHealthCache_def NewHealthManager_def HealthCache_Get_def slice_at_def)

end
