(* ===== verification/Monitor.thy ===== *)
theory Monitor
  imports Complex_Main Kube_Client Health_Manager
begin

text \<open>
  \<^verbatim>\<open>internal/haproxy/haproxymonitor.go\<close>: the pods the informer reports, the backend states
  scraped from them, and the endpoints reported to the health manager. Every section guarded
  by \<^verbatim>\<open>stateMu\<close> is one function on the monitor's state; the HTTP exchange and the Prometheus
  decoder are the argument \<open>httpGet\<close>; the order of each \<^verbatim>\<open>range\<close> over a map is an argument
  (\<open>orders\<close>). The interleaving of these sections is in theory \<open>Monitor_System\<close>.
\<close>

section \<open>The code\<close>

type_synonym uid = string

abbreviation pod_UID :: "Pod \<Rightarrow> uid" where
  "pod_UID pod \<equiv> om_UID (pod_ObjectMeta pod)"

abbreviation pod_Labels :: "Pod \<Rightarrow> label_set" where
  "pod_Labels pod \<equiv> om_Labels (pod_ObjectMeta pod)"

record ScrapeTarget =
  st_UID :: uid
  st_Name :: string
  st_Namespace :: string
  st_NodeName :: string
  st_IP :: string

type_synonym endpoint_states = "(string, (uid, bool) gomap) gomap"

record HAProxyMonitor =
  mon_namespace :: string
  mon_selector :: selector
  mon_pods :: "(uid, Pod) gomap"
  mon_scrapeTargets :: "(uid, ScrapeTarget) gomap"
  mon_endpointStates :: endpoint_states
  mon_metricsPort :: int32
  mon_metricsPath :: string
  mon_interval :: int

definition NewHAProxyMonitor ::
  "'w kube \<Rightarrow> string \<Rightarrow> int32 \<Rightarrow> string \<Rightarrow> int \<Rightarrow> goerror + HAProxyMonitor" where
  "NewHAProxyMonitor k namespace metricsPort metricsPath interval =
     (case NewRequirement k ''app.kubernetes.io/name'' In [''global-load-balancer''] of
        Inl e \<Rightarrow> Inl e
      | Inr sel \<Rightarrow> Inr
          \<lparr>mon_namespace = namespace, mon_selector = sel, mon_pods = [], mon_scrapeTargets = [],
           mon_endpointStates = [], mon_metricsPort = metricsPort, mon_metricsPath = metricsPath,
           mon_interval = interval\<rparr>)"

definition Monitor_NeedLeaderElection :: bool where
  "Monitor_NeedLeaderElection = True"

text \<open>The part of \<^verbatim>\<open>Start\<close> before its loop, by the outcomes of the two informer calls.\<close>

definition HAProxyMonitor_Start :: "goerror option \<Rightarrow> goerror option \<Rightarrow> goerror option" where
  "HAProxyMonitor_Start getInformer addEventHandler =
     (case getInformer of
        Some e \<Rightarrow> Some (Wrapped ''failed to get pod informer'' e)
      | None \<Rightarrow> (case addEventHandler of
            Some e \<Rightarrow> Some (Wrapped ''failed to add event handler'' e)
          | None \<Rightarrow> None))"

subsection \<open>Informer callbacks\<close>

definition pod_filter ::
  "selector \<Rightarrow> (Pod \<Rightarrow> HAProxyMonitor \<Rightarrow> HAProxyMonitor) \<Rightarrow> Pod any \<Rightarrow> HAProxyMonitor \<Rightarrow> HAProxyMonitor" where
  "pod_filter sel handler obj =
     (case obj of Obj pod \<Rightarrow> if sel (pod_Labels pod) then handler pod else id | _ \<Rightarrow> id)"

definition pod_filterUpdate ::
  "selector \<Rightarrow> (Pod \<Rightarrow> Pod \<Rightarrow> HAProxyMonitor \<Rightarrow> HAProxyMonitor) \<Rightarrow> Pod any \<Rightarrow> Pod any
    \<Rightarrow> HAProxyMonitor \<Rightarrow> HAProxyMonitor" where
  "pod_filterUpdate sel handler oldObj newObj =
     (case (oldObj, newObj) of
        (Obj oldPod, Obj newPod) \<Rightarrow> if sel (pod_Labels newPod) then handler oldPod newPod else id
      | _ \<Rightarrow> id)"

definition pod_onAdd :: "Pod \<Rightarrow> HAProxyMonitor \<Rightarrow> HAProxyMonitor" where
  "pod_onAdd pod w = w\<lparr>mon_pods := gm_put (pod_UID pod) pod (mon_pods w)\<rparr>"

definition pod_onUpdate :: "Pod \<Rightarrow> Pod \<Rightarrow> HAProxyMonitor \<Rightarrow> HAProxyMonitor" where
  "pod_onUpdate oldPod newPod w =
     w\<lparr>mon_pods := gm_put (pod_UID newPod) newPod (gm_del (pod_UID oldPod) (mon_pods w))\<rparr>"

text \<open>The loop of \<^verbatim>\<open>onDelete\<close>: the inner map is changed in place, and removed when it is empty.\<close>

fun delete_loop :: "uid \<Rightarrow> endpoint_states \<Rightarrow> (string \<times> (uid, bool) gomap) list \<Rightarrow> endpoint_states" where
  "delete_loop u es [] = es"
| "delete_loop u es ((backend, m) # rest) =
     (let m' = gm_del u m
      in delete_loop u (if length m' = 0 then gm_del backend es else gm_put backend m' es) rest)"

type_synonym states_order = "(string \<times> (uid, bool) gomap) list \<Rightarrow> (string \<times> (uid, bool) gomap) list"

definition pod_onDelete :: "states_order \<Rightarrow> Pod \<Rightarrow> HAProxyMonitor \<Rightarrow> HAProxyMonitor" where
  "pod_onDelete ord pod w =
     w\<lparr>mon_pods := gm_del (pod_UID pod) (mon_pods w),
       mon_endpointStates := delete_loop (pod_UID pod) (mon_endpointStates w) (ord (mon_endpointStates w))\<rparr>"

datatype pod_event = PodAdded "Pod any" | PodUpdated "Pod any" "Pod any" | PodDeleted "Pod any"

fun mon_handle :: "states_order \<Rightarrow> pod_event \<Rightarrow> HAProxyMonitor \<Rightarrow> HAProxyMonitor" where
  "mon_handle ord (PodAdded obj) w = pod_filter (mon_selector w) pod_onAdd obj w"
| "mon_handle ord (PodUpdated oldObj newObj) w = pod_filterUpdate (mon_selector w) pod_onUpdate oldObj newObj w"
| "mon_handle ord (PodDeleted obj) w = pod_filter (mon_selector w) (pod_onDelete ord) obj w"

subsection \<open>The snapshot of the targets\<close>

fun targets_loop :: "(uid, ScrapeTarget) gomap \<Rightarrow> (uid \<times> Pod) list \<Rightarrow> (uid, ScrapeTarget) gomap" where
  "targets_loop targets [] = targets"
| "targets_loop targets ((u, pod) # rest) =
     targets_loop
       (if pod_PodIP pod \<noteq> '''' then
          gm_put (pod_UID pod)
            \<lparr>st_UID = u, st_Name = om_Name (pod_ObjectMeta pod), st_Namespace = om_Namespace (pod_ObjectMeta pod),
             st_NodeName = pod_NodeName pod, st_IP = pod_PodIP pod\<rparr> targets
        else targets) rest"

definition take_snapshot :: "((uid \<times> Pod) list \<Rightarrow> (uid \<times> Pod) list) \<Rightarrow> HAProxyMonitor \<Rightarrow> HAProxyMonitor" where
  "take_snapshot ord w = w\<lparr>mon_scrapeTargets := targets_loop [] (ord (mon_pods w))\<rparr>"

subsection \<open>Scraping one pod\<close>

text \<open>A \<^verbatim>\<open>float64\<close>, as far as a comparison with zero goes; every finite one is rational.\<close>

datatype float64 = NaN | PosInf | NegInf | Finite rat

fun gt_zero :: "float64 \<Rightarrow> bool" where
  "gt_zero NaN = False"
| "gt_zero PosInf = True"
| "gt_zero NegInf = False"
| "gt_zero (Finite q) = (0 < q)"

record Metric =
  me_Label :: "(string \<times> string) list"
  me_Gauge :: "float64 option"

record MetricFamily =
  mf_Name :: string
  mf_Metric :: "Metric list"

text \<open>What successive calls of \<^verbatim>\<open>Decode\<close> give before \<^verbatim>\<open>io.EOF\<close>; an error ends the stream.\<close>

datatype decode_item = Decoded MetricFamily | DecodeError goerror

record Response =
  resp_StatusCode :: int
  resp_Body :: "decode_item list"

record URL =
  url_Scheme :: string
  url_Host :: string
  url_Path :: string

definition JoinHostPort :: "string \<Rightarrow> string \<Rightarrow> string" where
  "JoinHostPort host port =
     (if CHR '':'' \<in> set host then ''['' @ host @ '']:'' @ port else host @ '':'' @ port)"

definition TrimSlash :: "string \<Rightarrow> string" where
  "TrimSlash s = (case s of [] \<Rightarrow> [] | c # cs \<Rightarrow> if c = CHR ''/'' then cs else s)"

definition metrics_url :: "HAProxyMonitor \<Rightarrow> ScrapeTarget \<Rightarrow> URL" where
  "metrics_url w target =
     \<lparr>url_Scheme = ''http'',
      url_Host = JoinHostPort (st_IP target) (show_int (sint (mon_metricsPort w))),
      url_Path = ''/'' @ TrimSlash (mon_metricsPath w)\<rparr>"

text \<open>\<^verbatim>\<open>URL.String\<close> for a path that needs no escaping.\<close>

definition URL_String :: "URL \<Rightarrow> string" where
  "URL_String u = url_Scheme u @ ''://'' @ url_Host u @ url_Path u"

text \<open>The loop over the labels: the last \<^verbatim>\<open>state\<close> and the last \<^verbatim>\<open>proxy\<close> win.\<close>

fun label_loop :: "string \<times> string \<Rightarrow> (string \<times> string) list \<Rightarrow> string \<times> string" where
  "label_loop (state, backendName) [] = (state, backendName)"
| "label_loop (state, backendName) ((n, v) # rest) =
     label_loop (if n = ''state'' then (v, backendName) else if n = ''proxy'' then (state, v)
                 else (state, backendName)) rest"

text \<open>The locked section: the inner map is created when it is missing, then the entry is set.\<close>

definition inner_at :: "endpoint_states \<Rightarrow> string \<Rightarrow> (uid, bool) gomap" where
  "inner_at es backend = (case gm_get es backend of None \<Rightarrow> [] | Some m \<Rightarrow> m)"

definition set_state :: "string \<Rightarrow> uid \<Rightarrow> bool \<Rightarrow> endpoint_states \<Rightarrow> endpoint_states" where
  "set_state backendName u isHealthy es =
     (let es = (if gm_get es backendName = None then gm_put backendName [] es else es)
      in gm_put backendName (gm_put u isHealthy (inner_at es backendName)) es)"

definition metric_step :: "ScrapeTarget \<Rightarrow> endpoint_states \<Rightarrow> Metric \<Rightarrow> endpoint_states" where
  "metric_step target es metric =
     (let (state, backendName) = label_loop ('''', '''') (me_Label metric)
      in if state \<noteq> ''UP'' then es
         else case me_Gauge metric of
                None \<Rightarrow> es
              | Some g \<Rightarrow> let isHealthy = gt_zero g in set_state backendName (st_UID target) isHealthy es)"

fun decode_loop :: "ScrapeTarget \<Rightarrow> endpoint_states \<Rightarrow> decode_item list \<Rightarrow> goerror option \<times> endpoint_states" where
  "decode_loop target es [] = (None, es)"
| "decode_loop target es (DecodeError e # _) = (Some e, es)"
| "decode_loop target es (Decoded mf # rest) =
     (if mf_Name mf \<noteq> ''haproxy_backend_agg_server_status'' then decode_loop target es rest
      else decode_loop target (foldl (metric_step target) es (mf_Metric mf)) rest)"

definition scrapeMetrics ::
  "(URL \<Rightarrow> goerror + Response) \<Rightarrow> HAProxyMonitor \<Rightarrow> ScrapeTarget \<Rightarrow> goerror option \<times> HAProxyMonitor" where
  "scrapeMetrics httpGet w target =
     (case httpGet (metrics_url w target) of
        Inl e \<Rightarrow> (Some e, w)
      | Inr resp \<Rightarrow>
          if resp_StatusCode resp \<noteq> 200
          then (Some (OtherErr (''unexpected status code '' @ show_int (resp_StatusCode resp)
                 @ '' for '' @ URL_String (metrics_url w target))), w)
          else let (err, es) = decode_loop target (mon_endpointStates w) (resp_Body resp)
               in (err, w\<lparr>mon_endpointStates := es\<rparr>))"

subsection \<open>Reporting to the health manager\<close>

text \<open>The orders in which one run of \<^verbatim>\<open>updateHealthManager\<close> visits the maps it ranges over.\<close>

record orders =
  ord_states :: states_order
  ord_uids :: "string \<Rightarrow> (uid \<times> bool) list \<Rightarrow> (uid \<times> bool) list"
  ord_endpoints :: "Backend \<Rightarrow> Frontend \<Rightarrow> (uid \<times> bool) list \<Rightarrow> (uid \<times> bool) list"
  ord_frontends :: "(NamespacedName \<times> Endpoint list) list \<Rightarrow> (NamespacedName \<times> Endpoint list) list"

definition orders_ok :: "orders \<Rightarrow> bool" where
  "orders_ok ord \<longleftrightarrow> range_order (ord_states ord) \<and> (\<forall>b. range_order (ord_uids ord b))
     \<and> (\<forall>be fe. range_order (ord_endpoints ord be fe)) \<and> range_order (ord_frontends ord)"

text \<open>Building \<^verbatim>\<open>consolidated\<close>: the inner and the outer loop.\<close>

fun consolidate_inner :: "string \<Rightarrow> endpoint_states \<Rightarrow> (uid \<times> bool) list \<Rightarrow> endpoint_states" where
  "consolidate_inner backendName c [] = c"
| "consolidate_inner backendName c ((u, isUp) # rest) =
     (let c = (if gm_get c backendName = None then gm_put backendName [] c else c);
          old = (case gm_get (inner_at c backendName) u of None \<Rightarrow> False | Some b \<Rightarrow> b)
      in consolidate_inner backendName
           (gm_put backendName (gm_put u (old \<or> isUp) (inner_at c backendName)) c) rest)"

fun consolidate_outer :: "orders \<Rightarrow> endpoint_states \<Rightarrow> (string \<times> (uid, bool) gomap) list \<Rightarrow> endpoint_states" where
  "consolidate_outer ord c [] = c"
| "consolidate_outer ord c ((backendName, backendMap) # rest) =
     consolidate_outer ord (consolidate_inner backendName c (ord_uids ord backendName backendMap)) rest"

definition consolidated :: "orders \<Rightarrow> HAProxyMonitor \<Rightarrow> endpoint_states" where
  "consolidated ord w = consolidate_outer ord [] (ord_states ord (mon_endpointStates w))"

text \<open>Reading a missing key of the map of targets gives the zero target.\<close>

definition target_at :: "HAProxyMonitor \<Rightarrow> uid \<Rightarrow> ScrapeTarget" where
  "target_at w u =
     (case gm_get (mon_scrapeTargets w) u of
        None \<Rightarrow> \<lparr>st_UID = '''', st_Name = '''', st_Namespace = '''', st_NodeName = '''', st_IP = ''''\<rparr>
      | Some t \<Rightarrow> t)"

definition endpoint_of :: "HAProxyMonitor \<Rightarrow> uid \<times> bool \<Rightarrow> Endpoint" where
  "endpoint_of w = (\<lambda>(u, isUp). let ep = target_at w u in
     \<lparr>ep_NodeName = st_NodeName ep, ep_IPAddress = st_IP ep, ep_Healthy = isUp\<rparr>)"

type_synonym frontend_states = "(NamespacedName, Endpoint list) gomap"

fun append_loop :: "HAProxyMonitor \<Rightarrow> NamespacedName \<Rightarrow> frontend_states \<Rightarrow> (uid \<times> bool) list \<Rightarrow> frontend_states" where
  "append_loop w key fs [] = fs"
| "append_loop w key fs (entry # rest) =
     append_loop w key (gm_put key (slice_at fs key @ [endpoint_of w entry]) fs) rest"

text \<open>One round for a backend with data and a frontend, the loop over the frontends, the loop over the backends.\<close>

definition pair_step ::
  "'w kube \<Rightarrow> orders \<Rightarrow> HAProxyMonitor \<Rightarrow> Backend \<Rightarrow> (uid, bool) gomap \<Rightarrow> frontend_states \<Rightarrow> Frontend \<Rightarrow> frontend_states" where
  "pair_step k ord w backendCR uidStates fs frontendCR =
     (let key = NN (fe_Namespace frontendCR) (fe_Name frontendCR)
      in case LabelSelectorAsSelector k (fes_BackendSelector (fe_Spec frontendCR)) of
           Inl e \<Rightarrow> fs
         | Inr sel \<Rightarrow>
             if sel (be_Labels backendCR)
             then append_loop w key (if gm_get fs key = None then gm_put key [] fs else fs)
                    (ord_endpoints ord backendCR frontendCR uidStates)
             else fs)"

definition backend_step ::
  "'w kube \<Rightarrow> orders \<Rightarrow> HAProxyMonitor \<Rightarrow> Frontend list \<Rightarrow> frontend_states \<Rightarrow> Backend \<Rightarrow> frontend_states" where
  "backend_step k ord w frontends fs backendCR =
     (case gm_get (consolidated ord w) (be_Name backendCR) of
        None \<Rightarrow> fs
      | Some uidStates \<Rightarrow> foldl (pair_step k ord w backendCR uidStates) fs frontends)"

definition frontendEndpointStates ::
  "'w kube \<Rightarrow> orders \<Rightarrow> HAProxyMonitor \<Rightarrow> Backend list \<Rightarrow> Frontend list \<Rightarrow> frontend_states" where
  "frontendEndpointStates k ord w backends frontends = foldl (backend_step k ord w frontends) [] backends"

definition updateHealthManager ::
  "'w kube \<Rightarrow> orders \<Rightarrow> (NamespacedName \<Rightarrow> bool) \<Rightarrow> HAProxyMonitor \<Rightarrow> HealthManager \<Rightarrow> ('w, HealthManager) go" where
  "updateHealthManager k ord ready w hm = (\<lambda>world.
     case ListBackends k \<lparr>lo_LabelSelector = None, lo_Namespace = Some (mon_namespace w)\<rparr> world of
       (Inl (Panic p), world1) \<Rightarrow> (Inl (Panic p), world1)
     | (Inl (Err e), world1) \<Rightarrow> (Inl (Err (Wrapped ''failed to list backend CRDs'' e)), world1)
     | (Inr backendList, world1) \<Rightarrow>
         (case ListFrontends k \<lparr>lo_LabelSelector = None, lo_Namespace = Some (mon_namespace w)\<rparr> world1 of
            (Inl (Panic p), world2) \<Rightarrow> (Inl (Panic p), world2)
          | (Inl (Err e), world2) \<Rightarrow> (Inl (Err (Wrapped ''failed to list frontend CRDs'' e)), world2)
          | (Inr frontendList, world2) \<Rightarrow>
              (Inr (report_loop ready hm (ord_frontends ord
                 (frontendEndpointStates k ord w (bel_Items backendList) (fel_Items frontendList)))), world2)))"

section \<open>Callbacks\<close>

interpretation pod_events: event_filter pod_Labels id pod_filter pod_filterUpdate
  by unfold_locales (auto simp: pod_filter_def pod_filterUpdate_def split: any.splits)

lemma delete_loop_get:
  assumes "distinct (map fst rest)"
  shows "gm_get (delete_loop u es rest) b =
    (case gm_get rest b of None \<Rightarrow> gm_get es b
     | Some m \<Rightarrow> if gm_del u m = [] then None else Some (gm_del u m))"
  using assms
proof (induction u es rest rule: delete_loop.induct)
  case (2 u es backend m rest)
  then have "gm_get rest backend = None" by (simp add: map_of_eq_None_iff)
  with 2 show ?case by (auto simp: Let_def gomap_simps split: option.splits)
qed simp

lemma delete_loop_wf: "gm_wf es \<Longrightarrow> gm_wf (delete_loop u es rest)"
  by (induction u es rest rule: delete_loop.induct) (auto simp: Let_def)

text \<open>Deleting a pod: its entry is gone from every backend, and backends left without entries are gone.\<close>

lemma onDelete_states:
  assumes "range_order ord" and "gm_wf (mon_endpointStates w)"
  shows "gm_get (mon_endpointStates (pod_onDelete ord pod w)) b =
    (case gm_get (mon_endpointStates w) b of None \<Rightarrow> None
     | Some m \<Rightarrow> if gm_del (pod_UID pod) m = [] then None else Some (gm_del (pod_UID pod) m))"
proof -
  have "gm_wf (ord (mon_endpointStates w))" "map_of (ord (mon_endpointStates w)) = map_of (mon_endpointStates w)"
    using map_of_mset_eq [OF assms(2) range_order_mset [OF assms(1)]] by auto
  then show ?thesis
    by (simp add: pod_onDelete_def delete_loop_get gm_wf_def split: option.splits)
qed

text \<open>The health recorded for a pod and a backend.\<close>

definition state_at :: "endpoint_states \<Rightarrow> string \<Rightarrow> uid \<Rightarrow> bool option" where
  "state_at es backend u = gm_get (inner_at es backend) u"

lemma onDelete_state_at:
  assumes "range_order ord" and "gm_wf (mon_endpointStates w)"
  shows "state_at (mon_endpointStates (pod_onDelete ord pod w)) b u =
    (if u = pod_UID pod then None else state_at (mon_endpointStates w) b u)"
  by (auto simp: state_at_def inner_at_def onDelete_states [OF assms] gm_del_Nil_iff gomap_simps split: option.splits)

section \<open>The snapshot\<close>

definition target_of :: "uid \<times> Pod \<Rightarrow> ScrapeTarget" where
  "target_of = (\<lambda>(u, pod). \<lparr>st_UID = u, st_Name = om_Name (pod_ObjectMeta pod),
     st_Namespace = om_Namespace (pod_ObjectMeta pod), st_NodeName = pod_NodeName pod, st_IP = pod_PodIP pod\<rparr>)"

text \<open>The pods map is keyed by the pods' own identifiers.\<close>

definition pods_keyed :: "(uid, Pod) gomap \<Rightarrow> bool" where
  "pods_keyed pods \<longleftrightarrow> gm_wf pods \<and> (\<forall>u pod. gm_get pods u = Some pod \<longrightarrow> pod_UID pod = u)"

lemma targets_loop_get:
  assumes "distinct (map fst entries)" and "\<forall>(u, pod) \<in> set entries. pod_UID pod = u"
  shows "gm_get (targets_loop targets entries) u =
    (case gm_get entries u of None \<Rightarrow> gm_get targets u
     | Some pod \<Rightarrow> if pod_PodIP pod = '''' then gm_get targets u else Some (target_of (u, pod)))"
  using assms
proof (induction targets entries rule: targets_loop.induct)
  case (2 targets u' pod rest)
  then have "gm_get rest u' = None" by (simp add: map_of_eq_None_iff)
  with 2 show ?case by (auto simp: gomap_simps target_of_def split: option.splits)
qed simp

lemma targets_loop_wf: "gm_wf targets \<Longrightarrow> gm_wf (targets_loop targets entries)"
  by (induction targets entries rule: targets_loop.induct) auto

lemma take_snapshot_get:
  assumes ord: "range_order ord" and keyed: "pods_keyed (mon_pods w)"
  shows "gm_get (mon_scrapeTargets (take_snapshot ord w)) u =
    (case gm_get (mon_pods w) u of None \<Rightarrow> None
     | Some pod \<Rightarrow> if pod_PodIP pod = '''' then None else Some (target_of (u, pod)))"
proof -
  have wf: "gm_wf (mon_pods w)" using keyed by (simp add: pods_keyed_def)
  have perm: "gm_wf (ord (mon_pods w))" "map_of (ord (mon_pods w)) = map_of (mon_pods w)"
    using map_of_mset_eq [OF wf range_order_mset [OF ord]] by auto
  have "\<forall>(u, pod) \<in> set (ord (mon_pods w)). pod_UID pod = u"
    using keyed perm by (auto simp: pods_keyed_def gm_wf_entry)
  then show ?thesis
    using perm by (simp add: take_snapshot_def targets_loop_get gm_wf_def split: option.splits)
qed

section \<open>Scraping as a sequence of locked writes\<close>

type_synonym state_write = "string \<times> uid \<times> bool"

definition apply_write :: "endpoint_states \<Rightarrow> state_write \<Rightarrow> endpoint_states" where
  "apply_write es = (\<lambda>(backend, u, h). set_state backend u h es)"

definition write_uid :: "state_write \<Rightarrow> uid" where
  "write_uid = (\<lambda>(backend, u, h). u)"

definition metric_writes :: "ScrapeTarget \<Rightarrow> Metric \<Rightarrow> state_write list" where
  "metric_writes target metric =
     (let (state, backendName) = label_loop ('''', '''') (me_Label metric)
      in if state \<noteq> ''UP'' then []
         else case me_Gauge metric of None \<Rightarrow> [] | Some g \<Rightarrow> [(backendName, st_UID target, gt_zero g)])"

fun body_writes :: "ScrapeTarget \<Rightarrow> decode_item list \<Rightarrow> state_write list" where
  "body_writes target [] = []"
| "body_writes target (DecodeError e # _) = []"
| "body_writes target (Decoded mf # rest) =
     (if mf_Name mf = ''haproxy_backend_agg_server_status'' then concat (map (metric_writes target) (mf_Metric mf)) else [])
     @ body_writes target rest"

definition scrape_writes :: "(URL \<Rightarrow> goerror + Response) \<Rightarrow> HAProxyMonitor \<Rightarrow> ScrapeTarget \<Rightarrow> state_write list" where
  "scrape_writes httpGet w target =
     (case httpGet (metrics_url w target) of
        Inl e \<Rightarrow> []
      | Inr resp \<Rightarrow> if resp_StatusCode resp \<noteq> 200 then [] else body_writes target (resp_Body resp))"

lemma metric_step_writes: "metric_step target es metric = foldl apply_write es (metric_writes target metric)"
  by (auto simp: metric_step_def metric_writes_def apply_write_def split: prod.splits option.splits)

lemma metrics_writes:
  "foldl (metric_step target) es metrics = foldl apply_write es (concat (map (metric_writes target) metrics))"
  by (induction metrics arbitrary: es) (simp_all add: metric_step_writes)

lemma decode_loop_writes: "snd (decode_loop target es body) = foldl apply_write es (body_writes target body)"
  by (induction target es body rule: decode_loop.induct) (simp_all add: metrics_writes)

text \<open>A scrape is its writes, in order; the writes do not depend on the states.\<close>

lemma scrapeMetrics_writes:
  "snd (scrapeMetrics httpGet w target) =
     w\<lparr>mon_endpointStates := foldl apply_write (mon_endpointStates w) (scrape_writes httpGet w target)\<rparr>"
  by (auto simp: scrapeMetrics_def scrape_writes_def decode_loop_writes [symmetric] split: sum.splits prod.splits)

lemma metric_writes_uid: "x \<in> set (metric_writes target metric) \<Longrightarrow> write_uid x = st_UID target"
  by (auto simp: metric_writes_def write_uid_def split: prod.splits option.splits if_splits)

lemma body_writes_uid: "x \<in> set (body_writes target body) \<Longrightarrow> write_uid x = st_UID target"
  by (induction target body rule: body_writes.induct) (auto dest: metric_writes_uid split: if_splits)

lemma scrape_writes_uid: "x \<in> set (scrape_writes httpGet w target) \<Longrightarrow> write_uid x = st_UID target"
  by (auto simp: scrape_writes_def dest: body_writes_uid split: sum.splits if_splits)

lemma scrape_writes_frame [simp]: "scrape_writes httpGet (w\<lparr>mon_endpointStates := es\<rparr>) = scrape_writes httpGet w"
  by (rule ext) (simp add: scrape_writes_def metrics_url_def)

lemma set_state_get: "state_at (set_state b u h es) b' u' = (if b' = b \<and> u' = u then Some h else state_at es b' u')"
  by (auto simp: set_state_def state_at_def inner_at_def Let_def gomap_simps split: option.splits)

lemma apply_write_get: "state_at (apply_write es x) b u =
    (case x of (b', u', h) \<Rightarrow> if b = b' \<and> u = u' then Some h else state_at es b u)"
  by (auto simp: apply_write_def set_state_get split: prod.splits)

text \<open>What is recorded for a pod depends only on the writes for that pod, in their order.\<close>

lemma writes_by_uid:
  assumes "\<And>b. state_at es b u = state_at es' b u"
  shows "state_at (foldl apply_write es ws) b u =
    state_at (foldl apply_write es' (filter (\<lambda>x. write_uid x = u) ws)) b u"
  using assms
proof (induction ws arbitrary: es es')
  case (Cons x ws)
  show ?case
  proof (cases "write_uid x = u")
    case True
    have "\<And>b. state_at (apply_write es x) b u = state_at (apply_write es' x) b u"
      using Cons.prems by (simp add: apply_write_get split: prod.splits)
    from Cons.IH [OF this] True show ?thesis by simp
  next
    case False
    then have "\<And>b. state_at (apply_write es x) b u = state_at es' b u"
      using Cons.prems by (auto simp: apply_write_get write_uid_def split: prod.splits)
    from Cons.IH [OF this] False show ?thesis by simp
  qed
qed simp

text \<open>An interleaving of the goroutines: each pod's writes in their order, the pods mixed in any way.\<close>

definition interleaving :: "state_write list list \<Rightarrow> state_write list \<Rightarrow> bool" where
  "interleaving wss ws \<longleftrightarrow> (\<forall>u. filter (\<lambda>x. write_uid x = u) ws = filter (\<lambda>x. write_uid x = u) (concat wss))"

lemma interleaving_states:
  assumes "interleaving wss ws"
  shows "state_at (foldl apply_write es ws) b u = state_at (foldl apply_write es (concat wss)) b u"
  using writes_by_uid [of es u es ws b] writes_by_uid [of es u es "concat wss" b] assms
  by (simp add: interleaving_def)

text \<open>The reference: scraping the targets one after the other.\<close>

definition scrape_all :: "(URL \<Rightarrow> goerror + Response) \<Rightarrow> HAProxyMonitor \<Rightarrow> ScrapeTarget list \<Rightarrow> HAProxyMonitor" where
  "scrape_all httpGet w targets = foldl (\<lambda>w t. snd (scrapeMetrics httpGet w t)) w targets"

lemma scrape_all_writes:
  "scrape_all httpGet w targets =
     w\<lparr>mon_endpointStates := foldl apply_write (mon_endpointStates w) (concat (map (scrape_writes httpGet w) targets))\<rparr>"
  by (induction targets arbitrary: w) (simp_all add: scrape_all_def scrapeMetrics_writes)

section \<open>The consolidated states\<close>

text \<open>One entry per backend and per pod, and no backend without entries.\<close>

definition states_wf :: "endpoint_states \<Rightarrow> bool" where
  "states_wf es \<longleftrightarrow> gm_wf es \<and> (\<forall>b m. gm_get es b = Some m \<longrightarrow> gm_wf m \<and> m \<noteq> [])"

lemma gm_put_new: "gm_get m k = None \<Longrightarrow> gm_put k v m = m @ [(k, v)]"
  by (induction m) (auto split: if_splits)

lemma inner_at_put [gomap_simps]: "inner_at (gm_put b m es) b' = (if b' = b then m else inner_at es b')"
  by (simp add: inner_at_def gomap_simps)

lemma consolidate_inner_get:
  assumes "distinct (map fst (inner_at c b @ rest))"
  shows "gm_get (consolidate_inner b c rest) b' =
    (if b' = b \<and> rest \<noteq> [] then Some (inner_at c b @ rest) else gm_get c b')"
  using assms
proof (induction rest arbitrary: c)
  case (Cons entry rest)
  obtain u isUp where entry: "entry = (u, isUp)" by (cases entry)
  let ?c = "if gm_get c b = None then gm_put b [] c else c"
  have inner: "inner_at ?c b = inner_at c b"
    by (simp add: inner_at_def gomap_simps)
  have new: "gm_get (inner_at c b) u = None"
    using Cons.prems entry by (auto simp: map_of_eq_None_iff)
  let ?d = "gm_put b (inner_at c b @ [(u, isUp)]) ?c"
  have step: "consolidate_inner b c (entry # rest) = consolidate_inner b ?d rest"
    using inner new by (simp add: entry Let_def gm_put_new [OF new])
  have "gm_get (consolidate_inner b ?d rest) b' =
      (if b' = b \<and> rest \<noteq> [] then Some (inner_at ?d b @ rest) else gm_get ?d b')"
    using Cons.prems entry by (intro Cons.IH) (simp add: inner_at_put)
  then show ?case
    unfolding step by (auto simp: inner_at_put gomap_simps entry)
qed simp

lemma consolidate_outer_get:
  assumes "distinct (map fst es)" and "\<forall>b m. (b, m) \<in> set es \<longrightarrow> gm_wf m \<and> m \<noteq> [] \<and> gm_get c b = None"
    and ord: "\<forall>b. range_order (ord_uids ord b)"
  shows "gm_get (consolidate_outer ord c es) b =
    (case gm_get es b of None \<Rightarrow> gm_get c b | Some m \<Rightarrow> Some (ord_uids ord b m))"
  using assms(1,2)
proof (induction es arbitrary: c)
  case (Cons e rest)
  obtain b' m where e: "e = (b', m)" by (cases e)
  have m: "gm_wf m" "m \<noteq> []" "gm_get c b' = None" using Cons.prems(2) e by auto
  have perm: "mset (ord_uids ord b' m) = mset m"
    using ord by (simp add: range_order_mset)
  have "distinct (map fst (ord_uids ord b' m))"
    using map_of_mset_eq(1) [OF m(1) perm] by (simp add: gm_wf_def)
  moreover have "ord_uids ord b' m \<noteq> []"
    using perm m(2) by auto
  ultimately have inner: "gm_get (consolidate_inner b' c (ord_uids ord b' m)) n =
      (if n = b' then Some (ord_uids ord b' m) else gm_get c n)" for n
    by (simp add: consolidate_inner_get inner_at_def m(3))
  have fresh: "b' \<notin> fst ` set rest" using Cons.prems(1) e by simp
  then have "\<forall>b m'. (b, m') \<in> set rest \<longrightarrow> gm_wf m' \<and> m' \<noteq> [] \<and>
      gm_get (consolidate_inner b' c (ord_uids ord b' m)) b = None"
    using Cons.prems(2) inner by force
  then have "gm_get (consolidate_outer ord (consolidate_inner b' c (ord_uids ord b' m)) rest) b =
      (case gm_get rest b of None \<Rightarrow> gm_get (consolidate_inner b' c (ord_uids ord b' m)) b
       | Some m \<Rightarrow> Some (ord_uids ord b m))"
    using Cons.prems(1) e by (intro Cons.IH) simp_all
  moreover have "gm_get rest b' = None" using fresh by (simp add: map_of_eq_None_iff)
  ultimately show ?case using inner e by (auto split: option.splits)
qed simp

lemma consolidated_get:
  assumes "states_wf (mon_endpointStates w)" and "orders_ok ord"
  shows "gm_get (consolidated ord w) b = map_option (ord_uids ord b) (gm_get (mon_endpointStates w) b)"
proof -
  let ?es = "mon_endpointStates w"
  have perm: "gm_wf (ord_states ord ?es)" "map_of (ord_states ord ?es) = map_of ?es"
    using map_of_mset_eq [of ?es "ord_states ord ?es"] assms
    by (simp_all add: states_wf_def orders_ok_def range_order_mset)
  have "\<forall>b m. (b, m) \<in> set (ord_states ord ?es) \<longrightarrow> gm_wf m \<and> m \<noteq> []"
    using assms(1) perm by (simp add: states_wf_def gm_wf_entry)
  then show ?thesis
    using perm assms(2) consolidate_outer_get [of "ord_states ord ?es" "[]" ord b]
    by (simp add: consolidated_def gm_wf_def orders_ok_def split: option.splits)
qed

section \<open>The endpoints of a frontend\<close>

definition selects :: "'w kube \<Rightarrow> Frontend \<Rightarrow> Backend \<Rightarrow> bool" where
  "selects k fe be =
     (case LabelSelectorAsSelector k (fes_BackendSelector (fe_Spec fe)) of Inl e \<Rightarrow> False | Inr sel \<Rightarrow> sel (be_Labels be))"

lemma append_loop_get:
  "gm_get (append_loop w key fs entries) n =
     (if n = key \<and> entries \<noteq> [] then Some (slice_at fs key @ map (endpoint_of w) entries) else gm_get fs n)"
proof (induction entries arbitrary: fs)
  case (Cons e entries)
  then show ?case by (auto simp: gomap_simps slice_at_def)
qed simp

lemma append_loop_wf: "gm_wf fs \<Longrightarrow> gm_wf (append_loop w key fs entries)"
  by (induction entries arbitrary: fs) auto

lemma pair_step_get:
  "gm_get (pair_step k ord w be m fs fe) n =
     (if selects k fe be \<and> n = fe_key fe
      then Some (slice_at fs n @ map (endpoint_of w) (ord_endpoints ord be fe m)) else gm_get fs n)"
  by (auto simp: pair_step_def selects_def append_loop_get slice_at_def meta_key_def gomap_simps Let_def
      split: sum.splits option.splits)

lemma pair_step_wf: "gm_wf fs \<Longrightarrow> gm_wf (pair_step k ord w be m fs fe)"
  by (auto simp: pair_step_def Let_def intro: append_loop_wf split: sum.splits)

text \<open>The pairs the nested loops visit: backends with data, each with every frontend.\<close>

definition data_at :: "orders \<Rightarrow> HAProxyMonitor \<Rightarrow> Backend \<Rightarrow> (uid, bool) gomap" where
  "data_at ord w be = inner_at (consolidated ord w) (be_Name be)"

definition visited :: "orders \<Rightarrow> HAProxyMonitor \<Rightarrow> Backend list \<Rightarrow> Frontend list \<Rightarrow> (Backend \<times> Frontend) list" where
  "visited ord w backends frontends = concat (map (\<lambda>be. map (\<lambda>fe. (be, fe)) frontends)
     (filter (\<lambda>be. gm_get (consolidated ord w) (be_Name be) \<noteq> None) backends))"

definition visit :: "'w kube \<Rightarrow> orders \<Rightarrow> HAProxyMonitor \<Rightarrow> frontend_states \<Rightarrow> Backend \<times> Frontend \<Rightarrow> frontend_states" where
  "visit k ord w fs = (\<lambda>(be, fe). pair_step k ord w be (data_at ord w be) fs fe)"

lemma foldl_frontends:
  "foldl (pair_step k ord w be (data_at ord w be)) fs frontends = foldl (visit k ord w) fs (map (\<lambda>fe. (be, fe)) frontends)"
  by (induction frontends arbitrary: fs) (simp_all add: visit_def)

lemma frontendEndpointStates_visits:
  "frontendEndpointStates k ord w backends frontends = foldl (visit k ord w) [] (visited ord w backends frontends)"
proof -
  have "foldl (backend_step k ord w frontends) fs backends = foldl (visit k ord w) fs (visited ord w backends frontends)" for fs
  proof (induction backends arbitrary: fs)
    case (Cons be backends)
    show ?case
    proof (cases "gm_get (consolidated ord w) (be_Name be)")
      case None
      then show ?thesis using Cons by (simp add: visited_def backend_step_def)
    next
      case (Some m)
      then have "data_at ord w be = m" by (simp add: data_at_def inner_at_def)
      with Some show ?thesis
        using Cons foldl_frontends [of k ord w be fs frontends] by (simp add: visited_def backend_step_def)
    qed
  qed (simp add: visited_def)
  then show ?thesis by (simp add: frontendEndpointStates_def)
qed

text \<open>The visits that concern a frontend, and what they append.\<close>

definition hits :: "'w kube \<Rightarrow> NamespacedName \<Rightarrow> (Backend \<times> Frontend) list \<Rightarrow> (Backend \<times> Frontend) list" where
  "hits k n ps = filter (\<lambda>(be, fe). selects k fe be \<and> fe_key fe = n) ps"

lemma visits_get:
  "gm_get (foldl (visit k ord w) fs ps) n =
     (if hits k n ps = [] then gm_get fs n
      else Some (slice_at fs n @ concat (map (\<lambda>(be, fe). map (endpoint_of w) (ord_endpoints ord be fe (data_at ord w be))) (hits k n ps))))"
proof (induction ps arbitrary: fs)
  case (Cons p ps)
  obtain be fe where p: "p = (be, fe)" by (cases p)
  show ?case
    using Cons by (auto simp: p visit_def hits_def pair_step_get slice_at_def)
qed (simp add: hits_def)

lemma visits_wf: "gm_wf fs \<Longrightarrow> gm_wf (foldl (visit k ord w) fs ps)"
  by (induction ps arbitrary: fs) (auto simp: visit_def pair_step_wf split: prod.splits)

lemma frontendEndpointStates_wf: "gm_wf (frontendEndpointStates k ord w backends frontends)"
  by (simp add: frontendEndpointStates_visits visits_wf)

text \<open>
  The specification, without orders: the pods recorded for every listed backend that the frontend
  selects.
\<close>

definition spec_hits :: "'w kube \<Rightarrow> HAProxyMonitor \<Rightarrow> Backend list \<Rightarrow> Frontend list \<Rightarrow> NamespacedName \<Rightarrow> (Backend \<times> Frontend) list" where
  "spec_hits k w backends frontends n = [(be, fe). be \<leftarrow> backends, fe \<leftarrow> frontends,
     gm_get (mon_endpointStates w) (be_Name be) \<noteq> None \<and> selects k fe be \<and> fe_key fe = n]"

definition spec_endpoints :: "'w kube \<Rightarrow> HAProxyMonitor \<Rightarrow> Backend list \<Rightarrow> Frontend list \<Rightarrow> NamespacedName \<Rightarrow> Endpoint list" where
  "spec_endpoints k w backends frontends n = concat (map (\<lambda>(be, fe).
     map (endpoint_of w) (inner_at (mon_endpointStates w) (be_Name be))) (spec_hits k w backends frontends n))"

lemma hits_visited:
  assumes "states_wf (mon_endpointStates w)" and "orders_ok ord"
  shows "hits k n (visited ord w backends frontends) = spec_hits k w backends frontends n"
proof -
  have inner: "filter (\<lambda>(be, fe). selects k fe be \<and> fe_key fe = n) (map (\<lambda>fe. (be, fe)) frontends)
      = [(be, fe). fe \<leftarrow> frontends, selects k fe be \<and> fe_key fe = n]" for be
    by (induction frontends) auto
  show ?thesis
    by (induction backends)
      (auto simp: hits_def visited_def spec_hits_def consolidated_get [OF assms] inner)
qed

lemma data_at_mset:
  assumes "states_wf (mon_endpointStates w)" and "orders_ok ord"
  shows "mset (data_at ord w be) = mset (inner_at (mon_endpointStates w) (be_Name be))"
  using assms
  by (auto simp: data_at_def inner_at_def consolidated_get [OF assms] orders_ok_def range_order_mset split: option.splits)

lemma mset_concat_cong: "(\<And>x. x \<in> set xs \<Longrightarrow> mset (f x) = mset (g x)) \<Longrightarrow> mset (concat (map f xs)) = mset (concat (map g xs))"
  by (induction xs) simp_all

lemma frontendEndpointStates_get:
  assumes wf: "states_wf (mon_endpointStates w)" and ord: "orders_ok ord"
  shows "map_option mset (gm_get (frontendEndpointStates k ord w backends frontends) n) =
    (if spec_hits k w backends frontends n = [] then None
     else Some (mset (spec_endpoints k w backends frontends n)))"
proof -
  let ?ps = "spec_hits k w backends frontends n"
  have "mset (concat (map (\<lambda>(be, fe). map (endpoint_of w) (ord_endpoints ord be fe (data_at ord w be))) ?ps))
      = mset (concat (map (\<lambda>(be, fe). map (endpoint_of w) (inner_at (mon_endpointStates w) (be_Name be))) ?ps))"
    using ord by (intro mset_concat_cong)
      (auto simp: data_at_mset [OF wf ord] range_order_mset orders_ok_def)
  then show ?thesis
    by (simp add: frontendEndpointStates_visits visits_get hits_visited [OF wf ord] slice_at_def spec_endpoints_def)
qed

text \<open>Deleting a pod keeps the states well formed.\<close>

lemma onDelete_states_wf:
  assumes "range_order ord" and "states_wf (mon_endpointStates mon)"
  shows "states_wf (mon_endpointStates (pod_onDelete ord pod mon))"
proof -
  have wf: "gm_wf (mon_endpointStates mon)" using assms(2) by (simp add: states_wf_def)
  have "gm_wf (mon_endpointStates (pod_onDelete ord pod mon))"
    using wf by (simp add: pod_onDelete_def delete_loop_wf)
  moreover have "gm_wf m \<and> m \<noteq> []" if "gm_get (mon_endpointStates (pod_onDelete ord pod mon)) b = Some m" for b m
    using that assms(2) by (auto simp: onDelete_states [OF assms(1) wf] states_wf_def split: option.splits if_splits)
  ultimately show ?thesis by (simp add: states_wf_def)
qed

section \<open>Properties\<close>

text \<open>
  C34: handling the deletion of a selected pod removes it from the tracked pods and from the states of
  every backend, drops the backends left without pods, keeps the states of all other pods, and keeps
  the maps well formed; the order in which the loop visits the backends does not matter.
\<close>

theorem onDelete_forgets:
  assumes "range_order ord" and "states_wf (mon_endpointStates w)" and "mon_selector w (pod_Labels pod)"
    and "w' = mon_handle ord (PodDeleted (Obj pod)) w"
  shows "gm_get (mon_pods w') (pod_UID pod) = None \<and> states_wf (mon_endpointStates w')
    \<and> (\<forall>b u. state_at (mon_endpointStates w') b u = (if u = pod_UID pod then None else state_at (mon_endpointStates w) b u))"
proof -
  have w': "w' = pod_onDelete ord pod w" using assms(3,4) pod_events.filt_hit by simp
  have wf: "gm_wf (mon_endpointStates w)" using assms(2) by (simp add: states_wf_def)
  have "gm_get (mon_pods w') (pod_UID pod) = None" by (simp add: w' pod_onDelete_def gomap_simps)
  then show ?thesis
    using onDelete_state_at [OF assms(1) wf] onDelete_states_wf [OF assms(1,2)] by (simp add: w')
qed

definition sample_pod :: "string \<Rightarrow> string \<Rightarrow> Pod" where
  "sample_pod u ip = \<lparr>pod_ObjectMeta = (named_meta u ''glb'')\<lparr>om_UID := u,
     om_Labels := [(''app.kubernetes.io/name'', ''global-load-balancer'')]\<rparr>, pod_NodeName = ''n1'', pod_PodIP = ip\<rparr>"

definition sample_monitor :: "(uid, Pod) gomap \<Rightarrow> endpoint_states \<Rightarrow> HAProxyMonitor" where
  "sample_monitor pods states = \<lparr>mon_namespace = ''glb'', mon_selector = (\<lambda>_. True), mon_pods = pods, mon_scrapeTargets = [],
     mon_endpointStates = states, mon_metricsPort = 8405, mon_metricsPath = ''/'', mon_interval = 5\<rparr>"

lemma sample_states_wf: "states_wf [(''b'', [(''u1'', True), (''u2'', False)])]"
  by (simp add: states_wf_def gm_wf_def)

lemma sample_monitor_sel [simp]: "mon_endpointStates (sample_monitor pods states) = states"
  "mon_selector (sample_monitor pods states) = (\<lambda>_. True)"
  by (simp_all add: sample_monitor_def)

theorem onDelete_forgets_witness:
  "state_at (mon_endpointStates (mon_handle rev (PodDeleted (Obj (sample_pod ''u1'' ''10.1.0.1'')))
     (sample_monitor [(''u1'', sample_pod ''u1'' ''10.1.0.1'')] [(''b'', [(''u1'', True), (''u2'', False)])])))
     ''b'' (pod_UID (sample_pod ''u1'' ''10.1.0.1'')) = None"
proof -
  have "states_wf (mon_endpointStates (sample_monitor [(''u1'', sample_pod ''u1'' ''10.1.0.1'')] [(''b'', [(''u1'', True), (''u2'', False)])]))"
    using sample_states_wf by (simp only: sample_monitor_sel)
  moreover have "mon_selector (sample_monitor pods states) ls" for pods states ls by simp
  ultimately show ?thesis
    using onDelete_forgets [OF range_order_id(3) _ _ refl, of "sample_monitor [(''u1'', sample_pod ''u1'' ''10.1.0.1'')]
        [(''b'', [(''u1'', True), (''u2'', False)])]" "sample_pod ''u1'' ''10.1.0.1''"] by presburger
qed

text \<open>
  C33: a scrape changes nothing but the states of the scraped pod, and a scrape that gets no response or a
  status other than 200 returns an error and changes nothing at all.
\<close>

theorem scrapeMetrics_frame:
  assumes "scrapeMetrics httpGet w target = (err, w')"
  shows "(\<exists>es. w' = w\<lparr>mon_endpointStates := es\<rparr>)
    \<and> (\<forall>b u. u \<noteq> st_UID target \<longrightarrow> state_at (mon_endpointStates w') b u = state_at (mon_endpointStates w) b u)
    \<and> ((\<forall>body. httpGet (metrics_url w target) \<noteq> Inr \<lparr>resp_StatusCode = 200, resp_Body = body\<rparr>) \<longrightarrow> err \<noteq> None \<and> w' = w)"
proof -
  have w': "w' = w\<lparr>mon_endpointStates := foldl apply_write (mon_endpointStates w) (scrape_writes httpGet w target)\<rparr>"
    using scrapeMetrics_writes [of httpGet w target] assms by simp
  have "filter (\<lambda>x. write_uid x = u) (scrape_writes httpGet w target) = []" if "u \<noteq> st_UID target" for u
    using that scrape_writes_uid by (auto simp: filter_empty_conv)
  then have frame: "state_at (mon_endpointStates w') b u = state_at (mon_endpointStates w) b u" if "u \<noteq> st_UID target" for b u
    using that writes_by_uid [of "mon_endpointStates w" u "mon_endpointStates w" "scrape_writes httpGet w target" b] by (simp add: w')
  have "err \<noteq> None \<and> w' = w" if "\<forall>body. httpGet (metrics_url w target) \<noteq> Inr \<lparr>resp_StatusCode = 200, resp_Body = body\<rparr>"
  proof (cases "httpGet (metrics_url w target)")
    case (Inl e)
    then show ?thesis using assms by (auto simp: scrapeMetrics_def)
  next
    case (Inr resp)
    then have "resp_StatusCode resp \<noteq> 200" using that by (cases resp) auto
    with Inr show ?thesis using assms by (auto simp: scrapeMetrics_def)
  qed
  with w' frame show ?thesis by blast
qed

theorem scrapeMetrics_frame_witness:
  "snd (scrapeMetrics (\<lambda>_. Inr \<lparr>resp_StatusCode = 503, resp_Body = []\<rparr>) (sample_monitor [] [(''b'', [(''u1'', True)])])
     (target_of (''u1'', sample_pod ''u1'' ''10.1.0.1''))) = sample_monitor [] [(''b'', [(''u1'', True)])]"
  using scrapeMetrics_frame [OF surjective_pairing, of "\<lambda>_. Inr \<lparr>resp_StatusCode = 503, resp_Body = []\<rparr>"
      "sample_monitor [] [(''b'', [(''u1'', True)])]" "target_of (''u1'', sample_pod ''u1'' ''10.1.0.1'')"]
  by simp

definition up_gauges :: "string \<Rightarrow> decode_item list \<Rightarrow> float64 list" where
  "up_gauges backend body = concat (map (\<lambda>item. case item of
     DecodeError e \<Rightarrow> []
   | Decoded mf \<Rightarrow> if mf_Name mf = ''haproxy_backend_agg_server_status''
       then List.map_filter (\<lambda>me. if label_loop ('''', '''') (me_Label me) = (''UP'', backend) then me_Gauge me else None) (mf_Metric mf)
       else []) (takeWhile (\<lambda>item. case item of Decoded mf \<Rightarrow> True | _ \<Rightarrow> False) body))"

lemma metrics_state:
  "state_at (foldl apply_write es (concat (map (metric_writes target) ms))) b (st_UID target) =
     fold (\<lambda>g _. Some (gt_zero g))
       (List.map_filter (\<lambda>me. if label_loop ('''', '''') (me_Label me) = (''UP'', b) then me_Gauge me else None) ms)
       (state_at es b (st_UID target))"
proof (induction ms arbitrary: es)
  case (Cons me ms)
  obtain state proxy where lab: "label_loop ('''', '''') (me_Label me) = (state, proxy)" by fastforce
  have "state_at (foldl apply_write es (metric_writes target me)) b (st_UID target) =
      (if state = ''UP'' \<and> proxy = b then case me_Gauge me of None \<Rightarrow> state_at es b (st_UID target) | Some g \<Rightarrow> Some (gt_zero g)
       else state_at es b (st_UID target))"
    by (auto simp: metric_writes_def lab apply_write_get split: option.splits)
  then show ?case
    using Cons by (auto simp: lab List.map_filter_simps split: option.splits)
qed (simp add: List.map_filter_simps)

lemma body_state:
  "state_at (foldl apply_write es (body_writes target body)) b (st_UID target) =
     fold (\<lambda>g _. Some (gt_zero g)) (up_gauges b body) (state_at es b (st_UID target))"
  by (induction target body arbitrary: es rule: body_writes.induct) (auto simp: up_gauges_def metrics_state)

text \<open>
  C32: what a successful scrape records for the scraped pod and a backend is decided by the last
  metric of family haproxy_backend_agg_server_status with state UP, a gauge and that backend as its
  proxy; without such a metric the recorded state stays as it is.
\<close>

theorem scrapeMetrics_records:
  assumes "httpGet (metrics_url w target) = Inr \<lparr>resp_StatusCode = 200, resp_Body = body\<rparr>"
  shows "state_at (mon_endpointStates (snd (scrapeMetrics httpGet w target))) b (st_UID target) =
    (if up_gauges b body = [] then state_at (mon_endpointStates w) b (st_UID target)
     else Some (gt_zero (last (up_gauges b body))))"
proof -
  have "fold (\<lambda>g _. Some (gt_zero g)) gs s = (if gs = [] then s else Some (gt_zero (last gs)))" for gs s
    by (induction gs arbitrary: s) auto
  then show ?thesis by (simp add: scrapeMetrics_writes scrape_writes_def assms body_state)
qed

definition sample_body :: "decode_item list" where
  "sample_body = [Decoded \<lparr>mf_Name = ''haproxy_backend_agg_server_status'',
     mf_Metric = [\<lparr>me_Label = [(''proxy'', ''b''), (''state'', ''UP'')], me_Gauge = Some (Finite 1)\<rparr>]\<rparr>]"

theorem scrapeMetrics_records_witness:
  "state_at (mon_endpointStates (snd (scrapeMetrics (\<lambda>_. Inr \<lparr>resp_StatusCode = 200, resp_Body = sample_body\<rparr>)
     (sample_monitor [] []) (target_of (''u1'', sample_pod ''u1'' ''10.1.0.1''))))) ''b'' ''u1'' = Some True"
  using scrapeMetrics_records [of "\<lambda>_. Inr \<lparr>resp_StatusCode = 200, resp_Body = sample_body\<rparr>" "sample_monitor [] []"
      "target_of (''u1'', sample_pod ''u1'' ''10.1.0.1'')" sample_body "''b''"]
  by (simp add: target_of_def up_gauges_def sample_body_def List.map_filter_simps)

end
