(* ===== verification/Monitor_System.thy ===== *)
theory Monitor_System
  imports Monitor
begin

text \<open>
  The monitor as a transition system. The loop of \<^verbatim>\<open>Start\<close> takes a snapshot on a tick, starts one
  goroutine per target, waits for all of them and reports; informer callbacks run at any time
  in between, each under the lock. One rule per locked section, so every interleaving the
  locks allow is a run of the system. A report is one rule here; \<open>Operator_System\<close> cuts it at its calls.
\<close>

section \<open>The system\<close>

text \<open>Where the loop of \<^verbatim>\<open>Start\<close> is; while scraping, the writes each goroutine still has to make.\<close>

datatype phase = Idle | Scraping "state_write list list" | Updating | Stopped

record mon_sys =
  sys_mon :: HAProxyMonitor
  sys_hm :: HealthManager
  sys_phase :: phase

definition mon_init :: "'w kube \<Rightarrow> mon_sys \<Rightarrow> bool" where
  "mon_init k s \<longleftrightarrow> (\<exists>namespace metricsPort metricsPath interval.
     NewHAProxyMonitor k namespace metricsPort metricsPath interval = Inr (sys_mon s)
     \<and> sys_hm s = NewHealthManager NewHealthCache \<and> sys_phase s = Idle)"

inductive mon_step :: "'w kube \<Rightarrow> mon_sys \<Rightarrow> mon_sys \<Rightarrow> bool" for k where
  informer: "range_order ord \<Longrightarrow> mon_step k s (s\<lparr>sys_mon := mon_handle ord ev (sys_mon s)\<rparr>)"
| tick: "sys_phase s = Idle \<Longrightarrow> range_order ord \<Longrightarrow> mon = take_snapshot ord (sys_mon s) \<Longrightarrow>
    mon_step k s (s\<lparr>sys_mon := mon,
      sys_phase := Scraping (map (\<lambda>(u, t). scrape_writes httpGet mon t) (mon_scrapeTargets mon))\<rparr>)"
| scrape_write: "sys_phase s = Scraping (xs @ (x # ws) # ys) \<Longrightarrow>
    mon_step k s (s\<lparr>sys_mon := (sys_mon s)\<lparr>mon_endpointStates := apply_write (mon_endpointStates (sys_mon s)) x\<rparr>,
      sys_phase := Scraping (xs @ ws # ys)\<rparr>)"
| wait_all: "sys_phase s = Scraping wss \<Longrightarrow> \<forall>ws \<in> set wss. ws = [] \<Longrightarrow> mon_step k s (s\<lparr>sys_phase := Updating\<rparr>)"
| report: "sys_phase s = Updating \<Longrightarrow> orders_ok ord \<Longrightarrow>
    updateHealthManager k ord ready (sys_mon s) (sys_hm s) world = (Inr hm, world') \<Longrightarrow>
    mon_step k s (s\<lparr>sys_hm := hm, sys_phase := Idle\<rparr>)"
| report_failed: "sys_phase s = Updating \<Longrightarrow>
    updateHealthManager k ord ready (sys_mon s) (sys_hm s) world = (Inl (Err e), world') \<Longrightarrow>
    mon_step k s (s\<lparr>sys_phase := Idle\<rparr>)"
| stop: "sys_phase s = Idle \<Longrightarrow> mon_step k s (s\<lparr>sys_phase := Stopped\<rparr>)"

inductive_cases mon_stepE: "mon_step k s t"

section \<open>The invariant\<close>

text \<open>The tracked pods are keyed by their identifier and carry the selected label.\<close>

definition pods_ok :: "HAProxyMonitor \<Rightarrow> bool" where
  "pods_ok mon \<longleftrightarrow> pods_keyed (mon_pods mon)
     \<and> (\<forall>u pod. gm_get (mon_pods mon) u = Some pod \<longrightarrow> mon_selector mon (pod_Labels pod))"

text \<open>The targets are keyed by their identifier and have an address.\<close>

definition targets_ok :: "HAProxyMonitor \<Rightarrow> bool" where
  "targets_ok mon \<longleftrightarrow> gm_wf (mon_scrapeTargets mon)
     \<and> (\<forall>u t. gm_get (mon_scrapeTargets mon) u = Some t \<longrightarrow> st_UID t = u \<and> st_IP t \<noteq> '''')"

text \<open>A goroutine only writes the entries of a target of the current snapshot.\<close>

definition pending_ok :: "mon_sys \<Rightarrow> bool" where
  "pending_ok s \<longleftrightarrow> (\<forall>wss. sys_phase s = Scraping wss \<longrightarrow>
     (\<forall>ws \<in> set wss. \<forall>x \<in> set ws. gm_get (mon_scrapeTargets (sys_mon s)) (write_uid x) \<noteq> None))"

definition sys_inv :: "mon_sys \<Rightarrow> bool" where
  "sys_inv s \<longleftrightarrow> pods_ok (sys_mon s) \<and> targets_ok (sys_mon s)
     \<and> states_wf (mon_endpointStates (sys_mon s)) \<and> pending_ok s"

subsection \<open>Informer callbacks\<close>

lemma onAdd_pods_ok: "pods_ok mon \<Longrightarrow> mon_selector mon (pod_Labels pod) \<Longrightarrow> pods_ok (pod_onAdd pod mon)"
  by (auto simp: pods_ok_def pods_keyed_def pod_onAdd_def gomap_simps split: if_splits)

lemma onUpdate_pods_ok: "pods_ok mon \<Longrightarrow> mon_selector mon (pod_Labels pod) \<Longrightarrow> pods_ok (pod_onUpdate old pod mon)"
  by (auto simp: pods_ok_def pods_keyed_def pod_onUpdate_def gomap_simps split: if_splits)

lemma onDelete_pods_ok: "pods_ok mon \<Longrightarrow> pods_ok (pod_onDelete ord pod mon)"
  by (auto simp: pods_ok_def pods_keyed_def pod_onDelete_def gomap_simps split: if_splits)

text \<open>What an informer event leaves as it is.\<close>

lemma mon_handle_frame [simp]:
  "mon_scrapeTargets (mon_handle ord ev mon) = mon_scrapeTargets mon"
  "mon_selector (mon_handle ord ev mon) = mon_selector mon"
  "mon_namespace (mon_handle ord ev mon) = mon_namespace mon"
proof -
  have "mon_scrapeTargets (mon_handle ord ev mon) = mon_scrapeTargets mon
      \<and> mon_selector (mon_handle ord ev mon) = mon_selector mon
      \<and> mon_namespace (mon_handle ord ev mon) = mon_namespace mon"
    by (cases ev) (auto simp: pod_onAdd_def pod_onUpdate_def pod_onDelete_def pod_filter_def pod_filterUpdate_def
        split: any.splits)
  then show "mon_scrapeTargets (mon_handle ord ev mon) = mon_scrapeTargets mon"
    "mon_selector (mon_handle ord ev mon) = mon_selector mon"
    "mon_namespace (mon_handle ord ev mon) = mon_namespace mon" by auto
qed

lemma mon_handle_pods_ok: "pods_ok mon \<Longrightarrow> pods_ok (mon_handle ord ev mon)"
  by (cases ev)
    (simp_all add: pod_filter_def pod_filterUpdate_def onAdd_pods_ok onUpdate_pods_ok onDelete_pods_ok split: any.splits)

lemma mon_handle_states_wf:
  assumes "range_order ord" and "states_wf (mon_endpointStates mon)"
  shows "states_wf (mon_endpointStates (mon_handle ord ev mon))"
proof (cases ev)
  case (PodDeleted obj)
  then show ?thesis
    using assms pod_events.filt_inv [of "\<lambda>m. states_wf (mon_endpointStates m)" mon "mon_selector mon" "pod_onDelete ord" obj]
    by (simp add: onDelete_states_wf)
qed (use assms in \<open>auto simp: pod_onAdd_def pod_onUpdate_def pod_filter_def pod_filterUpdate_def split: any.splits\<close>)

subsection \<open>Ticks and writes\<close>

lemma take_snapshot_targets_ok:
  assumes "range_order ord" and "pods_ok mon"
  shows "targets_ok (take_snapshot ord mon)"
proof -
  have "pods_keyed (mon_pods mon)" using assms(2) by (simp add: pods_ok_def)
  then show ?thesis
    using take_snapshot_get [OF assms(1)]
    by (auto simp: targets_ok_def take_snapshot_def targets_loop_wf target_of_def split: option.splits if_splits)
qed

lemma take_snapshot_frame [simp]:
  "mon_pods (take_snapshot ord mon) = mon_pods mon" "mon_selector (take_snapshot ord mon) = mon_selector mon"
  "mon_endpointStates (take_snapshot ord mon) = mon_endpointStates mon"
  by (simp_all add: take_snapshot_def)

lemma set_state_wf: "states_wf es \<Longrightarrow> states_wf (set_state b u h es)"
  by (auto simp: states_wf_def set_state_def inner_at_def Let_def gomap_simps update_nonempty gm_wf_def distinct_update
      split: if_splits option.splits)

lemma apply_write_wf: "states_wf es \<Longrightarrow> states_wf (apply_write es x)"
  by (simp add: apply_write_def set_state_wf split: prod.splits)

lemma tick_pending:
  assumes "targets_ok mon" and "ws \<in> set (map (\<lambda>(u, t). scrape_writes httpGet mon t) (mon_scrapeTargets mon))"
    and "x \<in> set ws"
  shows "gm_get (mon_scrapeTargets mon) (write_uid x) \<noteq> None"
proof -
  from assms(2) obtain u t where t: "(u, t) \<in> set (mon_scrapeTargets mon)" "ws = scrape_writes httpGet mon t" by auto
  then have "gm_get (mon_scrapeTargets mon) u = Some t" "st_UID t = u"
    using assms(1) by (auto simp: targets_ok_def gm_wf_entry)
  then show ?thesis using scrape_writes_uid t(2) assms(3) by auto
qed

lemma mon_step_inv: "sys_inv s \<Longrightarrow> mon_step k s t \<Longrightarrow> sys_inv t"
proof (erule mon_step.cases)
  fix ord mon httpGet s'
  assume "sys_inv s" and tick: "s = s'" "t = s'\<lparr>sys_mon := mon,
      sys_phase := Scraping (map (\<lambda>(u, t). scrape_writes httpGet mon t) (mon_scrapeTargets mon))\<rparr>"
    "range_order ord" "mon = take_snapshot ord (sys_mon s')"
  then have "targets_ok mon" by (simp add: sys_inv_def take_snapshot_targets_ok)
  moreover have "pending_ok t" using tick_pending [OF calculation] tick(2) by (auto simp: pending_ok_def)
  ultimately show "sys_inv t" using \<open>sys_inv s\<close> tick by (simp add: sys_inv_def pods_ok_def)
next
  fix s' xs x ws ys
  assume "sys_inv s" and w: "s = s'" "t = s'\<lparr>sys_mon := (sys_mon s')\<lparr>mon_endpointStates :=
      apply_write (mon_endpointStates (sys_mon s')) x\<rparr>, sys_phase := Scraping (xs @ ws # ys)\<rparr>"
    "sys_phase s' = Scraping (xs @ (x # ws) # ys)"
  then show "sys_inv t" by (auto simp: sys_inv_def pods_ok_def targets_ok_def pending_ok_def apply_write_wf)
qed (auto simp: sys_inv_def pending_ok_def targets_ok_def mon_handle_pods_ok mon_handle_states_wf)

lemma mon_init_inv: "mon_init k s \<Longrightarrow> sys_inv s"
proof -
  assume "mon_init k s"
  then obtain namespace port path interval sel where
    "sys_mon s = \<lparr>mon_namespace = namespace, mon_selector = sel, mon_pods = [], mon_scrapeTargets = [],
       mon_endpointStates = [], mon_metricsPort = port, mon_metricsPath = path, mon_interval = interval\<rparr>"
    "sys_phase s = Idle"
    by (cases "NewRequirement k ''app.kubernetes.io/name'' In [''global-load-balancer'']")
      (auto simp: mon_init_def NewHAProxyMonitor_def dest: sym)
  then show "sys_inv s"
    by (simp add: sys_inv_def pods_ok_def pods_keyed_def targets_ok_def states_wf_def pending_ok_def)
qed

interpretation monitor: invariant_system "mon_init k" "mon_step k" sys_inv for k
  by unfold_locales (auto intro: mon_init_inv mon_step_inv)

section \<open>Interleavings of one round\<close>

text \<open>The orders in which the goroutines of a round can make their writes.\<close>

inductive merges :: "state_write list list \<Rightarrow> state_write list \<Rightarrow> bool" where
  merges_done: "\<forall>ws \<in> set wss. ws = [] \<Longrightarrow> merges wss []"
| merges_next: "merges (xs @ ws # ys) l \<Longrightarrow> merges (xs @ (x # ws) # ys) (x # l)"

definition uids :: "state_write list \<Rightarrow> uid set" where
  "uids ws = write_uid ` set ws"

text \<open>No two goroutines write entries of the same pod.\<close>

fun disjoint_uids :: "state_write list list \<Rightarrow> bool" where
  "disjoint_uids [] = True"
| "disjoint_uids (ws # wss) = ((\<forall>vs \<in> set wss. uids ws \<inter> uids vs = {}) \<and> disjoint_uids wss)"

lemma disjoint_uids_append:
  "disjoint_uids (xs @ ys) \<longleftrightarrow> disjoint_uids xs \<and> disjoint_uids ys \<and> (\<forall>ws \<in> set xs. \<forall>vs \<in> set ys. uids ws \<inter> uids vs = {})"
  by (induction xs) auto

lemma merges_interleaving: "merges wss l \<Longrightarrow> disjoint_uids wss \<Longrightarrow> interleaving wss l"
proof (induction rule: merges.induct)
  case (merges_done wss)
  then have "concat wss = []" by simp
  then show ?case by (simp only: interleaving_def) simp
next
  case (merges_next xs ws ys l x)
  have sub: "uids ws \<subseteq> uids (x # ws)" by (auto simp: uids_def)
  have "disjoint_uids (xs @ ws # ys)"
    using merges_next.prems sub by (auto simp: disjoint_uids_append)
  then have IH: "interleaving (xs @ ws # ys) l" by (rule merges_next.IH)
  have before: "filter (\<lambda>y. write_uid y = write_uid x) (concat xs) = []"
  proof -
    have "uids zs \<inter> uids (x # ws) = {}" if "zs \<in> set xs" for zs
      using merges_next.prems that by (simp add: disjoint_uids_append)
    then have "write_uid x \<notin> uids zs" if "zs \<in> set xs" for zs using that by (auto simp: uids_def)
    then have "write_uid y \<noteq> write_uid x" if "y \<in> set (concat xs)" for y
      using that unfolding set_concat uids_def by (metis UN_E imageI)
    then show ?thesis by (simp only: filter_empty_conv) blast
  qed
  show ?case
    unfolding interleaving_def
  proof
    fix u
    have "filter (\<lambda>y. write_uid y = u) l = filter (\<lambda>y. write_uid y = u) (concat (xs @ ws # ys))"
      using IH by (simp add: interleaving_def)
    then show "filter (\<lambda>y. write_uid y = u) (x # l) = filter (\<lambda>y. write_uid y = u) (concat (xs @ (x # ws) # ys))"
      using before by auto
  qed
qed

lemma disjoint_scrapes: "distinct (map st_UID targets) \<Longrightarrow> disjoint_uids (map (scrape_writes httpGet w) targets)"
proof (induction targets)
  case (Cons t targets)
  have "uids (scrape_writes httpGet w t) \<inter> uids (scrape_writes httpGet w t') = {}" if "t' \<in> set targets" for t'
    using that Cons.prems scrape_writes_uid by (fastforce simp: uids_def)
  with Cons show ?case by auto
qed simp

section \<open>Properties\<close>

text \<open>
  C28: the goroutines of one round, interleaved in any way at their locked sections, leave the same
  recorded states as scraping the targets one after the other.
\<close>

theorem scrapes_serializable:
  assumes "distinct (map st_UID targets)" and "merges (map (scrape_writes httpGet w) targets) l"
  shows "state_at (foldl apply_write (mon_endpointStates w) l) b u
    = state_at (mon_endpointStates (scrape_all httpGet w targets)) b u"
proof -
  have "interleaving (map (scrape_writes httpGet w) targets) l"
    using merges_interleaving [OF assms(2)] disjoint_scrapes [OF assms(1)] by simp
  then show ?thesis by (simp add: scrape_all_writes interleaving_states)
qed

lemma sample_scrape: "scrape_writes (\<lambda>_. Inr \<lparr>resp_StatusCode = 200, resp_Body = sample_body\<rparr>) w (target_of (u, pod)) = [(''b'', u, True)]"
  by (simp add: scrape_writes_def sample_body_def metric_writes_def target_of_def)

theorem scrapes_serializable_witness:
  "state_at (foldl apply_write [] [(''b'', ''u2'', True), (''b'', ''u1'', True)]) ''b'' ''u1''
    = state_at (mon_endpointStates (scrape_all (\<lambda>_. Inr \<lparr>resp_StatusCode = 200, resp_Body = sample_body\<rparr>) (sample_monitor [] [])
        [target_of (''u1'', sample_pod ''u1'' ''10.1.0.1''), target_of (''u2'', sample_pod ''u2'' ''10.1.0.2'')])) ''b'' ''u1''"
proof -
  have "merges [[], []] []" by (rule merges_done) simp
  then have "merges [[(''b'', ''u1'', True)], []] [(''b'', ''u1'', True)]"
    using merges_next [of "[]" "[]" "[[]]" "[]" "(''b'', ''u1'', True)"] by simp
  then have "merges [[(''b'', ''u1'', True)], [(''b'', ''u2'', True)]] [(''b'', ''u2'', True), (''b'', ''u1'', True)]"
    using merges_next [of "[[(''b'', ''u1'', True)]]" "[]" "[]" "[(''b'', ''u1'', True)]" "(''b'', ''u2'', True)"] by simp
  then show ?thesis
    using scrapes_serializable [of "[target_of (''u1'', sample_pod ''u1'' ''10.1.0.1''), target_of (''u2'', sample_pod ''u2'' ''10.1.0.2'')]"
        "\<lambda>_. Inr \<lparr>resp_StatusCode = 200, resp_Body = sample_body\<rparr>" "sample_monitor [] []"
        "[(''b'', ''u2'', True), (''b'', ''u1'', True)]" "''b''" "''u1''"]
    by (simp add: sample_scrape) (simp add: target_of_def)
qed

end
