(* ===== verification/Main_Wiring.thy ===== *)
theory Main_Wiring
  imports GLB_Controller Frontend_Controller Peer_Watcher Monitor_System
begin

text \<open>
  \<^verbatim>\<open>cmd/main.go\<close> and \<^verbatim>\<open>version/version.go\<close>: the options of the servers, the namespaces the cache
  is restricted to, and the construction of the components in the order of \<^verbatim>\<open>main\<close>. Flag parsing
  gives the record \<open>Flags\<close>; the environment is a function; the calls on the manager are the
  argument \<open>outcome\<close>, which gives the error of each call. A failure ends the process with
  \<^verbatim>\<open>os.Exit(1)\<close> after one log line, which is the left value.
\<close>

section \<open>Namespaces\<close>

text \<open>The value of \<^verbatim>\<open>WATCH_NAMESPACE\<close> is ASCII text, as names of namespaces are.\<close>

definition getWatchNamespace :: "(string \<Rightarrow> string option) \<Rightarrow> goerror + string" where
  "getWatchNamespace lookupEnv =
     (case lookupEnv ''WATCH_NAMESPACE'' of
        None \<Rightarrow> Inl (OtherErr (''WATCH_NAMESPACE'' @ '' must be set''))
      | Some ns \<Rightarrow> Inr ns)"

definition is_space :: "char \<Rightarrow> bool" where
  "is_space c \<longleftrightarrow> c \<in> {CHR '' '', CHR 0x09, CHR 0x0A, CHR 0x0B, CHR 0x0C, CHR 0x0D}"

definition TrimSpace :: "string \<Rightarrow> string" where
  "TrimSpace s = rev (dropWhile is_space (rev (dropWhile is_space s)))"

text \<open>The map of namespaces; the per-namespace configuration is the empty one.\<close>

definition setupCacheNamespaces :: "string \<Rightarrow> (string, unit) gomap" where
  "setupCacheNamespaces namespaces =
     foldl (\<lambda>m ns. gm_put (TrimSpace ns) () m) [] (split_on (CHR '','') namespaces)"

section \<open>Server options\<close>

record Flags =
  metricsAddr :: string
  probeAddr :: string
  enableLeaderElection :: bool
  secureMetrics :: bool
  webhookCertPath :: string
  webhookCertName :: string
  webhookCertKey :: string
  metricsCertPath :: string
  metricsCertName :: string
  metricsCertKey :: string
  enableHTTP2 :: bool

definition default_flags :: Flags where
  "default_flags =
     \<lparr>metricsAddr = ''0'', probeAddr = '':8081'', enableLeaderElection = False, secureMetrics = True,
      webhookCertPath = '''', webhookCertName = ''tls.crt'', webhookCertKey = ''tls.key'',
      metricsCertPath = '''', metricsCertName = ''tls.crt'', metricsCertKey = ''tls.key'', enableHTTP2 = False\<rparr>"

record TLSConfig =
  NextProtos :: "string list"

definition disableHTTP2 :: "TLSConfig \<Rightarrow> TLSConfig" where
  "disableHTTP2 c = c\<lparr>NextProtos := [''http/1.1'']\<rparr>"

definition tlsOpts :: "Flags \<Rightarrow> (TLSConfig \<Rightarrow> TLSConfig) list" where
  "tlsOpts flags = (if \<not> enableHTTP2 flags then [] @ [disableHTTP2] else [])"

record ServerCerts =
  CertDir :: string
  CertName :: string
  KeyName :: string

record WebhookOptions =
  wh_TLSOpts :: "(TLSConfig \<Rightarrow> TLSConfig) list"
  wh_Certs :: ServerCerts

definition webhookServerOptions :: "Flags \<Rightarrow> WebhookOptions" where
  "webhookServerOptions flags =
     (let options = \<lparr>wh_TLSOpts = tlsOpts flags, wh_Certs = \<lparr>CertDir = '''', CertName = '''', KeyName = ''''\<rparr>\<rparr>
      in if length (webhookCertPath flags) > 0
         then options\<lparr>wh_Certs := \<lparr>CertDir = webhookCertPath flags, CertName = webhookCertName flags,
                                   KeyName = webhookCertKey flags\<rparr>\<rparr>
         else options)"

datatype FilterProvider = NoFilter | WithAuthenticationAndAuthorization

record MetricsOptions =
  BindAddress :: string
  SecureServing :: bool
  ms_TLSOpts :: "(TLSConfig \<Rightarrow> TLSConfig) list"
  ms_FilterProvider :: FilterProvider
  ms_Certs :: ServerCerts

definition metricsServerOptions :: "Flags \<Rightarrow> MetricsOptions" where
  "metricsServerOptions flags =
     (let options = \<lparr>BindAddress = metricsAddr flags, SecureServing = secureMetrics flags,
            ms_TLSOpts = tlsOpts flags, ms_FilterProvider = NoFilter,
            ms_Certs = \<lparr>CertDir = '''', CertName = '''', KeyName = ''''\<rparr>\<rparr>;
          options = (if secureMetrics flags
                     then options\<lparr>ms_FilterProvider := WithAuthenticationAndAuthorization\<rparr> else options)
      in if length (metricsCertPath flags) > 0
         then options\<lparr>ms_Certs := \<lparr>CertDir = metricsCertPath flags, CertName = metricsCertName flags,
                                   KeyName = metricsCertKey flags\<rparr>\<rparr>
         else options)"

record ManagerOptions =
  mg_Metrics :: MetricsOptions
  mg_WebhookServer :: WebhookOptions
  mg_HealthProbeBindAddress :: string
  mg_LeaderElection :: bool
  mg_LeaderElectionID :: string
  mg_DefaultNamespaces :: "(string, unit) gomap"

definition mgrOptions :: "Flags \<Rightarrow> string \<Rightarrow> ManagerOptions" where
  "mgrOptions flags watchNamespace =
     \<lparr>mg_Metrics = metricsServerOptions flags, mg_WebhookServer = webhookServerOptions flags,
      mg_HealthProbeBindAddress = probeAddr flags, mg_LeaderElection = enableLeaderElection flags,
      mg_LeaderElectionID = ''ecf5b57b.antware.xyz'',
      mg_DefaultNamespaces = setupCacheNamespaces watchNamespace\<rparr>"

section \<open>Controllers\<close>

text \<open>What a controller is registered for: its kind, the kinds it owns, and whether it reads the channel.\<close>

record Registration =
  reg_Named :: string
  reg_For :: string
  reg_Owns :: "string list"
  reg_Channel :: bool

definition GLB_SetupWithManager :: Registration where
  "GLB_SetupWithManager = \<lparr>reg_Named = ''globalloadbalancer'', reg_For = ''GlobalLoadBalancer'',
     reg_Owns = [''StatefulSet'', ''Frontend'', ''Backend''], reg_Channel = False\<rparr>"

definition Frontend_SetupWithManager :: Registration where
  "Frontend_SetupWithManager = \<lparr>reg_Named = ''frontend'', reg_For = ''Frontend'', reg_Owns = [], reg_Channel = True\<rparr>"

section \<open>main\<close>

datatype setup_call =
  GetConfigOrDie | NewManager ManagerOptions | AddPeerServiceWatcher | AddHAProxyMonitor
  | SetupController Registration | AddHealthzCheck | AddReadyzCheck | StartManager

text \<open>A way for the process to end: the status, and the message and the error that are logged.\<close>

datatype exit = Exit nat string goerror

definition exit_bind :: "exit + 'a \<Rightarrow> ('a \<Rightarrow> exit + 'b) \<Rightarrow> exit + 'b" where
  "exit_bind r f = (case r of Inl e \<Rightarrow> Inl e | Inr x \<Rightarrow> f x)"

text \<open>\<^verbatim>\<open>if err != nil { setupLog.Error(err, message); os.Exit(1) }\<close>, for a result and for a call.\<close>

definition or_exit :: "string \<Rightarrow> goerror + 'a \<Rightarrow> exit + 'a" where
  "or_exit message r = (case r of Inl e \<Rightarrow> Inl (Exit 1 message e) | Inr x \<Rightarrow> Inr x)"

definition err_or_exit :: "goerror option \<Rightarrow> string \<Rightarrow> exit + unit" where
  "err_or_exit err message = (case err of None \<Rightarrow> Inr () | Some e \<Rightarrow> Inl (Exit 1 message e))"

text \<open>The two runnables register themselves with the manager: \<^verbatim>\<open>mgr.Add(w)\<close>.\<close>

definition Peer_SetupWithManager :: "(setup_call \<Rightarrow> goerror option) \<Rightarrow> goerror option" where
  "Peer_SetupWithManager outcome = outcome AddPeerServiceWatcher"

definition Monitor_SetupWithManager :: "(setup_call \<Rightarrow> goerror option) \<Rightarrow> goerror option" where
  "Monitor_SetupWithManager outcome = outcome AddHAProxyMonitor"

text \<open>The components \<^verbatim>\<open>main\<close> has built; the frontend reconciler shares the cache of the health manager.\<close>

record components =
  co_Options :: ManagerOptions
  co_PeerServiceWatcher :: PeerServiceWatcher
  co_HealthManager :: HealthManager
  co_HAProxyMonitor :: HAProxyMonitor
  co_GlobalLoadBalancerReconciler :: GlobalLoadBalancerReconciler
  co_Controllers :: "Registration list"

definition second :: int where
  "second = 1000000000"

definition main :: "'w kube \<Rightarrow> (setup_call \<Rightarrow> goerror option) \<Rightarrow> (string \<Rightarrow> string option) \<Rightarrow> Flags \<Rightarrow> exit + components" where
  "main k outcome lookupEnv flags =
     exit_bind (or_exit ''Unable to get WATCH_NAMESPACE, the manager will watch and manage resources in all namespaces''
                  (getWatchNamespace lookupEnv)) (\<lambda>watchNamespace.
     let options = mgrOptions flags watchNamespace in
     exit_bind (err_or_exit (outcome GetConfigOrDie) ''unable to get kubeconfig'') (\<lambda>_.
     exit_bind (err_or_exit (outcome (NewManager options)) ''Failed to start manager'') (\<lambda>_.
     exit_bind (or_exit ''unable to create the peer service watcher''
                  (NewPeerServiceWatcher k ''glb.antware.xyz/peer-name'')) (\<lambda>peerServiceWatcher.
     exit_bind (err_or_exit (Peer_SetupWithManager outcome) ''unable to setup the peer service watcher'') (\<lambda>_.
     let healthMgr = NewHealthManager NewHealthCache in
     exit_bind (or_exit ''unable to create the backend health watcher''
                  (NewHAProxyMonitor k watchNamespace 8405 ''/'' (5 * second))) (\<lambda>haproxyMonitor.
     exit_bind (err_or_exit (Monitor_SetupWithManager outcome) ''unable to setup the backend health watcher'') (\<lambda>_.
     exit_bind (err_or_exit (outcome (SetupController GLB_SetupWithManager)) ''Failed to create controller'') (\<lambda>_.
     exit_bind (err_or_exit (outcome (SetupController Frontend_SetupWithManager)) ''Failed to create controller'') (\<lambda>_.
     exit_bind (err_or_exit (outcome AddHealthzCheck) ''Failed to set up health check'') (\<lambda>_.
     exit_bind (err_or_exit (outcome AddReadyzCheck) ''Failed to set up ready check'') (\<lambda>_.
     exit_bind (err_or_exit (outcome StartManager) ''Failed to run manager'') (\<lambda>_.
       Inr \<lparr>co_Options = options, co_PeerServiceWatcher = peerServiceWatcher, co_HealthManager = healthMgr,
            co_HAProxyMonitor = haproxyMonitor,
            co_GlobalLoadBalancerReconciler = \<lparr>glbr_StartingPort = 10240\<rparr>,
            co_Controllers = [GLB_SetupWithManager, Frontend_SetupWithManager]\<rparr>))))))))))))"

section \<open>Version\<close>

text \<open>\<^verbatim>\<open>semver.Parse\<close> is the argument: the major and the minor number of a version, or an error.\<close>

definition GetMajorAndMinorVersion :: "(string \<Rightarrow> goerror + nat \<times> nat) \<Rightarrow> goerror + string" where
  "GetMajorAndMinorVersion Parse =
     (case Parse Version of
        Inl e \<Rightarrow> Inl e
      | Inr (Major, Minor) \<Rightarrow> Inr (show_nat Major @ ''.'' @ show_nat Minor))"

section \<open>Facts\<close>

lemma exit_bind_Inr: "exit_bind r f = Inr y \<longleftrightarrow> (\<exists>x. r = Inr x \<and> f x = Inr y)"
  by (cases r) (simp_all add: exit_bind_def)

lemma or_exit_Inr: "or_exit m r = Inr y \<longleftrightarrow> r = Inr y"
  by (cases r) (simp_all add: or_exit_def)

lemma err_or_exit_Inr: "err_or_exit err m = Inr y \<longleftrightarrow> err = None"
  by (cases err) (simp_all add: err_or_exit_def)

lemma foldl_put_unit: "gm_get (foldl (\<lambda>m x. gm_put (f x) v m) m xs) n =
    (if n \<in> f ` set xs then Some v else gm_get m n)"
  by (induction xs arbitrary: m) (auto simp: gomap_simps)

text \<open>A namespace is watched exactly when it is one of the trimmed pieces.\<close>

lemma setupCacheNamespaces_get:
  "gm_get (setupCacheNamespaces s) n = (if n \<in> TrimSpace ` set (split_on (CHR '','') s) then Some () else None)"
  by (simp add: setupCacheNamespaces_def foldl_put_unit)

lemma TrimSpace_subset: "set (TrimSpace s) \<subseteq> set s"
proof -
  have "set (dropWhile P xs) \<subseteq> set xs" for P and xs :: string
    using set_dropWhileD by fastforce
  then show ?thesis unfolding TrimSpace_def by (metis order_trans set_rev)
qed

lemma TrimSpace_id: "s = [] \<or> \<not> is_space (hd s) \<and> \<not> is_space (last s) \<Longrightarrow> TrimSpace s = s"
proof (cases s)
  case (Cons c cs)
  assume "s = [] \<or> \<not> is_space (hd s) \<and> \<not> is_space (last s)"
  then have "\<not> is_space (hd s)" "\<not> is_space (last s)" using Cons by auto
  then have "\<not> is_space (hd s)" "\<not> is_space (hd (rev s))" by (auto simp only: hd_rev not_False_eq_True)
  then have "dropWhile is_space s = s" "dropWhile is_space (rev s) = rev s"
    using Cons by (simp, cases "rev s") auto
  then show ?thesis by (simp add: TrimSpace_def)
qed (simp add: TrimSpace_def)

text \<open>Splitting a list of names without commas gives back the names.\<close>

fun join_with :: "char \<Rightarrow> string list \<Rightarrow> string" where
  "join_with c [] = []"
| "join_with c [p] = p"
| "join_with c (p # q # ps) = p @ c # join_with c (q # ps)"

lemma split_on_join: "ps \<noteq> [] \<Longrightarrow> \<forall>p \<in> set ps. c \<notin> set p \<Longrightarrow> split_on c (join_with c ps) = ps"
  by (induction c ps rule: join_with.induct) (simp_all add: split_on_none split_on_append)

lemma main_components:
  assumes "main k outcome lookupEnv flags = Inr co"
  obtains ns where "lookupEnv ''WATCH_NAMESPACE'' = Some ns" "co_Options co = mgrOptions flags ns"
    "NewHAProxyMonitor k ns 8405 ''/'' (5 * second) = Inr (co_HAProxyMonitor co)"
    "NewPeerServiceWatcher k ''glb.antware.xyz/peer-name'' = Inr (co_PeerServiceWatcher co)"
    "co_HealthManager co = NewHealthManager NewHealthCache"
    "glbr_StartingPort (co_GlobalLoadBalancerReconciler co) = 10240"
    "co_Controllers co = [GLB_SetupWithManager, Frontend_SetupWithManager]"
  using assms
  by (auto simp: main_def exit_bind_Inr or_exit_Inr err_or_exit_Inr Let_def getWatchNamespace_def
      split: option.splits)

end
