(* ===== verification/Mem_Cluster.thy ===== *)
theory Mem_Cluster
  imports Main_Wiring
begin

text \<open>
  A cluster kept in memory: one list of objects per kind, and the calls of \<open>kube\<close> on it. It
  meets every documented behaviour the theorems assume of the client (the lemmas below), so
  their hypotheses can hold, and it is executable, so whole reconciliations can be run on
  concrete objects.
\<close>

section \<open>Stores\<close>

definition lookup :: "('o \<Rightarrow> NamespacedName) \<Rightarrow> 'o list \<Rightarrow> NamespacedName \<Rightarrow> 'o option" where
  "lookup key xs n = find (\<lambda>x. key x = n) xs"

definition store :: "('o \<Rightarrow> NamespacedName) \<Rightarrow> 'o \<Rightarrow> 'o list \<Rightarrow> 'o list" where
  "store key x xs = x # filter (\<lambda>y. key y \<noteq> key x) xs"

text \<open>The objects a lookup can find, each once.\<close>

definition listed :: "('o \<Rightarrow> NamespacedName) \<Rightarrow> 'o list \<Rightarrow> 'o list" where
  "listed key xs = remdups (filter (\<lambda>x. lookup key xs (key x) = Some x) xs)"

lemma lookup_key: "lookup key xs n = Some x \<Longrightarrow> key x = n \<and> x \<in> set xs"
  by (auto simp: lookup_def find_Some_iff)

lemma store_deletes: "lookup key (filter (\<lambda>x. key x \<noteq> n) xs) m = (if m = n then None else lookup key xs m)"
  by (induction xs) (auto simp: lookup_def)

lemma lookup_store: "lookup key (store key x xs) n = (if n = key x then Some x else lookup key xs n)"
  using store_deletes [of key "key x" xs n] by (auto simp: lookup_def store_def)

lemma set_listed: "x \<in> set (listed key xs) \<longleftrightarrow> lookup key xs (key x) = Some x"
  using lookup_key by (fastforce simp: listed_def)

lemma distinct_listed: "distinct (map key (listed key xs))"
proof -
  have "inj_on key (set (listed key xs))"
    by (intro inj_onI) (metis option.inject set_listed)
  then show ?thesis by (simp add: distinct_map listed_def)
qed

section \<open>The cluster\<close>

record cluster =
  cl_loadbalancers :: "GlobalLoadBalancer list"
  cl_frontends :: "Frontend list"
  cl_backends :: "Backend list"
  cl_statefulsets :: "StatefulSet list"
  cl_configmaps :: "ConfigMap list"
  cl_services :: "Service list"
  cl_slices :: "EndpointSlice list"
  cl_peers :: "Peer list"

abbreviation lb_key :: "GlobalLoadBalancer \<Rightarrow> NamespacedName" where
  "lb_key lb \<equiv> meta_key (lb_ObjectMeta lb)"

abbreviation be_key :: "Backend \<Rightarrow> NamespacedName" where
  "be_key be \<equiv> meta_key (be_ObjectMeta be)"

abbreviation peer_key :: "Peer \<Rightarrow> NamespacedName" where
  "peer_key p \<equiv> meta_key (peer_ObjectMeta p)"

definition mem_get :: "('o \<Rightarrow> NamespacedName) \<Rightarrow> (cluster \<Rightarrow> 'o list) \<Rightarrow> NamespacedName \<Rightarrow> (cluster, 'o) go" where
  "mem_get key objs n = (\<lambda>w.
     case lookup key (objs w) n of None \<Rightarrow> (Inl (Err (NotFoundErr (nn_Name n))), w) | Some x \<Rightarrow> (Inr x, w))"

definition mem_create_or_update ::
  "('o \<Rightarrow> NamespacedName) \<Rightarrow> (cluster \<Rightarrow> 'o list) \<Rightarrow> ('o list \<Rightarrow> cluster \<Rightarrow> cluster)
    \<Rightarrow> 'o \<Rightarrow> ('o \<Rightarrow> 'o result) \<Rightarrow> (cluster, 'o) go" where
  "mem_create_or_update key objs set_objs obj mut = (\<lambda>w.
     case mut (fetched (\<lambda>w. lookup key (objs w)) key w obj) of
       Inl f \<Rightarrow> (Inl f, w)
     | Inr m \<Rightarrow> if key m \<noteq> key obj then (Inl (Err (OtherErr ''MutateFn cannot mutate object name and/or object namespace'')), w)
                else (Inr m, set_objs (store key m (objs w)) w))"

fun mem_not_found :: "goerror \<Rightarrow> bool" where
  "mem_not_found (NotFoundErr s) = True"
| "mem_not_found (OtherErr s) = False"
| "mem_not_found (Wrapped s e) = mem_not_found e"

definition mem_selector :: "LabelSelector \<Rightarrow> goerror + selector" where
  "mem_selector ls =
     (if ls_MatchExpressions ls = [] then Inr (\<lambda>labels. \<forall>(k, v) \<in> set (ls_MatchLabels ls). gm_get labels k = Some v)
      else Inl (OtherErr ''match expressions''))"

definition mem_requirement :: "string \<Rightarrow> selection \<Rightarrow> string list \<Rightarrow> goerror + selector" where
  "mem_requirement key op vs =
     (case op of
        In \<Rightarrow> if vs = [] then Inl (OtherErr ''values must be non-empty'')
              else Inr (\<lambda>labels. \<exists>v \<in> set vs. gm_get labels key = Some v)
      | Exists \<Rightarrow> Inr (\<lambda>labels. gm_get labels key \<noteq> None))"

definition mem_controller :: "Owner \<Rightarrow> ObjectMeta \<Rightarrow> goerror + OwnerReference list" where
  "mem_controller owner om =
     Inr [\<lparr>or_Kind = ow_Kind owner, or_Name = om_Name (ow_Meta owner), or_UID = om_UID (ow_Meta owner), or_Controller = True\<rparr>]"

definition mem_chosen :: "ListOptions \<Rightarrow> ObjectMeta \<Rightarrow> bool" where
  "mem_chosen opts om \<longleftrightarrow> (case lo_LabelSelector opts of None \<Rightarrow> True | Some sel \<Rightarrow> sel (om_Labels om))
     \<and> (case lo_Namespace opts of None \<Rightarrow> True | Some ns \<Rightarrow> om_Namespace om = ns)"

definition zero_ListMeta :: ListMeta where
  "zero_ListMeta = \<lparr>lm_ResourceVersion = '''', lm_Continue = ''''\<rparr>"

definition mem_list_frontends :: "ListOptions \<Rightarrow> (cluster, FrontendList) go" where
  "mem_list_frontends opts = (\<lambda>w. (Inr \<lparr>fel_TypeMeta = zero_TypeMeta, fel_ListMeta = zero_ListMeta,
     fel_Items = filter (\<lambda>fe. mem_chosen opts (fe_ObjectMeta fe)) (listed fe_key (cl_frontends w))\<rparr>, w))"

definition mem_list_backends :: "ListOptions \<Rightarrow> (cluster, BackendList) go" where
  "mem_list_backends opts = (\<lambda>w. (Inr \<lparr>bel_TypeMeta = zero_TypeMeta, bel_ListMeta = zero_ListMeta,
     bel_Items = filter (\<lambda>be. mem_chosen opts (be_ObjectMeta be)) (listed be_key (cl_backends w))\<rparr>, w))"

definition mem_update_frontend :: "Frontend \<Rightarrow> (cluster, Frontend) go" where
  "mem_update_frontend fe = (\<lambda>w.
     case lookup fe_key (cl_frontends w) (fe_key fe) of
       None \<Rightarrow> (Inl (Err (NotFoundErr (fe_Name fe))), w)
     | Some old \<Rightarrow> if fe_version old \<noteq> fe_version fe then (Inl (Err (OtherErr ''the object has been modified'')), w)
                   else let new = old\<lparr>fe_Status := fe_Status fe\<rparr>
                        in (Inr new, w\<lparr>cl_frontends := store fe_key new (cl_frontends w)\<rparr>))"

definition mem_create_peer :: "Peer \<Rightarrow> (cluster, Peer) go" where
  "mem_create_peer p = (\<lambda>w.
     case lookup peer_key (cl_peers w) (peer_key p) of
       Some _ \<Rightarrow> (Inl (Err (OtherErr ''already exists'')), w)
     | None \<Rightarrow> let new = p\<lparr>peer_Status := peer_Status zero_Peer\<rparr>
               in (Inr new, w\<lparr>cl_peers := store peer_key new (cl_peers w)\<rparr>))"

definition mem_update_peer :: "Peer \<Rightarrow> (cluster, Peer) go" where
  "mem_update_peer p = (\<lambda>w.
     case lookup peer_key (cl_peers w) (peer_key p) of
       None \<Rightarrow> (Inl (Err (NotFoundErr (om_Name (peer_ObjectMeta p)))), w)
     | Some old \<Rightarrow> if peer_version old \<noteq> peer_version p then (Inl (Err (OtherErr ''the object has been modified'')), w)
                   else let new = old\<lparr>peer_Status := peer_Status p\<rparr>
                        in (Inr new, w\<lparr>cl_peers := store peer_key new (cl_peers w)\<rparr>))"

definition mem_kube :: "cluster kube" where
  "mem_kube =
     \<lparr>IsNotFound = mem_not_found,
      IgnoreNotFound = (\<lambda>e. if mem_not_found e then None else Some e),
      LabelSelectorAsSelector = mem_selector,
      NewRequirement = mem_requirement,
      SetControllerReference = mem_controller,
      GetLoadBalancer = mem_get lb_key cl_loadbalancers,
      GetFrontend = mem_get fe_key cl_frontends,
      ListFrontends = mem_list_frontends,
      ListBackends = mem_list_backends,
      UpdateFrontendStatus = mem_update_frontend,
      CreateOrUpdateStatefulSet = mem_create_or_update ss_key cl_statefulsets (\<lambda>xs w. w\<lparr>cl_statefulsets := xs\<rparr>),
      CreateOrUpdateConfigMap = mem_create_or_update cm_key cl_configmaps (\<lambda>xs w. w\<lparr>cl_configmaps := xs\<rparr>),
      CreateOrUpdateService = mem_create_or_update svc_key cl_services (\<lambda>xs w. w\<lparr>cl_services := xs\<rparr>),
      CreateOrUpdateEndpointSlice = mem_create_or_update es_key cl_slices (\<lambda>xs w. w\<lparr>cl_slices := xs\<rparr>),
      CacheGetPeer = mem_get peer_key cl_peers,
      CreatePeer = mem_create_peer,
      UpdatePeerStatus = mem_update_peer\<rparr>"

lemma mem_kube_sel:
  "IsNotFound mem_kube = mem_not_found"
  "IgnoreNotFound mem_kube = (\<lambda>e. if mem_not_found e then None else Some e)"
  "LabelSelectorAsSelector mem_kube = mem_selector"
  "NewRequirement mem_kube = mem_requirement"
  "SetControllerReference mem_kube = mem_controller"
  "GetLoadBalancer mem_kube = mem_get lb_key cl_loadbalancers"
  "GetFrontend mem_kube = mem_get fe_key cl_frontends"
  "ListFrontends mem_kube = mem_list_frontends"
  "ListBackends mem_kube = mem_list_backends"
  "UpdateFrontendStatus mem_kube = mem_update_frontend"
  "CacheGetPeer mem_kube = mem_get peer_key cl_peers"
  "CreatePeer mem_kube = mem_create_peer"
  "UpdatePeerStatus mem_kube = mem_update_peer"
  by (simp_all add: mem_kube_def)

abbreviation mem_frontends :: "cluster \<Rightarrow> NamespacedName \<rightharpoonup> Frontend" where
  "mem_frontends w \<equiv> lookup fe_key (cl_frontends w)"

abbreviation mem_statefulsets :: "cluster \<Rightarrow> NamespacedName \<rightharpoonup> StatefulSet" where
  "mem_statefulsets w \<equiv> lookup ss_key (cl_statefulsets w)"

abbreviation mem_configmaps :: "cluster \<Rightarrow> NamespacedName \<rightharpoonup> ConfigMap" where
  "mem_configmaps w \<equiv> lookup cm_key (cl_configmaps w)"

abbreviation mem_services :: "cluster \<Rightarrow> NamespacedName \<rightharpoonup> Service" where
  "mem_services w \<equiv> lookup svc_key (cl_services w)"

abbreviation mem_slices :: "cluster \<Rightarrow> NamespacedName \<rightharpoonup> EndpointSlice" where
  "mem_slices w \<equiv> lookup es_key (cl_slices w)"

abbreviation mem_peers :: "cluster \<Rightarrow> NamespacedName \<rightharpoonup> Peer" where
  "mem_peers w \<equiv> lookup peer_key (cl_peers w)"

section \<open>It behaves as documented\<close>

lemma mem_ignore_not_found: "ignore_not_found_doc mem_kube"
  by (simp add: ignore_not_found_doc_def mem_kube_def)

lemma mem_requirements: "requirement_doc mem_kube"
  by (auto simp: requirement_doc_def mem_kube_def mem_requirement_def)

lemma mem_create_or_update_doc:
  assumes "\<And>xs w. objs (set_objs xs w) = xs"
  shows "create_or_update_doc (mem_create_or_update key objs set_objs) (\<lambda>w. lookup key (objs w)) key payload"
  by (auto simp: create_or_update_doc_def mem_create_or_update_def assms lookup_store
      split: sum.splits if_splits)

lemma mem_statefulset_doc: "create_or_update_doc (CreateOrUpdateStatefulSet mem_kube) mem_statefulsets ss_key payload"
  and mem_configmap_doc: "create_or_update_doc (CreateOrUpdateConfigMap mem_kube) mem_configmaps cm_key payload'"
  and mem_service_doc: "create_or_update_doc (CreateOrUpdateService mem_kube) mem_services svc_key payload''"
  and mem_slice_doc: "create_or_update_doc (CreateOrUpdateEndpointSlice mem_kube) mem_slices es_key payload'''"
  by (simp_all add: mem_kube_def mem_create_or_update_doc)

lemma mem_status_update: "status_update_doc mem_kube mem_frontends"
proof -
  have "status_written (mem_frontends w) fe (mem_frontends w')" if "mem_update_frontend fe w = (Inr x, w')" for fe w x w'
  proof -
    from that obtain old where old: "mem_frontends w (fe_key fe) = Some old" "fe_version old = fe_version fe"
      and w': "w' = w\<lparr>cl_frontends := store fe_key (old\<lparr>fe_Status := fe_Status fe\<rparr>) (cl_frontends w)\<rparr>"
      by (auto simp: mem_update_frontend_def Let_def split: option.splits if_splits)
    have "fe_key old = fe_key fe" using lookup_key [OF old(1)] by simp
    moreover have "with_version (fe_version old) (old\<lparr>fe_Status := fe_Status fe\<rparr>) = old\<lparr>fe_Status := fe_Status fe\<rparr>"
      by (simp add: with_version_def)
    ultimately show ?thesis unfolding status_written_def w'
      by (intro exI [of _ old] exI [of _ "fe_version old"]) (auto simp: old lookup_store)
  qed
  moreover have "w' = w" if "mem_update_frontend fe w = (Inl f, w')" for fe w f w'
    using that by (auto simp: mem_update_frontend_def Let_def split: option.splits if_splits)
  ultimately show ?thesis
    unfolding status_update_doc_def mem_kube_sel
    by (intro allI) (auto split: prod.splits sum.splits; metis)
qed

lemma mem_list_frontends_doc: "list_frontends_doc mem_kube mem_frontends"
proof -
  have "distinct (map fe_key (filter P (listed fe_key xs)))" for P xs
    using distinct_listed [of fe_key xs] by (simp add: distinct_map_filter)
  then show ?thesis
    by (auto simp: list_frontends_doc_def mem_kube_def mem_list_frontends_def mem_chosen_def set_listed)
qed

lemma mem_peer_api: "peer_api_doc mem_kube mem_peers"
proof -
  have get: "case mem_get peer_key cl_peers n w of
      (Inr p, w') \<Rightarrow> mem_peers w n = Some p \<and> peer_key p = n \<and> mem_peers w' = mem_peers w
    | (Inl (Err e), w') \<Rightarrow> mem_peers w' = mem_peers w \<and> (mem_not_found e \<longrightarrow> mem_peers w n = None)
    | (Inl (Panic _), _) \<Rightarrow> False" for n w
    using lookup_key [of peer_key "cl_peers w" n] by (auto simp: mem_get_def split: option.splits)
  have new: "case mem_create_peer p w of
      (Inr q, w') \<Rightarrow> peer_created (mem_peers w) p q (mem_peers w')
    | (Inl (Err _), w') \<Rightarrow> mem_peers w' = mem_peers w \<or> (\<exists>q. peer_created (mem_peers w) p q (mem_peers w'))
    | (Inl (Panic _), _) \<Rightarrow> False" for p w
    by (auto simp: mem_create_peer_def peer_created_def lookup_store Let_def split: option.splits)
  have upd: "case mem_update_peer p w of
      (Inr _, w') \<Rightarrow> peer_written (mem_peers w) p (mem_peers w')
    | (Inl (Err _), w') \<Rightarrow> mem_peers w' = mem_peers w \<or> peer_written (mem_peers w) p (mem_peers w')
    | (Inl (Panic _), _) \<Rightarrow> False" for p w
  proof (cases "mem_peers w (peer_key p)")
    case (Some old)
    then have "peer_key old = peer_key p" using lookup_key by metis
    moreover have "peer_at_version (peer_version old) (old\<lparr>peer_Status := peer_Status p\<rparr>) = old\<lparr>peer_Status := peer_Status p\<rparr>"
      by (simp add: peer_at_version_def)
    ultimately have "peer_version old = peer_version p \<Longrightarrow> peer_written (mem_peers w) p
        (mem_peers (w\<lparr>cl_peers := store peer_key (old\<lparr>peer_Status := peer_Status p\<rparr>) (cl_peers w)\<rparr>))"
      unfolding peer_written_def using Some
      by (intro exI [of _ old] exI [of _ "peer_version old"]) (auto simp: lookup_store)
    with Some show ?thesis by (simp add: mem_update_peer_def Let_def)
  qed (simp add: mem_update_peer_def)
  show ?thesis
    unfolding peer_api_doc_def mem_kube_sel
    by (intro conjI allI get new upd)
qed

lemmas mem_docs = mem_ignore_not_found mem_requirements mem_statefulset_doc mem_configmap_doc mem_service_doc
  mem_slice_doc mem_status_update mem_list_frontends_doc mem_peer_api

end
