(* ===== verification/Monitor_Properties.thy ===== *)
theory Monitor_Properties
  imports Mem_Cluster
begin

text \<open>
  Properties of the running monitor: the invariant of its transition system, what a report brings to
  the health cache, and the executions in which it keeps or reports something stale.
\<close>

section \<open>A run\<close>

text \<open>The monitor of \<^verbatim>\<open>main\<close> on the in-memory cluster, with given pods, targets and states.\<close>

definition run_mon :: "(uid, Pod) gomap \<Rightarrow> (uid, ScrapeTarget) gomap \<Rightarrow> endpoint_states \<Rightarrow> HAProxyMonitor" where
  "run_mon pods targets states =
     \<lparr>mon_namespace = ''glb'', mon_selector = (\<lambda>labels. \<exists>v \<in> set [''global-load-balancer'']. gm_get labels ''app.kubernetes.io/name'' = Some v),
      mon_pods = pods, mon_scrapeTargets = targets, mon_endpointStates = states,
      mon_metricsPort = 8405, mon_metricsPath = ''/'', mon_interval = 5 * second\<rparr>"

definition run_sys :: "(uid, Pod) gomap \<Rightarrow> (uid, ScrapeTarget) gomap \<Rightarrow> endpoint_states \<Rightarrow> phase \<Rightarrow> mon_sys" where
  "run_sys pods targets states ph =
     \<lparr>sys_mon = run_mon pods targets states, sys_hm = NewHealthManager NewHealthCache, sys_phase = ph\<rparr>"

definition empty_cluster :: cluster where
  "empty_cluster = \<lparr>cl_loadbalancers = [], cl_frontends = [], cl_backends = [], cl_statefulsets = [], cl_configmaps = [],
     cl_services = [], cl_slices = [], cl_peers = []\<rparr>"

definition pod1 :: Pod where
  "pod1 = sample_pod ''u1'' ''10.1.0.1''"

abbreviation target1 :: ScrapeTarget where
  "target1 \<equiv> target_of (''u1'', pod1)"

abbreviation up_response :: "URL \<Rightarrow> goerror + Response" where
  "up_response \<equiv> (\<lambda>_. Inr \<lparr>resp_StatusCode = 200, resp_Body = sample_body\<rparr>)"

lemma run_init: "mon_init mem_kube (run_sys [] [] [] Idle)"
proof -
  have "NewHAProxyMonitor mem_kube ''glb'' 8405 ''/'' (5 * second) = Inr (run_mon [] [] [])"
    by (simp add: NewHAProxyMonitor_def mem_kube_sel mem_requirement_def run_mon_def)
  then show ?thesis unfolding mon_init_def run_sys_def by auto
qed

lemma run_start: "reach (mon_init mem_kube) (mon_step mem_kube) (run_sys [] [] [] Idle)"
  by (rule reach.reach_init, rule run_init)

lemma run_added: "mon_step k (run_sys [] ts es ph) (run_sys [(''u1'', pod1)] ts es ph)"
  using mon_step.informer [of id k "run_sys [] ts es ph" "PodAdded (Obj pod1)"]
  by (simp add: run_sys_def run_mon_def pod_filter_def pod_onAdd_def pod1_def sample_pod_def named_meta_def zero_ObjectMeta_def)

lemma run_tick: "mon_step k (run_sys [(''u1'', pod1)] ts es Idle)
    (run_sys [(''u1'', pod1)] [(''u1'', target1)] es (Scraping [[(''b'', ''u1'', True)]]))"
proof -
  have snap: "run_mon [(''u1'', pod1)] [(''u1'', target1)] es = take_snapshot id (run_mon [(''u1'', pod1)] ts es)"
    by (simp add: run_mon_def take_snapshot_def) (simp add: pod1_def sample_pod_def target_of_def)
  have "map (\<lambda>(u, t). scrape_writes up_response mon t) [(''u1'', target1)] = [[(''b'', ''u1'', True)]]" for mon
    by (simp add: sample_scrape)
  moreover have "mon_scrapeTargets (run_mon [(''u1'', pod1)] [(''u1'', target1)] es) = [(''u1'', target1)]"
    by (simp add: run_mon_def)
  ultimately show ?thesis
    using mon_step.tick [of "run_sys [(''u1'', pod1)] ts es Idle" id "run_mon [(''u1'', pod1)] [(''u1'', target1)] es" k up_response] snap
    by (simp add: run_sys_def)
qed

lemma run_deleted: "mon_step k (run_sys [(''u1'', pod1)] ts [] ph) (run_sys [] ts [] ph)"
  using mon_step.informer [of id k "run_sys [(''u1'', pod1)] ts [] ph" "PodDeleted (Obj pod1)"]
  by (simp add: run_sys_def run_mon_def pod_filter_def pod_onDelete_def pod1_def sample_pod_def named_meta_def zero_ObjectMeta_def)

lemma run_write: "mon_step k (run_sys ps ts [] (Scraping [[(''b'', ''u1'', True)]]))
    (run_sys ps ts [(''b'', [(''u1'', True)])] (Scraping [[]]))"
  using mon_step.scrape_write [of "run_sys ps ts [] (Scraping [[(''b'', ''u1'', True)]])" "[]" "(''b'', ''u1'', True)" "[]" "[]" k]
  by (simp add: run_sys_def run_mon_def apply_write_def set_state_def inner_at_def)

lemma run_wait: "mon_step k (run_sys ps ts es (Scraping [[]])) (run_sys ps ts es Updating)"
  using mon_step.wait_all [of "run_sys ps ts es (Scraping [[]])" "[[]]" k] by (simp add: run_sys_def)

definition plain_orders :: orders where
  "plain_orders = \<lparr>ord_states = id, ord_uids = (\<lambda>_. id), ord_endpoints = (\<lambda>_ _. id), ord_frontends = id\<rparr>"

lemma plain_orders_ok: "orders_ok plain_orders"
  by (simp add: orders_ok_def plain_orders_def)

lemma run_report: "mon_step mem_kube (run_sys ps ts es Updating) (run_sys ps ts es Idle)"
proof -
  have "updateHealthManager mem_kube plain_orders (\<lambda>_. True) (run_mon ps ts es) (NewHealthManager NewHealthCache) empty_cluster
      = (Inr (NewHealthManager NewHealthCache), empty_cluster)"
    by (simp add: updateHealthManager_def mem_kube_sel mem_list_backends_def mem_list_frontends_def empty_cluster_def listed_def
        frontendEndpointStates_def plain_orders_def)
  then show ?thesis
    using mon_step.report [of "run_sys ps ts es Updating" plain_orders mem_kube "\<lambda>_. True" empty_cluster] plain_orders_ok
    by (simp add: run_sys_def)
qed

text \<open>The states of the run: scraping a pod, and back to waiting after its deletion during the scrape.\<close>

abbreviation mem_reach :: "mon_sys \<Rightarrow> bool" where
  "mem_reach \<equiv> reach (mon_init mem_kube) (mon_step mem_kube)"

lemma mem_reach_step: "mem_reach s \<Longrightarrow> mon_step mem_kube s t \<Longrightarrow> mem_reach t"
  by (rule reach.reach_step)

lemma run_scraping: "mem_reach (run_sys [(''u1'', pod1)] [(''u1'', target1)] [] (Scraping [[(''b'', ''u1'', True)]]))"
proof -
  have "mem_reach (run_sys [(''u1'', pod1)] [] [] Idle)" using run_start run_added by (rule mem_reach_step)
  then show ?thesis using run_tick by (rule mem_reach_step)
qed

lemma run_stale: "mem_reach (run_sys [] [(''u1'', target1)] [(''b'', [(''u1'', True)])] Idle)"
proof -
  have "mem_reach (run_sys [] [(''u1'', target1)] [] (Scraping [[(''b'', ''u1'', True)]]))"
    using run_scraping run_deleted by (rule mem_reach_step)
  then have "mem_reach (run_sys [] [(''u1'', target1)] [(''b'', [(''u1'', True)])] (Scraping [[]]))"
    using run_write by (rule mem_reach_step)
  then have "mem_reach (run_sys [] [(''u1'', target1)] [(''b'', [(''u1'', True)])] Updating)"
    using run_wait by (rule mem_reach_step)
  then show ?thesis using run_report by (rule mem_reach_step)
qed

section \<open>Properties\<close>

text \<open>
  In every state the monitor reaches, whatever the informer does between the locked sections, the
  tracked pods are keyed by their identifiers and carry the selected label, every scrape target is keyed
  by its identifier and has an address, the recorded states have one entry per backend and pod and no
  backend without entries, and the goroutines that still run write only entries of current targets.
\<close>

theorem monitor_invariant:
  assumes "reach (mon_init k) (mon_step k) s"
  shows "pods_ok (sys_mon s) \<and> targets_ok (sys_mon s) \<and> states_wf (mon_endpointStates (sys_mon s)) \<and> pending_ok s"
  using monitor.reach_inv [OF assms] by (simp add: sys_inv_def)

theorem monitor_invariant_witness:
  "pending_ok (run_sys [(''u1'', pod1)] [(''u1'', target1)] [] (Scraping [[(''b'', ''u1'', True)]]))"
  using monitor_invariant [OF run_scraping] by blast

text \<open>
  A pod deleted while it is being scraped leaves its state behind: the monitor reaches a state in
  which it waits for the next tick, tracks no pod, and still records the deleted pod as healthy; the
  next snapshot has no target for it, so it is reported with an empty address, as healthy.
\<close>

theorem stale_pod_reported:
  "\<exists>s u b. reach (mon_init mem_kube) (mon_step mem_kube) s \<and> sys_phase s = Idle \<and> mon_pods (sys_mon s) = []
     \<and> state_at (mon_endpointStates (sys_mon s)) b u = Some True
     \<and> endpoint_of (take_snapshot id (sys_mon s)) (u, True) = \<lparr>ep_NodeName = '''', ep_IPAddress = '''', ep_Healthy = True\<rparr>"
proof -
  let ?s = "run_sys [] [(''u1'', target1)] [(''b'', [(''u1'', True)])] Idle"
  have "mem_reach ?s" by (rule run_stale)
  then show ?thesis
    by (intro exI [of _ ?s] exI [of _ "''u1''"] exI [of _ "''b''"]) (simp add: run_sys_def run_mon_def state_at_def inner_at_def take_snapshot_def endpoint_of_def target_at_def)
qed


lemma distinct_ips_mset: "mset eps = mset eps' \<Longrightarrow> distinct_ips eps = distinct_ips eps'"
  by (metis distinct_ips_def mset_eq_imp_distinct_iff mset_map)

lemma health_map_mset:
  assumes "mset eps = mset eps'" and "distinct_ips eps'"
  shows "health_map eps = health_map eps'"
proof -
  have "distinct_ips eps" "set eps = set eps'"
    using assms distinct_ips_mset mset_eq_setD by blast+
  then have "health_map eps ip = Some h \<longleftrightarrow> health_map eps' ip = Some h" for ip h
    using assms(2) by (simp add: health_map_distinct)
  then show ?thesis by (metis ext not_None_eq)
qed

text \<open>What a run of updateHealthManager whose two lists succeed does.\<close>

lemma updateHealthManager_run:
  assumes "ListBackends k \<lparr>lo_LabelSelector = None, lo_Namespace = Some (mon_namespace w)\<rparr> world = (Inr bl, world1)"
    and "ListFrontends k \<lparr>lo_LabelSelector = None, lo_Namespace = Some (mon_namespace w)\<rparr> world1 = (Inr fl, world2)"
  shows "updateHealthManager k ord ready w hm world =
    (Inr (report_loop ready hm (ord_frontends ord (frontendEndpointStates k ord w (bel_Items bl) (fel_Items fl)))), world2)"
  using assms by (simp add: updateHealthManager_def)

text \<open>What a report whose two lists succeed brings to the cache, for one frontend.\<close>

definition reported_health :: "Endpoint list \<Rightarrow> Endpoint list \<Rightarrow> Endpoint list \<Rightarrow> bool" where
  "reported_health spec old got \<longleftrightarrow>
     (\<exists>eps. mset eps = mset spec \<and> got \<in> {eps, old} \<and> health_map eps \<subseteq>\<^sub>m health_map got)
     \<and> (distinct_ips old \<and> distinct_ips spec \<longrightarrow> distinct_ips got \<and> health_map got = health_map spec)"

lemma update_reports:
  assumes "mset eps = mset spec"
  shows "reported_health spec (HealthCache_Get c n) (HealthCache_Get (fst (HealthCache_Update c n eps)) n)"
proof -
  have "distinct_ips eps" "health_map eps = health_map spec" if "distinct_ips spec"
    using distinct_ips_mset [OF assms] health_map_mset [OF assms that] that by auto
  then show ?thesis
    using assms hc.stores_or_keeps [of c n eps] hc.covers [of eps c n] hc.get_update [of c n eps] hc.distinct_update [of c n eps]
    unfolding reported_health_def by (intro conjI exI [of _ eps]) auto
qed

lemma report_cached:
  assumes wf: "states_wf (mon_endpointStates w)" and ord: "orders_ok ord"
    and bl: "ListBackends k \<lparr>lo_LabelSelector = None, lo_Namespace = Some (mon_namespace w)\<rparr> world = (Inr bl, world1)"
    and fl: "ListFrontends k \<lparr>lo_LabelSelector = None, lo_Namespace = Some (mon_namespace w)\<rparr> world1 = (Inr fl, world2)"
  shows "\<exists>hm'. updateHealthManager k ord ready w hm world = (Inr hm', world2)
    \<and> (\<forall>n. if spec_hits k w (bel_Items bl) (fel_Items fl) n = []
           then HealthCache_Get (hm_cache hm') n = HealthCache_Get (hm_cache hm) n
           else reported_health (spec_endpoints k w (bel_Items bl) (fel_Items fl) n) (HealthCache_Get (hm_cache hm) n)
                  (HealthCache_Get (hm_cache hm') n))"
proof -
  let ?spec = "spec_endpoints k w (bel_Items bl) (fel_Items fl)" and ?hits = "spec_hits k w (bel_Items bl) (fel_Items fl)"
  let ?fs = "frontendEndpointStates k ord w (bel_Items bl) (fel_Items fl)"
  let ?b = "ord_frontends ord ?fs"
  let ?hm = "report_loop ready hm ?b"
  have "mset ?b = mset ?fs" using ord by (simp add: orders_ok_def range_order_mset)
  then have b: "gm_wf ?b" "map_of ?b = map_of ?fs"
    using map_of_mset_eq [OF frontendEndpointStates_wf] by blast+
  have get: "map_option mset (gm_get ?b n) = (if ?hits n = [] then None else Some (mset (?spec n)))" for n
    unfolding b(2) by (rule frontendEndpointStates_get [OF wf ord])
  have "if ?hits n = [] then HealthCache_Get (hm_cache ?hm) n = HealthCache_Get (hm_cache hm) n
      else reported_health (?spec n) (HealthCache_Get (hm_cache hm) n) (HealthCache_Get (hm_cache ?hm) n)" for n
  proof (cases "gm_get ?b n")
    case None
    then have "?hits n = []" using get [of n] by (simp split: if_splits)
    moreover have "n \<notin> fst ` set ?b" using None by (simp add: map_of_eq_None_iff)
    ultimately show ?thesis using hc.batch_other [of n ?b] by (simp add: report_loop_cache)
  next
    case (Some eps)
    then have "(n, eps) \<in> set ?b" using b(1) by (simp add: gm_wf_entry)
    then have "HealthCache_Get (hm_cache ?hm) n = HealthCache_Get (fst (HealthCache_Update (hm_cache hm) n eps)) n"
      using hc.batch_at [OF b(1)] by (simp add: report_loop_cache)
    moreover have "?hits n \<noteq> []" "mset eps = mset (?spec n)" using get [of n] Some by (auto split: if_splits)
    ultimately show ?thesis using update_reports by simp
  qed
  then show ?thesis using updateHealthManager_run [OF bl fl] by blast
qed

text \<open>
  C24: a report whose two lists succeed leaves the cached endpoints of a frontend without recorded pods as they are.
  For every other frontend, whatever order the maps are visited in, the cache then has the recorded
  endpoints, or the ones it had before, and in both cases every recorded address with its recorded
  health; when neither the cached list nor the recorded one repeats an address, the cached health of the
  frontend is exactly the recorded one. The report does not write to the cluster.
\<close>

theorem report_correct:
  assumes wf: "states_wf (mon_endpointStates w)" and ord: "orders_ok ord"
    and bl: "ListBackends k \<lparr>lo_LabelSelector = None, lo_Namespace = Some (mon_namespace w)\<rparr> world = (Inr bl, world1)"
    and fl: "ListFrontends k \<lparr>lo_LabelSelector = None, lo_Namespace = Some (mon_namespace w)\<rparr> world1 = (Inr fl, world2)"
  shows "\<exists>hm'. updateHealthManager k ord ready w hm world = (Inr hm', world2)
    \<and> (\<forall>n. let old = HealthCache_Get (hm_cache hm) n; got = HealthCache_Get (hm_cache hm') n;
              recorded = spec_endpoints k w (bel_Items bl) (fel_Items fl) n in
           if spec_hits k w (bel_Items bl) (fel_Items fl) n = [] then got = old
           else (\<exists>eps. mset eps = mset recorded \<and> got \<in> {eps, old} \<and> health_map eps \<subseteq>\<^sub>m health_map got)
              \<and> (distinct_ips old \<and> distinct_ips recorded \<longrightarrow> health_map got = health_map recorded))"
proof -
  obtain hm' where hm': "updateHealthManager k ord ready w hm world = (Inr hm', world2)"
    and each: "\<And>n. if spec_hits k w (bel_Items bl) (fel_Items fl) n = []
           then HealthCache_Get (hm_cache hm') n = HealthCache_Get (hm_cache hm) n
           else reported_health (spec_endpoints k w (bel_Items bl) (fel_Items fl) n) (HealthCache_Get (hm_cache hm) n)
                  (HealthCache_Get (hm_cache hm') n)"
    using report_cached [OF assms] by blast
  show ?thesis
  proof (rule exI [of _ hm'], rule conjI [OF hm'], rule allI, goal_cases)
    case (1 n)
    show ?case using each [of n] by (simp add: Let_def reported_health_def split: if_splits)
  qed
qed

definition sample_cluster :: cluster where
  "sample_cluster = empty_cluster\<lparr>cl_loadbalancers := [sample_lb 1],
     cl_frontends := [sample_frontend ''web'' None None, sample_frontend ''api'' None None],
     cl_backends := [sample_backend ''b'' ''example.org'']\<rparr>"

lemma sample_lists:
  "mem_list_frontends \<lparr>lo_LabelSelector = None, lo_Namespace = Some ''glb''\<rparr> sample_cluster =
     (Inr \<lparr>fel_TypeMeta = zero_TypeMeta, fel_ListMeta = zero_ListMeta,
           fel_Items = [sample_frontend ''web'' None None, sample_frontend ''api'' None None]\<rparr>, sample_cluster)"
  "mem_list_backends \<lparr>lo_LabelSelector = None, lo_Namespace = Some ''glb''\<rparr> sample_cluster =
     (Inr \<lparr>bel_TypeMeta = zero_TypeMeta, bel_ListMeta = zero_ListMeta, bel_Items = [sample_backend ''b'' ''example.org'']\<rparr>, sample_cluster)"
  by (simp_all add: mem_list_frontends_def mem_list_backends_def sample_cluster_def empty_cluster_def listed_def lookup_def
      mem_chosen_def meta_key_def) (simp add: sample_defs)

lemma sample_selects: "selects mem_kube (sample_frontend n ref p) (sample_backend b h)"
  by (simp add: selects_def mem_kube_sel mem_selector_def sample_frontend_def)

theorem report_correct_witness:
  "\<exists>hm'. updateHealthManager mem_kube plain_orders (\<lambda>_. True) (run_mon [] [(''u1'', target1)] [(''b'', [(''u1'', True)])])
      (NewHealthManager NewHealthCache) sample_cluster = (Inr hm', sample_cluster)
    \<and> health_map (HealthCache_Get (hm_cache hm') (NN ''glb'' ''web'')) ''10.1.0.1'' = Some True"
proof -
  let ?w = "run_mon [] [(''u1'', target1)] [(''b'', [(''u1'', True)])]"
  let ?fes = "[sample_frontend ''web'' None None, sample_frontend ''api'' None None]"
  have w: "mon_endpointStates ?w = [(''b'', [(''u1'', True)])]" "mon_namespace ?w = ''glb''" by (simp_all add: run_mon_def)
  have wf: "states_wf (mon_endpointStates ?w)" by (simp add: w states_wf_def gm_wf_def)
  have old: "distinct_ips (HealthCache_Get (hm_cache (NewHealthManager NewHealthCache)) n)" for n
    by (simp add: NewHealthManager_def NewHealthCache_def HealthCache_Get_def slice_at_def distinct_ips_def)
  have spec: "spec_endpoints mem_kube ?w [sample_backend ''b'' ''example.org''] ?fes n =
      (if n = NN ''glb'' ''web'' \<or> n = NN ''glb'' ''api'' then [endpoint_of ?w (''u1'', True)] else [])"
    "spec_hits mem_kube ?w [sample_backend ''b'' ''example.org''] ?fes (NN ''glb'' ''web'') \<noteq> []" for n
    by (auto simp: spec_endpoints_def spec_hits_def w sample_selects inner_at_def)
  have ips: "\<forall>n. distinct_ips (spec_endpoints mem_kube ?w [sample_backend ''b'' ''example.org''] ?fes n)"
    by (simp add: spec distinct_ips_def)
  have ep: "health_map [endpoint_of ?w (''u1'', True)] ''10.1.0.1'' = Some True"
    by (simp add: health_map_def endpoint_of_def target_at_def run_mon_def) (simp add: target_of_def pod1_def sample_pod_def)
  have lists: "ListBackends mem_kube \<lparr>lo_LabelSelector = None, lo_Namespace = Some (mon_namespace ?w)\<rparr> sample_cluster =
      (Inr \<lparr>bel_TypeMeta = zero_TypeMeta, bel_ListMeta = zero_ListMeta, bel_Items = [sample_backend ''b'' ''example.org'']\<rparr>, sample_cluster)"
    "ListFrontends mem_kube \<lparr>lo_LabelSelector = None, lo_Namespace = Some (mon_namespace ?w)\<rparr> sample_cluster =
      (Inr \<lparr>fel_TypeMeta = zero_TypeMeta, fel_ListMeta = zero_ListMeta, fel_Items = ?fes\<rparr>, sample_cluster)"
    by (simp_all add: mem_kube_sel sample_lists w)
  from report_correct [OF wf plain_orders_ok lists, of "\<lambda>_. True" "NewHealthManager NewHealthCache"] obtain hm' where
    "updateHealthManager mem_kube plain_orders (\<lambda>_. True) ?w (NewHealthManager NewHealthCache) sample_cluster = (Inr hm', sample_cluster)"
    "health_map (HealthCache_Get (hm_cache hm') (NN ''glb'' ''web'')) = health_map (spec_endpoints mem_kube ?w [sample_backend ''b'' ''example.org''] ?fes (NN ''glb'' ''web''))"
    using old ips spec(2) by (auto simp: Let_def split: if_splits)
  with ep spec(1) show ?thesis by auto
qed

text \<open>
  When the last pod with recorded states is deleted, the next report does nothing: the cache keeps
  the endpoints of pods that are gone, healthy as they were, and no event is sent.
\<close>

theorem last_pod_kept:
  assumes wf: "states_wf (mon_endpointStates w)" and ords: "range_order ord'" "orders_ok ord"
    and sel: "mon_selector w (pod_Labels pod)" and w': "w' = mon_handle ord' (PodDeleted (Obj pod)) w"
    and last: "\<forall>b u. state_at (mon_endpointStates w) b u \<noteq> None \<longrightarrow> u = pod_UID pod"
    and bl: "ListBackends k \<lparr>lo_LabelSelector = None, lo_Namespace = Some (mon_namespace w)\<rparr> world = (Inr bl, world1)"
    and fl: "ListFrontends k \<lparr>lo_LabelSelector = None, lo_Namespace = Some (mon_namespace w)\<rparr> world1 = (Inr fl, world2)"
  shows "updateHealthManager k ord ready w' hm world = (Inr hm, world2)"
proof -
  have del: "w' = pod_onDelete ord' pod w" using sel w' pod_events.filt_hit by simp
  have gw: "gm_wf (mon_endpointStates w)" using wf by (simp add: states_wf_def)
  have none: "state_at (mon_endpointStates w') b u = None" for b u
    using onDelete_state_at [OF ords(1) gw, of pod b u] last del by (cases "state_at (mon_endpointStates w) b u") auto
  have wf': "states_wf (mon_endpointStates w')" using onDelete_states_wf [OF ords(1) wf] del by simp
  have "gm_get (mon_endpointStates w') b = None" for b
  proof (cases "gm_get (mon_endpointStates w') b")
    case (Some m)
    then obtain u h m' where m: "m = (u, h) # m'" using wf' by (cases m) (auto simp: states_wf_def)
    then show ?thesis using none [of b u] Some by (simp add: state_at_def inner_at_def)
  qed
  then have "spec_hits k w' (bel_Items bl) (fel_Items fl) n = []" for n by (simp add: spec_hits_def)
  then have "gm_get (frontendEndpointStates k ord w' (bel_Items bl) (fel_Items fl)) n = None" for n
    using frontendEndpointStates_get [OF wf' ords(2), of k "bel_Items bl" "fel_Items fl" n] by simp
  then have empty: "frontendEndpointStates k ord w' (bel_Items bl) (fel_Items fl) = []"
    by (metis list.exhaust map_of_Cons_code(2) old.prod.exhaust option.distinct(1))
  have "range_order (ord_frontends ord)" using ords(2) by (simp add: orders_ok_def)
  then have "mset (ord_frontends ord []) = mset []" by (rule range_order_mset)
  then have "report_loop ready hm (ord_frontends ord []) = hm" by simp
  moreover have "mon_namespace w' = mon_namespace w" using w' by (simp only: mon_handle_frame)
  ultimately show ?thesis using updateHealthManager_run [of k w' world bl world1 fl world2] bl fl empty by simp
qed

theorem last_pod_kept_witness:
  "updateHealthManager mem_kube plain_orders (\<lambda>_. True)
     (mon_handle id (PodDeleted (Obj pod1)) (run_mon [(''u1'', pod1)] [(''u1'', target1)] [(''b'', [(''u1'', True)])]))
     \<lparr>hm_cache = \<lparr>hc_endpoints = [(NN ''glb'' ''web'', [sample_endpoint ''n1'' ''10.1.0.1'' True])]\<rparr>, hm_events = []\<rparr> sample_cluster
   = (Inr \<lparr>hm_cache = \<lparr>hc_endpoints = [(NN ''glb'' ''web'', [sample_endpoint ''n1'' ''10.1.0.1'' True])]\<rparr>, hm_events = []\<rparr>, sample_cluster)"
proof -
  let ?w = "run_mon [(''u1'', pod1)] [(''u1'', target1)] [(''b'', [(''u1'', True)])]"
  have w: "mon_endpointStates ?w = [(''b'', [(''u1'', True)])]" "mon_namespace ?w = ''glb''" by (simp_all add: run_mon_def)
  have wf: "states_wf (mon_endpointStates ?w)" by (simp add: w states_wf_def gm_wf_def)
  have sel: "mon_selector ?w (pod_Labels pod1)" "pod_UID pod1 = ''u1''" by (simp_all add: run_mon_def pod1_def sample_pod_def)
  have last: "\<forall>b u. state_at (mon_endpointStates ?w) b u \<noteq> None \<longrightarrow> u = pod_UID pod1"
    by (simp add: w sel state_at_def inner_at_def)
  have lists: "ListBackends mem_kube \<lparr>lo_LabelSelector = None, lo_Namespace = Some (mon_namespace ?w)\<rparr> sample_cluster =
      (Inr \<lparr>bel_TypeMeta = zero_TypeMeta, bel_ListMeta = zero_ListMeta, bel_Items = [sample_backend ''b'' ''example.org'']\<rparr>, sample_cluster)"
    "ListFrontends mem_kube \<lparr>lo_LabelSelector = None, lo_Namespace = Some (mon_namespace ?w)\<rparr> sample_cluster =
      (Inr \<lparr>fel_TypeMeta = zero_TypeMeta, fel_ListMeta = zero_ListMeta,
            fel_Items = [sample_frontend ''web'' None None, sample_frontend ''api'' None None]\<rparr>, sample_cluster)"
    by (simp_all add: mem_kube_sel sample_lists w)
  show ?thesis by (rule last_pod_kept [OF wf range_order_id(1) plain_orders_ok sel(1) refl last lists])
qed

lemma concat_map_concat: "concat (map f (concat (map g xs))) = concat (map (\<lambda>x. concat (map f (g x))) xs)"
  by (induction xs) simp_all

text \<open>
  A frontend that selects two backends gets every pod recorded for both of them twice, so its
  endpoints do not have distinct addresses and the cache's comparison is not exact for it.
\<close>

theorem two_backends_duplicate:
  assumes wf: "states_wf (mon_endpointStates w)" and ord: "orders_ok ord" and fe: "fe \<in> set frontends"
    and bs: "backends = xs @ be1 # ys @ be2 # zs" and sel: "selects k fe be1" "selects k fe be2"
    and rec: "state_at (mon_endpointStates w) (be_Name be1) u = Some h1" "state_at (mon_endpointStates w) (be_Name be2) u = Some h2"
  shows "\<exists>eps. gm_get (frontendEndpointStates k ord w backends frontends) (fe_key fe) = Some eps \<and> \<not> distinct_ips eps"
proof -
  let ?n = "fe_key fe"
  let ?hit = "\<lambda>be. [(be, fe'). fe' \<leftarrow> frontends, gm_get (mon_endpointStates w) (be_Name be) \<noteq> None \<and> selects k fe' be \<and> fe_key fe' = ?n]"
  let ?eps = "\<lambda>be. concat (map (\<lambda>(be, fe). map (endpoint_of w) (inner_at (mon_endpointStates w) (be_Name be))) (?hit be))"
  have hits: "spec_hits k w bes frontends ?n = concat (map ?hit bes)" for bes
    by (simp add: spec_hits_def)
  have has: "st_IP (target_at w u) \<in> set (map ep_IPAddress (?eps be)) \<and> ?hit be \<noteq> []"
    if be: "selects k fe be" "state_at (mon_endpointStates w) (be_Name be) u = Some h" for be h
  proof -
    have entry: "(u, h) \<in> set (inner_at (mon_endpointStates w) (be_Name be))"
      using be(2) by (simp add: state_at_def map_of_SomeD)
    then have "gm_get (mon_endpointStates w) (be_Name be) \<noteq> None"
      by (cases "gm_get (mon_endpointStates w) (be_Name be)") (auto simp: inner_at_def)
    then have hit: "(be, fe) \<in> set (?hit be)" using fe be(1) by auto
    have "map (endpoint_of w) (inner_at (mon_endpointStates w) (be_Name be))
        \<in> set (map (\<lambda>(be, fe). map (endpoint_of w) (inner_at (mon_endpointStates w) (be_Name be))) (?hit be))"
      unfolding set_map by (rule image_eqI [OF _ hit]) simp
    moreover have "endpoint_of w (u, h) \<in> set (map (endpoint_of w) (inner_at (mon_endpointStates w) (be_Name be)))"
      using entry by simp
    ultimately have "endpoint_of w (u, h) \<in> set (?eps be)" unfolding set_concat by (rule UN_I)
    then have "ep_IPAddress (endpoint_of w (u, h)) \<in> set (map ep_IPAddress (?eps be))" unfolding set_map by (rule imageI)
    moreover have "ep_IPAddress (endpoint_of w (u, h)) = st_IP (target_at w u)" by (simp add: endpoint_of_def Let_def)
    moreover have "?hit be \<noteq> []" using hit by (metis empty_iff list.set(1))
    ultimately show ?thesis by simp
  qed
  have spec: "spec_endpoints k w backends frontends ?n =
      concat (map ?eps xs) @ ?eps be1 @ concat (map ?eps ys) @ ?eps be2 @ concat (map ?eps zs)"
    unfolding spec_endpoints_def hits concat_map_concat bs by (simp only: map_append list.map concat_append concat.simps append_assoc)
  have "\<not> distinct_ips (spec_endpoints k w backends frontends ?n)"
    using has [OF sel(1) rec(1)] has [OF sel(2) rec(2)] unfolding distinct_ips_def spec map_append distinct_append set_append by blast
  moreover have "spec_hits k w backends frontends ?n \<noteq> []"
    unfolding hits bs using has [OF sel(1) rec(1)] by (simp only: map_append list.map concat_append concat.simps) blast
  moreover from this obtain eps where "gm_get (frontendEndpointStates k ord w backends frontends) ?n = Some eps"
    "mset eps = mset (spec_endpoints k w backends frontends ?n)"
    using frontendEndpointStates_get [OF wf ord, of k backends frontends ?n] by (metis (no_types, lifting) map_option_eq_Some)
  ultimately show ?thesis using distinct_ips_mset by blast
qed

theorem two_backends_duplicate_witness:
  "\<exists>eps. gm_get (frontendEndpointStates mem_kube plain_orders (run_mon [] [(''u1'', target1)] [(''b1'', [(''u1'', True)]), (''b2'', [(''u1'', True)])])
       [sample_backend ''b1'' ''a.org'', sample_backend ''b2'' ''b.org''] [sample_frontend ''web'' None None]) (fe_key (sample_frontend ''web'' None None)) = Some eps
     \<and> \<not> distinct_ips eps"
proof -
  let ?w = "run_mon [] [(''u1'', target1)] [(''b1'', [(''u1'', True)]), (''b2'', [(''u1'', True)])]"
  have w: "mon_endpointStates ?w = [(''b1'', [(''u1'', True)]), (''b2'', [(''u1'', True)])]" by (simp add: run_mon_def)
  have "states_wf (mon_endpointStates ?w)" by (simp add: w states_wf_def gm_wf_def)
  moreover have "state_at (mon_endpointStates ?w) (be_Name (sample_backend ''b1'' ''a.org'')) ''u1'' = Some True"
    "state_at (mon_endpointStates ?w) (be_Name (sample_backend ''b2'' ''b.org'')) ''u1'' = Some True"
    by (simp_all add: w state_at_def inner_at_def)
  ultimately show ?thesis
    using two_backends_duplicate [of ?w plain_orders "sample_frontend ''web'' None None" "[sample_frontend ''web'' None None]"
        "[sample_backend ''b1'' ''a.org'', sample_backend ''b2'' ''b.org'']" "[]" "sample_backend ''b1'' ''a.org''" "[]"
        "sample_backend ''b2'' ''b.org''" "[]" mem_kube "''u1''" True True] plain_orders_ok sample_selects
    by simp
qed

end
