(* ===== verification/Controller_Properties.thy ===== *)
theory Controller_Properties
  imports Monitor_Properties
begin

text \<open>
  Properties of the two reconcilers and of the peer watcher, over any client that behaves as
  documented; their witnesses run on the in-memory cluster.
\<close>

section \<open>Claiming frontends\<close>

text \<open>The frontends a load balancer's selector matches in a world.\<close>

definition in_scope :: "'w kube \<Rightarrow> GlobalLoadBalancer \<Rightarrow> (NamespacedName \<rightharpoonup> Frontend) \<Rightarrow> Frontend \<Rightarrow> bool" where
  "in_scope k lb s fe \<longleftrightarrow> s (fe_key fe) = Some fe \<and> eligible lb False fe
     \<and> (case LabelSelectorAsSelector k (lbs_FrontendSelector (lb_Spec lb)) of Inl e \<Rightarrow> False
        | Inr sel \<Rightarrow> sel (om_Labels (fe_ObjectMeta fe)))"

lemma getFrontends_reads:
  assumes "list_frontends_doc k stored"
  shows "stored (snd (getFrontends k lb onlyOwned w)) = stored w"
proof -
  have "stored (snd (ListFrontends k opts w)) = stored w" for opts
    using assms by (simp add: list_frontends_doc_def)
  then show ?thesis
    by (simp add: getFrontends_run split: sum.splits prod.splits) (metis snd_conv)
qed

lemma getFrontends_scope:
  assumes doc: "list_frontends_doc k stored" and run: "getFrontends k lb False w = (Inr fes, w')"
  shows "distinct (map fe_key fes)" "fe \<in> set fes \<longleftrightarrow> in_scope k lb (stored w) fe"
proof -
  obtain sel l where sel: "LabelSelectorAsSelector k (lbs_FrontendSelector (lb_Spec lb)) = Inr sel"
    and l: "ListFrontends k \<lparr>lo_LabelSelector = Some sel, lo_Namespace = None\<rparr> w = (Inr l, w')"
    and fes: "fes = filter (eligible lb False) (fel_Items l)"
    using run by (auto simp: getFrontends_run split: sum.splits prod.splits)
  from doc l have d: "distinct (map fe_key (fel_Items l))"
    "\<And>fe. fe \<in> set (fel_Items l) \<longleftrightarrow> stored w (fe_key fe) = Some fe \<and> sel (om_Labels (fe_ObjectMeta fe))"
    unfolding list_frontends_doc_def by blast+
  show "distinct (map fe_key fes)" using d(1) by (simp add: fes distinct_map_filter)
  show "fe \<in> set fes \<longleftrightarrow> in_scope k lb (stored w) fe" using d(2) sel by (auto simp: fes in_scope_def)
qed

lemma planned_origin:
  assumes "fe' \<in> set (planned_writes lb sp fes)"
  obtains fe where "fe \<in> set fes" "needs_write fe" "fe' = fst (assign_frontend lb (GetNextPort fes sp) fe)"
  using assms by (auto simp: planned_writes_def)

lemma assign_conditions: "fest_Conditions (fe_Status (fst (assign_frontend lb p fe))) = fest_Conditions (fe_Status fe)"
  by (simp add: assign_frontend_def Let_def)

lemma planned_keys: "distinct (map fe_key fes) \<Longrightarrow> distinct (map fe_key (planned_writes lb sp fes))"
proof -
  have "map fe_key (planned_writes lb sp fes) = map fe_key (filter needs_write fes)"
    by (simp add: planned_writes_def)
  then show "distinct (map fe_key fes) \<Longrightarrow> ?thesis" by (simp add: distinct_map_filter)
qed

text \<open>What a run, whatever its outcome, does to one stored frontend: nothing, or the assignment of the loop body.\<close>

lemma ReconcileFrontends_step:
  assumes lists: "list_frontends_doc k stored" and updates: "status_update_doc k stored"
    and run: "ReconcileFrontends k r lb w = (res, w')" and old: "stored w n = Some old"
  shows "stored w' n = Some old \<or> (\<exists>fes w1 v. getFrontends k lb False w = (Inr fes, w1) \<and> in_scope k lb (stored w) old
    \<and> stored w' n = Some (with_version v
        (old\<lparr>fe_Status := fe_Status (fst (assign_frontend lb (GetNextPort fes (glbr_StartingPort r)) old))\<rparr>)))"
proof (cases "getFrontends k lb False w")
  case (Pair o1 w1)
  have w1: "stored w1 = stored w" using getFrontends_reads [OF lists, of lb False w] Pair by simp
  show ?thesis
  proof (cases o1)
    case (Inl f)
    then have "w' = w1" using run Pair by (simp add: ReconcileFrontends_run)
    then show ?thesis using old w1 by simp
  next
    case (Inr fes)
    let ?p = "GetNextPort fes (glbr_StartingPort r)"
    have "run_writes k (planned_writes lb (glbr_StartingPort r) fes) w1 = (res, w')"
      using run Pair Inr by (simp add: ReconcileFrontends_run)
    note writes = run_writes_stored [OF updates this, of n]
    consider "stored w' n = stored w n" | fe' v where "fe' \<in> set (planned_writes lb (glbr_StartingPort r) fes)"
        "fe_key fe' = n" "stored w' n = Some (with_version v (old\<lparr>fe_Status := fe_Status fe'\<rparr>))"
      using writes w1 old by auto
    then show ?thesis
    proof cases
      case 1
      then show ?thesis using old by simp
    next
      case (2 fe' v)
      from 2(1) obtain fe where fe: "fe \<in> set fes" "fe' = fst (assign_frontend lb ?p fe)" by (rule planned_origin)
      then have scope: "in_scope k lb (stored w) fe" using getFrontends_scope(2) [OF lists] Pair Inr by simp
      then have "fe = old" using fe(2) 2(2) old by (simp add: in_scope_def)
      then show ?thesis using 2(3) fe scope Pair Inr by auto
    qed
  qed
qed

text \<open>
  C4: whatever ReconcileFrontends does, and however the status updates fail, a stored frontend keeps its
  metadata (but for the resource version), its spec and its conditions; a frontend of another load balancer is untouched; an owner and a
  port that are set are never changed; an owner that appears is this load balancer, and a port that
  appears is the one GetNextPort gives for the frontends in scope.
\<close>

theorem ReconcileFrontends_safe:
  assumes lists: "list_frontends_doc k stored" and updates: "status_update_doc k stored"
    and run: "ReconcileFrontends k r lb w = (res, w')" and old: "stored w n = Some old"
  shows "\<exists>new. stored w' n = Some new \<and> fe_ObjectMeta new = (fe_ObjectMeta old)\<lparr>om_ResourceVersion := fe_version new\<rparr> \<and> fe_Spec new = fe_Spec old
    \<and> fest_Conditions (fe_Status new) = fest_Conditions (fe_Status old)
    \<and> (\<not> in_scope k lb (stored w) old \<longrightarrow> new = old)
    \<and> (fe_Owner old \<noteq> None \<longrightarrow> fe_Owner new = fe_Owner old)
    \<and> (fe_Port old \<noteq> None \<longrightarrow> fe_Port new = fe_Port old)
    \<and> (fe_Owner new \<noteq> fe_Owner old \<longrightarrow> fe_Owner new = Some \<lparr>lbr_Name = lb_Name lb, lbr_Namespace = lb_Namespace lb\<rparr>)
    \<and> (fe_Port new \<noteq> fe_Port old \<longrightarrow> (\<exists>fes. getFrontends k lb False w = (Inr fes, snd (getFrontends k lb False w))
         \<and> fe_Port new = Some (GetNextPort fes (glbr_StartingPort r))))"
  using ReconcileFrontends_step [OF assms]
proof (elim disjE exE conjE)
  assume "stored w' n = Some old"
  then show ?thesis by simp
next
  fix fes w1 v
  assume get: "getFrontends k lb False w = (Inr fes, w1)" and scope: "in_scope k lb (stored w) old"
    and new: "stored w' n = Some (with_version v
      (old\<lparr>fe_Status := fe_Status (fst (assign_frontend lb (GetNextPort fes (glbr_StartingPort r)) old))\<rparr>))"
  show ?thesis
    unfolding new
    by (rule exI [of _ "with_version v (old\<lparr>fe_Status := fe_Status (fst (assign_frontend lb (GetNextPort fes (glbr_StartingPort r)) old))\<rparr>)"])
      (auto simp: get scope assign_conditions assign_facts split: option.splits)
qed

definition sample_reconciler :: GlobalLoadBalancerReconciler where
  "sample_reconciler = \<lparr>glbr_StartingPort = 10240\<rparr>"

theorem ReconcileFrontends_safe_witness:
  "\<exists>new. mem_frontends (snd (ReconcileFrontends mem_kube sample_reconciler (sample_lb 1) sample_cluster)) (NN ''glb'' ''web'') = Some new
     \<and> fe_Spec new = fe_Spec (sample_frontend ''web'' None None)"
proof -
  have "mem_frontends sample_cluster (NN ''glb'' ''web'') = Some (sample_frontend ''web'' None None)"
    by (simp add: sample_cluster_def lookup_def)
  moreover obtain res w' where run: "ReconcileFrontends mem_kube sample_reconciler (sample_lb 1) sample_cluster = (res, w')"
    by (cases "ReconcileFrontends mem_kube sample_reconciler (sample_lb 1) sample_cluster")
  ultimately have "\<exists>new. mem_frontends w' (NN ''glb'' ''web'') = Some new \<and> fe_Spec new = fe_Spec (sample_frontend ''web'' None None)"
    using ReconcileFrontends_safe [OF mem_list_frontends_doc mem_status_update run] by blast
  then show ?thesis by (simp add: run)
qed

lemma run_writes_ok: "writes_succeed k ws w \<Longrightarrow> fst (run_writes k ws w) = Inr ()"
  by (induction ws arbitrary: w) (auto split: prod.splits sum.splits)

text \<open>What is stored for a frontend in scope after a run in which its status update, if it needs one, succeeds.\<close>

lemma ReconcileFrontends_one:
  assumes lists: "list_frontends_doc k stored" and updates: "status_update_doc k stored"
    and get: "getFrontends k lb False w = (Inr fes, w1)" and run: "ReconcileFrontends k r lb w = (res, w')"
    and ok: "fe_key fe \<notin> set (failed_claims k r lb w)" and scope: "in_scope k lb (stored w) fe"
  shows "\<exists>new. stored w' (fe_key fe) = Some new
    \<and> fe_Port new = Some (case fe_Port fe of None \<Rightarrow> GetNextPort fes (glbr_StartingPort r) | Some p \<Rightarrow> p)
    \<and> fe_Owner new = Some (case fe_Owner fe of None \<Rightarrow> \<lparr>lbr_Name = lb_Name lb, lbr_Namespace = lb_Namespace lb\<rparr> | Some ref \<Rightarrow> ref)"
proof -
  let ?p = "GetNextPort fes (glbr_StartingPort r)" and ?ws = "planned_writes lb (glbr_StartingPort r) fes"
  have w': "run_writes k ?ws w1 = (res, w')" using get run by (simp add: ReconcileFrontends_run)
  have w1: "stored w1 = stored w" using getFrontends_reads [OF lists, of lb False w] get by simp
  have fe: "fe \<in> set fes" using getFrontends_scope(2) [OF lists get] scope by simp
  have dist: "distinct (map fe_key fes)" using getFrontends_scope(1) [OF lists get] .
  have old: "stored w (fe_key fe) = Some fe" using scope by (simp add: in_scope_def)
  show ?thesis
  proof (cases "needs_write fe")
    case True
    let ?fe' = "fst (assign_frontend lb ?p fe)"
    have "?fe' \<in> set ?ws" using fe True by (auto simp: planned_writes_def)
    moreover have "?fe' \<notin> set (unwritten k ?ws w1)"
    proof
      assume "?fe' \<in> set (unwritten k ?ws w1)"
      then have "fe_key ?fe' \<in> fe_key ` set (unwritten k ?ws w1)" by (rule imageI)
      then have "fe_key ?fe' \<in> set (failed_claims k r lb w)" by (simp add: failed_claims_def get)
      then show False using ok by simp
    qed
    ultimately have "\<exists>v. stored w' (fe_key fe) = Some (with_version v (fe\<lparr>fe_Status := fe_Status ?fe'\<rparr>))"
      using run_writes_each [OF updates planned_keys [OF dist]] w' w1 old by fastforce
    then show ?thesis by (auto simp: assign_facts)
  next
    case False
    have "fe_key fe' \<noteq> fe_key fe" if "fe' \<in> set ?ws" for fe'
    proof -
      from that obtain fe0 where fe0: "fe0 \<in> set fes" "needs_write fe0" "fe' = fst (assign_frontend lb ?p fe0)"
        by (rule planned_origin)
      then have "fe0 \<noteq> fe" using False by auto
      then show ?thesis using fe0 fe dist by (auto simp: distinct_map inj_on_def)
    qed
    then have "stored w' (fe_key fe) = Some fe"
      using run_writes_stored [OF updates w', of "fe_key fe"] w1 old by auto
    with False show ?thesis by (auto simp: needs_write_def)
  qed
qed

lemma ReconcileFrontends_stored:
  assumes lists: "list_frontends_doc k stored" and updates: "status_update_doc k stored"
    and get: "getFrontends k lb False w = (Inr fes, w1)"
    and ok: "writes_succeed k (planned_writes lb (glbr_StartingPort r) fes) w1"
    and scope: "in_scope k lb (stored w) fe"
  shows "\<exists>w' new. ReconcileFrontends k r lb w = (Inr (), w') \<and> stored w' (fe_key fe) = Some new
    \<and> fe_Port new = Some (case fe_Port fe of None \<Rightarrow> GetNextPort fes (glbr_StartingPort r) | Some p \<Rightarrow> p)
    \<and> fe_Owner new = Some (case fe_Owner fe of None \<Rightarrow> \<lparr>lbr_Name = lb_Name lb, lbr_Namespace = lb_Namespace lb\<rparr> | Some ref \<Rightarrow> ref)"
proof -
  obtain w' where "run_writes k (planned_writes lb (glbr_StartingPort r) fes) w1 = (Inr (), w')"
    using run_writes_ok [OF ok] by (metis prod.collapse)
  then have run: "ReconcileFrontends k r lb w = (Inr (), w')" using get by (simp add: ReconcileFrontends_run)
  have "failed_claims k r lb w = []" using writes_succeed_all [OF ok] get by (simp add: failed_claims_def)
  then show ?thesis using ReconcileFrontends_one [OF lists updates get run _ scope] run by simp
qed

text \<open>
  C3: when the list succeeds and shows the stored frontends, and the status updates succeed, ReconcileFrontends succeeds and every frontend in
  scope ends up with an owner and a port; its own if it had them, else this load balancer and the port
  GetNextPort gives.
\<close>

theorem ReconcileFrontends_claims:
  assumes "list_frontends_doc k stored" and "status_update_doc k stored"
    and "getFrontends k lb False w = (Inr fes, w1)"
    and "writes_succeed k (planned_writes lb (glbr_StartingPort r) fes) w1"
    and "in_scope k lb (stored w) fe"
  shows "\<exists>w' new. ReconcileFrontends k r lb w = (Inr (), w') \<and> stored w' (fe_key fe) = Some new
    \<and> (\<exists>ref. fe_Owner new = Some ref \<and> owned_by lb ref)
    \<and> fe_Port new = Some (case fe_Port fe of None \<Rightarrow> GetNextPort fes (glbr_StartingPort r) | Some p \<Rightarrow> p)"
proof -
  have "case fe_Owner fe of None \<Rightarrow> True | Some ref \<Rightarrow> owned_by lb ref"
    using assms(5) by (simp add: in_scope_def eligible_def split: option.splits)
  then show ?thesis
    using ReconcileFrontends_stored [OF assms] by (fastforce simp: owned_by_def split: option.splits)
qed

lemma sample_get: "getFrontends mem_kube (sample_lb 1) False sample_cluster =
    (Inr [sample_frontend ''web'' None None, sample_frontend ''api'' None None], sample_cluster)"
  by (simp add: getFrontends_run mem_kube_sel mem_selector_def mem_list_frontends_def mem_chosen_def sample_cluster_def
      listed_def lookup_def eligible_def) (simp add: sample_defs)

lemma sample_scope: "in_scope mem_kube (sample_lb 1) (mem_frontends sample_cluster) (sample_frontend ''web'' None None)"
  "in_scope mem_kube (sample_lb 1) (mem_frontends sample_cluster) (sample_frontend ''api'' None None)"
  using getFrontends_scope(2) [OF mem_list_frontends_doc sample_get] by auto

text \<open>On the cluster in memory every planned write succeeds: it carries the version that is stored.\<close>

lemma mem_update_ok:
  assumes "mem_frontends w (fe_key fe) = Some old" and "fe_version old = fe_version fe"
  shows "\<exists>new w'. mem_update_frontend fe w = (Inr new, w') \<and> (\<forall>n. map_option fe_version (mem_frontends w' n) = map_option fe_version (mem_frontends w n))"
proof -
  let ?new = "old\<lparr>fe_Status := fe_Status fe\<rparr>"
  have "fe_key ?new = fe_key fe" using lookup_key [OF assms(1)] by simp
  then have "map_option fe_version (mem_frontends (w\<lparr>cl_frontends := store fe_key ?new (cl_frontends w)\<rparr>) n) = map_option fe_version (mem_frontends w n)" for n
    using assms by (simp add: lookup_store)
  moreover have "mem_update_frontend fe w = (Inr ?new, w\<lparr>cl_frontends := store fe_key ?new (cl_frontends w)\<rparr>)"
    using assms by (simp add: mem_update_frontend_def Let_def)
  ultimately show ?thesis by blast
qed

lemma mem_writes_succeed:
  "(\<And>fe. fe \<in> set ws \<Longrightarrow> map_option fe_version (mem_frontends w (fe_key fe)) = Some (fe_version fe)) \<Longrightarrow> writes_succeed mem_kube ws w"
proof (induction ws arbitrary: w)
  case (Cons fe ws)
  then obtain old where "mem_frontends w (fe_key fe) = Some old" "fe_version old = fe_version fe" by force
  then obtain new w' where up: "mem_update_frontend fe w = (Inr new, w')"
    "\<And>n. map_option fe_version (mem_frontends w' n) = map_option fe_version (mem_frontends w n)" using mem_update_ok by blast
  have "writes_succeed mem_kube ws w'" using Cons.IH [of w'] Cons.prems up(2) by (metis list.set_intros(2))
  then show ?case using up(1) by (simp add: mem_kube_sel)
qed simp

lemma mem_plan_succeeds:
  assumes "getFrontends mem_kube lb False w = (Inr fes, w1)"
  shows "writes_succeed mem_kube (planned_writes lb sp fes) w1"
proof (rule mem_writes_succeed)
  fix fe'
  assume "fe' \<in> set (planned_writes lb sp fes)"
  then obtain fe where fe: "fe \<in> set fes" "fe' = fst (assign_frontend lb (GetNextPort fes sp) fe)" by (rule planned_origin)
  then have "mem_frontends w (fe_key fe) = Some fe"
    using getFrontends_scope(2) [OF mem_list_frontends_doc assms] by (simp add: in_scope_def)
  moreover have "mem_frontends w1 = mem_frontends w" using getFrontends_reads [OF mem_list_frontends_doc, of lb False w] assms by simp
  ultimately show "map_option fe_version (mem_frontends w1 (fe_key fe')) = Some (fe_version fe')" using fe(2) by simp
qed

theorem ReconcileFrontends_claims_witness:
  "\<exists>w' new. ReconcileFrontends mem_kube sample_reconciler (sample_lb 1) sample_cluster = (Inr (), w')
     \<and> mem_frontends w' (NN ''glb'' ''web'') = Some new \<and> fe_Port new = Some 10240"
proof -
  have "GetNextPort [sample_frontend ''web'' None None, sample_frontend ''api'' None None] (glbr_StartingPort sample_reconciler) = 10240"
    by (simp add: GetNextPort_def sample_reconciler_def)
  with ReconcileFrontends_claims [OF mem_list_frontends_doc mem_status_update sample_get mem_plan_succeeds [OF sample_get] sample_scope(1)]
  show ?thesis by fastforce
qed

text \<open>
  C9: all the frontends in scope that have no port get the same one in the same run, when the list shows the stored
  frontends and the status updates succeed: the loop asks for the next port of a slice it never changes.
\<close>

theorem pending_frontends_share_port:
  assumes "list_frontends_doc k stored" and "status_update_doc k stored"
    and "getFrontends k lb False w = (Inr fes, w1)"
    and "writes_succeed k (planned_writes lb (glbr_StartingPort r) fes) w1"
    and "in_scope k lb (stored w) fe1" and "fe_Port fe1 = None"
    and "in_scope k lb (stored w) fe2" and "fe_Port fe2 = None"
  shows "\<exists>w' new1 new2 p. ReconcileFrontends k r lb w = (Inr (), w') \<and> stored w' (fe_key fe1) = Some new1
    \<and> stored w' (fe_key fe2) = Some new2 \<and> fe_Port new1 = Some p \<and> fe_Port new2 = Some p"
  using ReconcileFrontends_stored [OF assms(1-4,5)] ReconcileFrontends_stored [OF assms(1-4,7)] assms(6,8) by auto

theorem pending_frontends_share_port_witness:
  "\<exists>w' new1 new2 p. ReconcileFrontends mem_kube sample_reconciler (sample_lb 1) sample_cluster = (Inr (), w')
     \<and> mem_frontends w' (NN ''glb'' ''web'') = Some new1 \<and> mem_frontends w' (NN ''glb'' ''api'') = Some new2
     \<and> fe_Port new1 = Some p \<and> fe_Port new2 = Some p"
  using pending_frontends_share_port [OF mem_list_frontends_doc mem_status_update sample_get mem_plan_succeeds [OF sample_get]
      sample_scope(1) _ sample_scope(2)] by simp

text \<open>
  C8: when the list shows the stored frontends, those in scope have pairwise different ports, none the largest
  int32, and at most one of them has none yet, the ports stay pairwise different, whatever the outcome of the run.
\<close>

theorem ports_stay_unique:
  assumes lists: "list_frontends_doc k stored" and updates: "status_update_doc k stored"
    and get: "getFrontends k lb False w = (Inr fes, w1)" and room: "room (collect_ports fes)"
    and unique: "\<forall>fe1 \<in> set fes. \<forall>fe2 \<in> set fes. fe_Port fe1 = fe_Port fe2 \<longrightarrow> fe1 = fe2"
    and run: "ReconcileFrontends k r lb w = (res, w')"
    and scope: "in_scope k lb (stored w) fe1" "in_scope k lb (stored w) fe2" "fe1 \<noteq> fe2"
    and new: "stored w' (fe_key fe1) = Some new1" "stored w' (fe_key fe2) = Some new2" "fe_Port new1 \<noteq> None"
  shows "fe_Port new1 \<noteq> fe_Port new2"
proof -
  let ?p = "GetNextPort fes (glbr_StartingPort r)"
  have fes: "fe1 \<in> set fes" "fe2 \<in> set fes" using getFrontends_scope(2) [OF lists get] scope by simp_all
  have port: "fe_Port new = fe_Port fe \<or> fe_Port fe = None \<and> fe_Port new = Some ?p"
    if "in_scope k lb (stored w) fe" "stored w' (fe_key fe) = Some new" for fe new
    using ReconcileFrontends_step [OF lists updates run, of "fe_key fe" fe] that get
    by (auto simp: in_scope_def assign_facts split: option.splits)
  have fresh: "fe_Port fe \<noteq> Some ?p" if "fe \<in> set fes" for fe
  proof
    assume "fe_Port fe = Some ?p"
    with that have "?p \<in> set (collect_ports fes)" by (rule collect_ports_mem)
    then show False using ports.unused [OF room] by blast
  qed
  show ?thesis
    using port [OF scope(1) new(1)] port [OF scope(2) new(2)] fresh [OF fes(1)] fresh [OF fes(2)] unique fes scope(3) new(3)
    by metis
qed

definition settled_cluster :: cluster where
  "settled_cluster = empty_cluster\<lparr>cl_loadbalancers := [sample_lb 1],
     cl_frontends := [sample_frontend ''web'' None (Some 10240), sample_frontend ''api'' None None]\<rparr>"

lemma settled_get: "getFrontends mem_kube (sample_lb 1) False settled_cluster =
    (Inr [sample_frontend ''web'' None (Some 10240), sample_frontend ''api'' None None], settled_cluster)"
  by (simp add: getFrontends_run mem_kube_sel mem_selector_def mem_list_frontends_def mem_chosen_def settled_cluster_def
      listed_def lookup_def eligible_def) (simp add: sample_defs)

theorem ports_stay_unique_witness:
  "\<exists>w' new1 new2. ReconcileFrontends mem_kube sample_reconciler (sample_lb 1) settled_cluster = (Inr (), w')
     \<and> mem_frontends w' (NN ''glb'' ''web'') = Some new1 \<and> mem_frontends w' (NN ''glb'' ''api'') = Some new2
     \<and> fe_Port new1 \<noteq> fe_Port new2"
proof -
  let ?web = "sample_frontend ''web'' None (Some 10240)" and ?api = "sample_frontend ''api'' None None"
  have scope: "in_scope mem_kube (sample_lb 1) (mem_frontends settled_cluster) ?web"
    "in_scope mem_kube (sample_lb 1) (mem_frontends settled_cluster) ?api"
    using getFrontends_scope(2) [OF mem_list_frontends_doc settled_get] by auto
  note ok = mem_plan_succeeds [OF settled_get, of "glbr_StartingPort sample_reconciler"]
  obtain w' new1 new2 where run: "ReconcileFrontends mem_kube sample_reconciler (sample_lb 1) settled_cluster = (Inr (), w')"
    and new: "mem_frontends w' (fe_key ?web) = Some new1" "fe_Port new1 \<noteq> None" "mem_frontends w' (fe_key ?api) = Some new2"
    using ReconcileFrontends_stored [OF mem_list_frontends_doc mem_status_update settled_get ok scope(1)]
      ReconcileFrontends_stored [OF mem_list_frontends_doc mem_status_update settled_get ok scope(2)] by auto
  have "?web \<noteq> ?api" by (simp add: sample_frontend_def)
  then have "fe_Port new1 \<noteq> fe_Port new2"
    using ports_stay_unique [OF mem_list_frontends_doc mem_status_update settled_get _ _ run scope _ new(1,3,2)]
    by (simp add: room_def)
  with run new show ?thesis by auto
qed

text \<open>
  ReconcileFrontends reports an error exactly when selecting the frontends does: failed status
  updates are never reported, so the controller does not retry them.
\<close>

theorem ReconcileFrontends_errors:
  "fst (ReconcileFrontends k r lb w) = Inl (Err e) \<longleftrightarrow> fst (getFrontends k lb False w) = Inl (Err e)"
proof (cases "getFrontends k lb False w")
  case (Pair o1 w1)
  then show ?thesis
    using run_writes_never_errs [of k "planned_writes lb (glbr_StartingPort r) (projr o1)" w1 e]
    by (cases o1) (simp_all add: ReconcileFrontends_run)
qed

section \<open>Configuration\<close>

abbreviation config_key :: "GlobalLoadBalancer \<Rightarrow> NamespacedName" where
  "config_key lb \<equiv> NN (lb_Namespace lb) (configMapName lb)"

lemma new_configmap_key [simp]: "cm_key (new_configmap lb) = config_key lb"
  by (simp add: cm_key_def new_configmap_def)

lemma new_configmap_payload: "cm_payload (new_configmap lb) = Map.empty"
  by (simp add: new_configmap_def cm_payload_def)

lemma BuildConfig_wf: "BuildConfig lb fes bes = Inr cfg \<Longrightarrow> gm_wf cfg"
  by (auto simp: BuildConfig_def res_bind_eq_Inr foldl_put_const_wf)

text \<open>What a successful run has stored.\<close>

lemma ReconcileConfig_stored:
  assumes doc: "create_or_update_doc (CreateOrUpdateConfigMap k) stored cm_key cm_payload" and ord: "range_order ord"
    and run: "ReconcileConfig k ord lb w = (Inr (), w')"
  shows "\<exists>fes w1 bes w2 cfg cm. getFrontends k lb False w = (Inr fes, w1) \<and> getBackends k fes w1 = (Inr bes, w2)
    \<and> BuildConfig lb fes bes = Inr cfg \<and> stored w' (config_key lb) = Some cm
    \<and> (\<forall>pod. gm_get cfg pod \<noteq> None \<longrightarrow> cm_payload cm (pod @ ''.cfg'') = gm_get cfg pod)
    \<and> (\<forall>n. (\<forall>pod. gm_get cfg pod \<noteq> None \<longrightarrow> n \<noteq> pod @ ''.cfg'') \<longrightarrow>
         cm_payload cm n = (case stored w2 (config_key lb) of None \<Rightarrow> None | Some old \<Rightarrow> cm_payload old n))"
proof -
  from run obtain fes w1 bes w2 cfg cm where steps: "getFrontends k lb False w = (Inr fes, w1)" "getBackends k fes w1 = (Inr bes, w2)"
    "BuildConfig lb fes bes = Inr cfg" and cou: "CreateOrUpdateConfigMap k (new_configmap lb) (configmap_mutate ord cfg) w2 = (Inr cm, w')"
    by (auto simp: ReconcileConfig_def go_run split: prod.splits sum.splits)
  from doc cou obtain m where m: "configmap_mutate ord cfg (fetched stored cm_key w2 (new_configmap lb)) = Inr m"
    "cm_payload cm = cm_payload m" "stored w' (config_key lb) = Some cm"
    by (rule create_or_update_docD) simp
  have pay: "cm_payload cm = cm_payload (fetched stored cm_key w2 (new_configmap lb)) ++ map_of (cfg_entries (ord cfg))"
    using configmap_mutate_payload [OF m(1)] m(2) by simp
  have old: "cm_payload (fetched stored cm_key w2 (new_configmap lb)) n
      = (case stored w2 (config_key lb) of None \<Rightarrow> None | Some old \<Rightarrow> cm_payload old n)" for n
    by (cases "stored w2 (config_key lb)") (simp_all add: fetched_def new_configmap_payload)
  have get: "map_of (cfg_entries (ord cfg)) (pod @ ''.cfg'') = gm_get cfg pod" for pod
    using map_of_cfg_entries(1) [OF ord BuildConfig_wf [OF steps(3)]] .
  have other: "map_of (cfg_entries (ord cfg)) n = None" if "\<forall>pod. gm_get cfg pod \<noteq> None \<longrightarrow> n \<noteq> pod @ ''.cfg''" for n
  proof (cases "\<exists>pod. n = pod @ ''.cfg''")
    case True
    then show ?thesis using that get by auto
  next
    case False
    then show ?thesis using map_of_cfg_entries(2) [OF ord BuildConfig_wf [OF steps(3)], of n] by auto
  qed
  have "\<forall>pod. gm_get cfg pod \<noteq> None \<longrightarrow> cm_payload cm (pod @ ''.cfg'') = gm_get cfg pod"
    using get by (auto simp: pay)
  moreover have "cm_payload cm n = (case stored w2 (config_key lb) of None \<Rightarrow> None | Some old \<Rightarrow> cm_payload old n)"
    if "\<forall>pod. gm_get cfg pod \<noteq> None \<longrightarrow> n \<noteq> pod @ ''.cfg''" for n
    using other [OF that] old [of n] by (simp add: pay map_add_def)
  ultimately show ?thesis using steps m(3) by blast
qed

text \<open>
  C20: a successful ReconcileConfig has stored, in the ConfigMap of the load balancer, the file BuildConfig
  gives for every pod under the pod's name with suffix .cfg, in whatever order it visited them, and has
  kept every other entry the ConfigMap had: files of pods that are gone stay.
\<close>

theorem ReconcileConfig_stores:
  assumes doc: "create_or_update_doc (CreateOrUpdateConfigMap k) stored cm_key cm_payload" and ord: "range_order ord"
    and run: "ReconcileConfig k ord lb w = (Inr (), w')"
  shows "\<exists>fes w1 bes w2 cfg cm. getFrontends k lb False w = (Inr fes, w1) \<and> getBackends k fes w1 = (Inr bes, w2)
    \<and> BuildConfig lb fes bes = Inr cfg \<and> stored w' (config_key lb) = Some cm
    \<and> (\<forall>pod. gm_get cfg pod \<noteq> None \<longrightarrow> cm_payload cm (pod @ ''.cfg'') = gm_get cfg pod)
    \<and> (\<forall>n. (\<forall>pod. gm_get cfg pod \<noteq> None \<longrightarrow> n \<noteq> pod @ ''.cfg'') \<longrightarrow>
         cm_payload cm n = (case stored w2 (config_key lb) of None \<Rightarrow> None | Some old \<Rightarrow> cm_payload old n))"
  by (rule ReconcileConfig_stored [OF assms])

text \<open>The steps of ReconcileConfig on the sample cluster, with any ConfigMaps in it.\<close>

lemma sample_get_backends:
  "getBackends mem_kube [sample_frontend ''web'' None None, sample_frontend ''api'' None None] (sample_cluster\<lparr>cl_configmaps := cms\<rparr>)
   = (Inr sample_backends, sample_cluster\<lparr>cl_configmaps := cms\<rparr>)"
proof -
  have "mem_list_backends \<lparr>lo_LabelSelector = Some (\<lambda>labels. \<forall>(k, v) \<in> set [(''site'', ''a'')]. gm_get labels k = Some v), lo_Namespace = None\<rparr> w
      = (Inr \<lparr>bel_TypeMeta = zero_TypeMeta, bel_ListMeta = zero_ListMeta, bel_Items = [sample_backend ''b'' ''example.org'']\<rparr>, w)"
    if "w = sample_cluster\<lparr>cl_configmaps := cms\<rparr>" for w
    by (simp add: that mem_list_backends_def sample_cluster_def mem_chosen_def listed_def lookup_def meta_key_def)
  moreover have "fes_BackendSelector (fe_Spec (sample_frontend n ref p)) = \<lparr>ls_MatchLabels = [(''site'', ''a'')], ls_MatchExpressions = []\<rparr>" for n ref p
    by (simp add: sample_frontend_def)
  ultimately show ?thesis
    by (simp add: getBackends_def mem_kube_sel mem_selector_def go_run sample_backends_def)
qed


lemma sample_no_configmaps: "sample_cluster = sample_cluster\<lparr>cl_configmaps := []\<rparr>"
  by (simp add: sample_cluster_def empty_cluster_def)

lemma mem_configmap_stored:
  assumes "configmap_mutate ord cfg (fetched mem_configmaps cm_key w (new_configmap lb)) = Inr m"
  shows "\<exists>w'. CreateOrUpdateConfigMap mem_kube (new_configmap lb) (configmap_mutate ord cfg) w = (Inr m, w')"
proof -
  have "cm_key (fetched mem_configmaps cm_key w (new_configmap lb)) = config_key lb"
    using lookup_key by (fastforce simp: fetched_def split: option.splits)
  then have "cm_key m = config_key lb" using cfg.keeps_key assms by blast
  with assms show ?thesis by (simp add: mem_kube_def mem_create_or_update_def)
qed

lemma sample_ReconcileConfig: "\<exists>w'. ReconcileConfig mem_kube id (sample_lb 1) sample_cluster = (Inr (), w')"
proof -
  obtain cfg where cfg: "BuildConfig (sample_lb 1) [sample_frontend ''web'' None None, sample_frontend ''api'' None None] sample_backends = Inr cfg"
    using sample_config by blast
  have "fetched mem_configmaps cm_key sample_cluster (new_configmap (sample_lb 1)) = new_configmap (sample_lb 1)"
    by (simp add: fetched_def lookup_def sample_cluster_def empty_cluster_def)
  moreover have "\<exists>m. configmap_mutate id cfg (new_configmap (sample_lb 1)) = Inr m"
    using config_loop_Some [of cfg "[]"] by (auto simp: configmap_mutate_def new_configmap_def)
  ultimately obtain m w' where "CreateOrUpdateConfigMap mem_kube (new_configmap (sample_lb 1)) (configmap_mutate id cfg) sample_cluster = (Inr m, w')"
    using mem_configmap_stored [of id cfg sample_cluster "sample_lb 1"] by auto
  moreover have "getBackends mem_kube [sample_frontend ''web'' None None, sample_frontend ''api'' None None] sample_cluster = (Inr sample_backends, sample_cluster)"
    using sample_get_backends [of "[]"] by (simp flip: sample_no_configmaps)
  ultimately show ?thesis by (simp add: ReconcileConfig_def sample_get cfg)
qed

theorem ReconcileConfig_stores_witness:
  "\<exists>w' cm. ReconcileConfig mem_kube id (sample_lb 1) sample_cluster = (Inr (), w')
     \<and> mem_configmaps w' (config_key (sample_lb 1)) = Some cm"
proof -
  obtain w' where run: "ReconcileConfig mem_kube id (sample_lb 1) sample_cluster = (Inr (), w')"
    using sample_ReconcileConfig by blast
  from ReconcileConfig_stores [OF mem_configmap_doc range_order_id(1) run] run show ?thesis by blast
qed



section \<open>The StatefulSet\<close>

text \<open>What a successful EnsureHAProxyStatefulSet has stored.\<close>

lemma EnsureHAProxyStatefulSet_stored:
  assumes doc: "create_or_update_doc (CreateOrUpdateStatefulSet k) stored ss_key ss_payload"
    and run: "EnsureHAProxyStatefulSet k lb w = (Inr (), w')"
  shows "\<exists>ss refs. stored w' (NN (lb_Namespace lb) (deploymentName lb)) = Some ss \<and> statefulset_owner k lb = Inr refs
    \<and> ss_payload ss = (pod_labels, refs, Some (lbs_Replicas (lb_Spec lb)),
         Some \<lparr>ls_MatchLabels = haproxyLabels, ls_MatchExpressions = []\<rparr>, pod_template lb)
    \<and> (\<forall>w''. EnsureHAProxyStatefulSet k lb w' = (Inr (), w'') \<longrightarrow>
         map_option ss_payload (stored w'' (NN (lb_Namespace lb) (deploymentName lb))) = Some (ss_payload ss))"
proof -
  have key: "ss_key (new_statefulset lb) = NN (lb_Namespace lb) (deploymentName lb)"
    by (simp add: ss_key_def new_statefulset_def)
  have cou: "\<exists>ss. CreateOrUpdateStatefulSet k (new_statefulset lb) (statefulset_mutate k lb) w = (Inr ss, w')"
    if "EnsureHAProxyStatefulSet k lb w = (Inr (), w')" for w w'
    using that by (auto simp: EnsureHAProxyStatefulSet_def go_run split: prod.splits sum.splits)
  obtain ss where ss: "CreateOrUpdateStatefulSet k (new_statefulset lb) (statefulset_mutate k lb) w = (Inr ss, w')"
    using cou [OF run] by blast
  from doc ss obtain m where m: "statefulset_mutate k lb (fetched stored ss_key w (new_statefulset lb)) = Inr m"
    "ss_payload ss = ss_payload m" "stored w' (ss_key (new_statefulset lb)) = Some ss"
    by (rule create_or_update_docD)
  have "map_option ss_payload (stored w'' (ss_key (new_statefulset lb))) = Some (ss_payload ss)"
    if "EnsureHAProxyStatefulSet k lb w' = (Inr (), w'')" for w''
    using cou [OF that] ss.second_run_settles [OF doc ss] by auto
  then show ?thesis using statefulset_mutate_payload [OF m(1)] m(2,3) key by auto
qed

text \<open>
  C22: a successful EnsureHAProxyStatefulSet has stored the labels, the owner, the replica count, the selector
  and the pod template of the load balancer, whatever was stored before: an existing object with a
  creation time gets its selector and its owner replaced too. Running it again changes none of this.
\<close>

theorem EnsureHAProxyStatefulSet_stores:
  assumes doc: "create_or_update_doc (CreateOrUpdateStatefulSet k) stored ss_key ss_payload"
    and run: "EnsureHAProxyStatefulSet k lb w = (Inr (), w')"
  shows "\<exists>ss refs. stored w' (NN (lb_Namespace lb) (deploymentName lb)) = Some ss \<and> statefulset_owner k lb = Inr refs
    \<and> ss_payload ss = (pod_labels, refs, Some (lbs_Replicas (lb_Spec lb)),
         Some \<lparr>ls_MatchLabels = haproxyLabels, ls_MatchExpressions = []\<rparr>, pod_template lb)
    \<and> (\<forall>w''. EnsureHAProxyStatefulSet k lb w' = (Inr (), w'') \<longrightarrow>
         map_option ss_payload (stored w'' (NN (lb_Namespace lb) (deploymentName lb))) = Some (ss_payload ss))"
  by (rule EnsureHAProxyStatefulSet_stored [OF assms])

theorem EnsureHAProxyStatefulSet_stores_witness:
  "\<exists>w' ss. EnsureHAProxyStatefulSet mem_kube (sample_lb 3) empty_cluster = (Inr (), w')
     \<and> mem_statefulsets w' (NN ''glb'' ''lb-haproxy'') = Some ss \<and> ss_Replicas ss = Some 3"
proof -
  have "\<exists>w'. EnsureHAProxyStatefulSet mem_kube (sample_lb 3) empty_cluster = (Inr (), w')"
    by (simp add: EnsureHAProxyStatefulSet_def mem_kube_def mem_create_or_update_def empty_cluster_def fetched_def lookup_def
        statefulset_mutate_def new_statefulset_def mem_controller_def named_meta_def zero_ObjectMeta_def Let_def ss_key_def meta_key_def go_run)
  then obtain w' where run: "EnsureHAProxyStatefulSet mem_kube (sample_lb 3) empty_cluster = (Inr (), w')" by blast
  obtain ss where "mem_statefulsets w' (NN ''glb'' (deploymentName (sample_lb 3))) = Some ss" "fst (snd (snd (ss_payload ss))) = Some 3"
    using EnsureHAProxyStatefulSet_stores [OF mem_statefulset_doc run] by auto
  with run show ?thesis by (auto simp: deploymentName_def ss_payload_def)
qed

section \<open>The Service of a frontend\<close>

text \<open>What a successful ReconcileService has stored.\<close>

lemma ReconcileService_stored:
  assumes svc_doc: "create_or_update_doc (CreateOrUpdateService k) svcs svc_key svc_payload"
    and es_doc: "create_or_update_doc (CreateOrUpdateEndpointSlice k) slices es_key es_payload"
    and keyed: "\<forall>w n svc. svcs w n = Some svc \<longrightarrow> svc_key svc = n"
    and frame: "\<forall>es mut w. svcs (snd (CreateOrUpdateEndpointSlice k es mut w)) = svcs w"
    and port: "fe_Port fe = Some port" and run: "ReconcileService k hc req fe w = (Inr (), w')"
  shows "\<exists>service svc es. fes_Service (fe_Spec fe) = Some service \<and> svcs w' (fe_key fe) = Some svc \<and> slices w' (fe_key fe) = Some es
    \<and> svc_payload svc = (fss_Annotations service, [\<lparr>sp_Name = ''frontend'', sp_Protocol = ProtocolTCP, sp_Port = fss_Port service, sp_TargetPort = FromInt32 port\<rparr>])
    \<and> es_payload es = ([(LabelServiceName, fe_Name fe)], AddressTypeIPv4, map slice_endpoint (HealthCache_Get hc req),
         [\<lparr>epp_Name = Some ''frontend'', epp_Port = Some port, epp_Protocol = Some ProtocolTCP\<rparr>])"
proof -
  obtain service svc es w1 where s: "fes_Service (fe_Spec fe) = Some service"
    "CreateOrUpdateService k (new_service fe) (service_mutate k fe) w = (Inr svc, w1)" "svcs w1 (fe_key fe) = Some svc"
    "svc_payload svc = (fss_Annotations service, [\<lparr>sp_Name = ''frontend'', sp_Protocol = ProtocolTCP, sp_Port = fss_Port service, sp_TargetPort = FromInt32 port\<rparr>])"
    "slices w' (svc_key svc) = Some es"
    "es_payload es = ([(LabelServiceName, om_Name (svc_ObjectMeta svc))], AddressTypeIPv4, map slice_endpoint (HealthCache_Get hc req),
      [\<lparr>epp_Name = Some ''frontend'', epp_Port = Some port, epp_Protocol = Some ProtocolTCP\<rparr>])"
    using ReconcileService_stores [OF svc_doc es_doc port run] by metis
  have "w' = snd (CreateOrUpdateEndpointSlice k (new_endpointslice svc) (endpointslice_mutate k hc req fe svc) w1)"
    using run port s(2) by (auto simp: ReconcileService_def go_run split: prod.splits sum.splits)
  then have "svcs w' (fe_key fe) = Some svc" using frame s(3) by simp
  moreover have key: "svc_key svc = fe_key fe" using keyed s(3) by blast
  then have "om_Name (svc_ObjectMeta svc) = fe_Name fe" by (simp add: svc_key_def meta_key_def)
  ultimately show ?thesis using s key by auto
qed

text \<open>
  C23: a successful ReconcileService for a frontend with a port has stored, under the frontend's key, a Service
  with the port of the spec that leads to the port of the status, and an EndpointSlice bound to that Service by
  its label, whose endpoints are the cached ones, address, node and readiness each, on the port of the status.
  Assumed: the two CreateOrUpdate calls behave as documented, Services are stored under their own keys, and
  storing an EndpointSlice does not change Services.
\<close>

theorem ReconcileService_mirrors_cache:
  assumes svc_doc: "create_or_update_doc (CreateOrUpdateService k) svcs svc_key svc_payload"
    and es_doc: "create_or_update_doc (CreateOrUpdateEndpointSlice k) slices es_key es_payload"
    and keyed: "\<forall>w n svc. svcs w n = Some svc \<longrightarrow> svc_key svc = n"
    and frame: "\<forall>es mut w. svcs (snd (CreateOrUpdateEndpointSlice k es mut w)) = svcs w"
    and port: "fe_Port fe = Some port" and run: "ReconcileService k hc req fe w = (Inr (), w')"
  shows "\<exists>service svc es. fes_Service (fe_Spec fe) = Some service \<and> svcs w' (fe_key fe) = Some svc \<and> slices w' (fe_key fe) = Some es
    \<and> svc_payload svc = (fss_Annotations service, [\<lparr>sp_Name = ''frontend'', sp_Protocol = ProtocolTCP, sp_Port = fss_Port service, sp_TargetPort = FromInt32 port\<rparr>])
    \<and> es_payload es = ([(LabelServiceName, fe_Name fe)], AddressTypeIPv4, map slice_endpoint (HealthCache_Get hc req),
         [\<lparr>epp_Name = Some ''frontend'', epp_Port = Some port, epp_Protocol = Some ProtocolTCP\<rparr>])"
  by (rule ReconcileService_stored [OF assms])

lemma mem_service_frame: "mem_services (snd (CreateOrUpdateEndpointSlice mem_kube es mut w)) = mem_services w"
  by (simp add: mem_kube_def mem_create_or_update_def split: sum.splits)

theorem ReconcileService_mirrors_cache_witness:
  "\<exists>w' es. ReconcileService mem_kube \<lparr>hc_endpoints = [(NN ''glb'' ''web'', [sample_endpoint ''n1'' ''10.1.0.1'' True])]\<rparr>
       (NN ''glb'' ''web'') (sample_frontend ''web'' None (Some 10240)) empty_cluster = (Inr (), w')
     \<and> mem_slices w' (NN ''glb'' ''web'') = Some es
     \<and> es_Endpoints es = [\<lparr>se_Addresses = [''10.1.0.1''], se_Ready = Some True, se_NodeName = Some ''n1''\<rparr>]"
proof -
  let ?hc = "\<lparr>hc_endpoints = [(NN ''glb'' ''web'', [sample_endpoint ''n1'' ''10.1.0.1'' True])]\<rparr>"
  let ?fe = "sample_frontend ''web'' None (Some 10240)"
  obtain service where service: "fes_Service (fe_Spec ?fe) = Some service" by (simp add: sample_frontend_def)
  have "\<exists>w'. ReconcileService mem_kube ?hc (NN ''glb'' ''web'') ?fe empty_cluster = (Inr (), w')"
    by (simp add: ReconcileService_def mem_kube_def mem_create_or_update_def empty_cluster_def fetched_def lookup_def service
        service_mutate_def new_service_def mem_controller_def Let_def go_run svc_key_def es_key_def meta_key_def
        new_endpointslice_def endpointslice_mutate_def)
  then obtain w' where run: "ReconcileService mem_kube ?hc (NN ''glb'' ''web'') ?fe empty_cluster = (Inr (), w')" by blast
  have "\<forall>w n svc. mem_services w n = Some svc \<longrightarrow> svc_key svc = n" using lookup_key by metis
  moreover have "fe_Port ?fe = Some 10240" by simp
  ultimately obtain es where "mem_slices w' (NN ''glb'' ''web'') = Some es"
    "fst (snd (snd (es_payload es))) = map slice_endpoint (HealthCache_Get ?hc (NN ''glb'' ''web''))"
    using ReconcileService_mirrors_cache [OF mem_service_doc mem_slice_doc _ _ _ run] mem_service_frame by fastforce
  with run show ?thesis
    by (auto simp: es_payload_def HealthCache_Get_alt slice_at_def slice_endpoint_def sample_endpoint_def)
qed

section \<open>Peers\<close>

text \<open>The calls of the watcher succeed: a cached read fails only with NotFound, and a missing peer can be created.\<close>

definition peer_calls_succeed :: "'w kube \<Rightarrow> ('w \<Rightarrow> NamespacedName \<rightharpoonup> Peer) \<Rightarrow> bool" where
  "peer_calls_succeed k peers \<longleftrightarrow> updates_succeed k peers
     \<and> (\<forall>n w e w'. CacheGetPeer k n w = (Inl (Err e), w') \<longrightarrow> IsNotFound k e)
     \<and> (\<forall>p w. peers w (meta_key (peer_ObjectMeta p)) = None \<longrightarrow> (\<exists>q w'. CreatePeer k p w = (Inr q, w')))"

lemma onAdd_stored:
  assumes doc: "peer_api_doc k peers" and nf: "ignore_not_found_doc k" and ok: "peer_calls_succeed k peers"
    and run: "onAdd k svc w = (res, w')"
  shows "res = Inr ()" "m \<noteq> service_key svc \<Longrightarrow> peers w' m = peers w m"
    "\<exists>p. peers w' (service_key svc) = Some p \<and> peer_Status p = peer_status_of svc (peers w (service_key svc))"
proof -
  let ?n = "service_key svc"
  have upd: "updates_succeed k peers" using ok by (simp add: peer_calls_succeed_def)
  obtain peer w2 where go: "onAdd k svc w = peer_status_update k svc peer w2" "meta_key (peer_ObjectMeta peer) = ?n"
    "peers w2 ?n = Some peer" "\<forall>m. m \<noteq> ?n \<longrightarrow> peers w2 m = peers w m"
    "peer_status_of svc (Some peer) = peer_status_of svc (peers w ?n)"
  proof (cases "CacheGetPeer k ?n w")
    case (Pair o1 w1)
    show thesis
    proof (cases o1)
      case (Inr p)
      then show ?thesis
        using that [of p w1] peer_api_docD(1) [OF doc, of ?n w p w1] Pair by (simp add: onAdd_def)
    next
      case (Inl f)
      then obtain e where e: "f = Err e" using peer_api_docD(3) [OF doc, of ?n w _ w1] Pair by (cases f) auto
      have isnf: "IsNotFound k e" using ok Pair Inl e unfolding peer_calls_succeed_def by blast
      then have w1: "peers w1 = peers w" "peers w ?n = None"
        using peer_api_docD(2) [OF doc, of ?n w e w1] Pair Inl e by auto
      then obtain q w2 where c: "CreatePeer k (new_peer svc) w1 = (Inr q, w2)"
        using ok unfolding peer_calls_succeed_def by (metis new_peer_key)
      then have q: "meta_key (peer_ObjectMeta q) = ?n" "peer_Status q = peer_Status zero_Peer" "peers w2 = (peers w1)(?n \<mapsto> q)"
        using peer_api_docD(4) [OF doc c] by (simp_all add: peer_created_def)
      have "onAdd k svc w = peer_status_update k svc q w2"
        using Pair Inl e isnf c nf by (simp add: onAdd_def ignore_not_found_doc_def)
      then show ?thesis
        using that [of q w2] q w1 peer_status_of_new [OF q(2)] by simp
    qed
  qed
  note out = peer_status_update_outcome [OF doc go(2,3) trans [OF go(1) [symmetric] run]]
  show "res = Inr ()" using out(1) .
  show "m \<noteq> ?n \<Longrightarrow> peers w' m = peers w m" using out(2) go(4) by simp
  show "\<exists>p. peers w' ?n = Some p \<and> peer_Status p = peer_status_of svc (peers w ?n)"
  proof -
    have "peer_status_update k svc peer w2 = (res, w')" using go(1) run by simp
    then have "\<exists>v. peers w' ?n = Some (peer_at_version v (peer\<lparr>peer_Status := peer_status_of svc (Some peer)\<rparr>))"
      using peer_status_update_success [OF doc go(2,3) upd, of svc] by simp
    then show ?thesis using go(5) by (auto simp: peer_at_version_def)
  qed
qed

text \<open>
  C35: when the calls succeed and the cache shows the stored peer, adding a labelled Service stores a peer under the Service's key, created if
  there was none, with the cluster address and the first load-balancer address of the Service in its status
  and the rest of the status kept; no other peer changes.
\<close>

theorem onAdd_records_addresses:
  assumes "peer_api_doc k peers" and "ignore_not_found_doc k" and "peer_calls_succeed k peers"
    and "pw_selector pw (svc_labels svc)" and "peer_handle k pw (SvcAdded (Obj svc)) w = (res, w')"
  shows "res = Inr () \<and> (\<forall>m. m \<noteq> service_key svc \<longrightarrow> peers w' m = peers w m)
    \<and> (\<exists>p. peers w' (service_key svc) = Some p \<and> pst_LocalIP (peer_Status p) = svc_ClusterIP svc
         \<and> (\<forall>ip rest. svc_Ingress svc = ip # rest \<longrightarrow> pst_RemoteIP (peer_Status p) = ip)
         \<and> (\<forall>old. peers w (service_key svc) = Some old \<longrightarrow> pst_PeerName (peer_Status p) = pst_PeerName (peer_Status old)
              \<and> pst_Conditions (peer_Status p) = pst_Conditions (peer_Status old)))"
proof -
  have "onAdd k svc w = (res, w')" using assms(4,5) by (simp add: svc_events.filt_hit)
  note out = onAdd_stored [OF assms(1-3) this]
  then show ?thesis by (fastforce simp: peer_status_of_def Let_def)
qed

definition sample_service :: "string list \<Rightarrow> Service" where
  "sample_service ingress = \<lparr>svc_ObjectMeta = (named_meta ''peer'' ''glb'')\<lparr>om_Labels := [(''glb.antware.xyz/peer-name'', ''east'')]\<rparr>,
     svc_Ports = [], svc_ClusterIP = ''10.2.0.1'', svc_Ingress = ingress\<rparr>"

definition sample_watcher :: PeerServiceWatcher where
  "sample_watcher = \<lparr>pw_selector = (\<lambda>labels. gm_get labels ''glb.antware.xyz/peer-name'' \<noteq> None)\<rparr>"

lemma mem_peer_calls: "peer_calls_succeed mem_kube mem_peers"
proof -
  have "updates_succeed mem_kube mem_peers"
    by (auto simp: updates_succeed_def mem_kube_sel mem_update_peer_def Let_def)
  moreover have "mem_get key objs n w = (Inl (Err e), w') \<Longrightarrow> mem_not_found e" for key and objs :: "cluster \<Rightarrow> 'a list" and n w e w'
    by (auto simp: mem_get_def split: option.splits)
  moreover have "mem_peers w (peer_key p) = None \<Longrightarrow> \<exists>q w'. mem_create_peer p w = (Inr q, w')" for p w
    by (simp add: mem_create_peer_def Let_def)
  ultimately show ?thesis unfolding peer_calls_succeed_def mem_kube_sel by blast
qed

lemma sample_selected: "pw_selector sample_watcher (svc_labels (sample_service ips))" "service_key (sample_service ips) = NN ''glb'' ''peer''"
  "svc_Ingress (sample_service ips) = ips"
  by (simp_all add: sample_watcher_def sample_service_def service_key_def)

theorem onAdd_records_addresses_witness:
  "\<exists>p. mem_peers (snd (peer_handle mem_kube sample_watcher (SvcAdded (Obj (sample_service [''1.2.3.4'']))) empty_cluster)) (NN ''glb'' ''peer'') = Some p
     \<and> pst_RemoteIP (peer_Status p) = ''1.2.3.4''"
proof -
  obtain res w' where run: "peer_handle mem_kube sample_watcher (SvcAdded (Obj (sample_service [''1.2.3.4'']))) empty_cluster = (res, w')"
    by (cases "peer_handle mem_kube sample_watcher (SvcAdded (Obj (sample_service [''1.2.3.4'']))) empty_cluster")
  from onAdd_records_addresses [OF mem_peer_api mem_ignore_not_found mem_peer_calls sample_selected(1) run]
  show ?thesis unfolding run snd_conv sample_selected(2,3) by blast
qed

fun peer_handle_all :: "'w kube \<Rightarrow> PeerServiceWatcher \<Rightarrow> service_event list \<Rightarrow> ('w, unit) go" where
  "peer_handle_all k pw [] = go_return ()"
| "peer_handle_all k pw (ev # evs) = go_bind (peer_handle k pw ev) (\<lambda>_. peer_handle_all k pw evs)"

lemma peer_handle_quiet: "\<nexists>obj. ev = SvcAdded obj \<Longrightarrow> peer_handle k pw ev w = (Inr (), w)"
  by (cases ev) (auto simp: service_filter_def service_filterUpdate_def onUpdate_def onDelete_def split: any.splits)

lemma peer_handle_all_quiet:
  "\<forall>ev \<in> set evs. \<nexists>obj. ev = SvcAdded obj \<Longrightarrow> peer_handle_all k pw evs w = (Inr (), w)"
  by (induction evs) (auto simp: peer_handle_quiet go_run)

text \<open>
  A Service that has no load-balancer address yet when it is added leaves its peer without a remote
  address for good: no later update or deletion of the Service, or tombstone, changes the peer.
\<close>

theorem remote_address_never_learned:
  assumes "peer_api_doc k peers" and "ignore_not_found_doc k" and "peer_calls_succeed k peers"
    and "pw_selector pw (svc_labels svc)" and "svc_Ingress svc = []" and "peers w (service_key svc) = None"
    and "\<forall>ev \<in> set evs. \<nexists>obj. ev = SvcAdded obj"
  shows "\<exists>w' p. peer_handle_all k pw (SvcAdded (Obj svc) # evs) w = (Inr (), w')
    \<and> peers w' (service_key svc) = Some p \<and> pst_RemoteIP (peer_Status p) = ''''"
proof -
  obtain res w' where run: "onAdd k svc w = (res, w')" by (cases "onAdd k svc w")
  note out = onAdd_stored [OF assms(1-3) run]
  have "peer_handle_all k pw (SvcAdded (Obj svc) # evs) w = (Inr (), w')"
    using run out(1) assms(4) peer_handle_all_quiet [OF assms(7)] by (simp add: svc_events.filt_hit go_run)
  then show ?thesis using out(3) assms(5,6) by (auto simp: peer_status_of_def zero_Peer_def)
qed

theorem remote_address_never_learned_witness:
  "\<exists>w' p. peer_handle_all mem_kube sample_watcher
       [SvcAdded (Obj (sample_service [])), SvcUpdated (Obj (sample_service [])) (Obj (sample_service [''1.2.3.4'']))] empty_cluster = (Inr (), w')
     \<and> mem_peers w' (NN ''glb'' ''peer'') = Some p \<and> pst_RemoteIP (peer_Status p) = ''''"
  using remote_address_never_learned [OF mem_peer_api mem_ignore_not_found mem_peer_calls sample_selected(1), of "[]" empty_cluster
      "[SvcUpdated (Obj (sample_service [])) (Obj (sample_service [''1.2.3.4'']))]"]
  by (simp add: sample_selected(2,3) empty_cluster_def lookup_def del: peer_handle_all.simps)

end
