(* ===== verification/Reconcile_Runs.thy ===== *)
theory Reconcile_Runs
  imports Controller_Properties
begin

text \<open>
  Whole runs: \<^verbatim>\<open>Reconcile\<close> of the load-balancer controller from reading the load balancer to writing the
  configuration, with every stage that can fail, run again, and the path of a pod's health from the monitor's
  records through the cache into the EndpointSlice the frontend controller writes.
\<close>

section \<open>The stores of the API server\<close>

text \<open>
  What the load-balancer controller relies on when it makes its calls one after another: each call behaves as
  documented on the kind of object it is for, and changes no other kind; reads change nothing.
\<close>

locale api_stores =
  fixes k :: "'w kube"
    and frontends :: "'w \<Rightarrow> NamespacedName \<rightharpoonup> Frontend"
    and statefulsets :: "'w \<Rightarrow> NamespacedName \<rightharpoonup> StatefulSet"
    and configmaps :: "'w \<Rightarrow> NamespacedName \<rightharpoonup> ConfigMap"
  assumes lists: "list_frontends_doc k frontends"
    and updates: "status_update_doc k frontends"
    and ss_doc: "create_or_update_doc (CreateOrUpdateStatefulSet k) statefulsets ss_key ss_payload"
    and cm_doc: "create_or_update_doc (CreateOrUpdateConfigMap k) configmaps cm_key cm_payload"
    and reads: "v \<in> {snd (GetLoadBalancer k n w), snd (ListFrontends k opts w), snd (ListBackends k opts w)} \<Longrightarrow>
      frontends v = frontends w \<and> statefulsets v = statefulsets w \<and> configmaps v = configmaps w"
    and ss_frame: "v = snd (CreateOrUpdateStatefulSet k ss mut w) \<Longrightarrow> frontends v = frontends w \<and> configmaps v = configmaps w"
    and up_frame: "v = snd (UpdateFrontendStatus k fe w) \<Longrightarrow> statefulsets v = statefulsets w \<and> configmaps v = configmaps w"
    and cm_frame: "v = snd (CreateOrUpdateConfigMap k cm mut' w) \<Longrightarrow> frontends v = frontends w \<and> statefulsets v = statefulsets w"
begin

lemma getFrontends_kept:
  assumes "getFrontends k lb b w = (res, w')"
  shows "frontends w' = frontends w" "statefulsets w' = statefulsets w" "configmaps w' = configmaps w"
proof -
  have "w' = w \<or> (\<exists>opts. w' = snd (ListFrontends k opts w))"
    using assms by (auto simp: getFrontends_run split: sum.splits prod.splits) (metis snd_conv)+
  then show "frontends w' = frontends w" "statefulsets w' = statefulsets w" "configmaps w' = configmaps w"
    using reads [of w'] by auto
qed

lemma getBackends_loop_kept:
  "getBackends_loop k m fes w = (res, w') \<Longrightarrow>
     frontends w' = frontends w \<and> statefulsets w' = statefulsets w \<and> configmaps w' = configmaps w"
proof (induction fes arbitrary: m w)
  case (Cons fe fes)
  show ?case
  proof (cases "LabelSelectorAsSelector k (fes_BackendSelector (fe_Spec fe))")
    case (Inr sel)
    obtain o1 w1 where l: "ListBackends k \<lparr>lo_LabelSelector = Some sel, lo_Namespace = None\<rparr> w = (o1, w1)"
      by (cases "ListBackends k \<lparr>lo_LabelSelector = Some sel, lo_Namespace = None\<rparr> w")
    then have w1: "frontends w1 = frontends w" "statefulsets w1 = statefulsets w" "configmaps w1 = configmaps w"
      using reads [of w1 _ w "\<lparr>lo_LabelSelector = Some sel, lo_Namespace = None\<rparr>"] by auto
    show ?thesis
    proof (cases o1)
      case (Inl f)
      then show ?thesis using Cons.prems Inr l w1 by simp
    next
      case (Inr bl)
      then show ?thesis using Cons.prems \<open>_ = Inr sel\<close> l w1 Cons.IH by simp
    qed
  qed (use Cons.prems in auto)
qed simp

lemma run_writes_kept:
  "run_writes k ws w = (res, w') \<Longrightarrow> statefulsets w' = statefulsets w \<and> configmaps w' = configmaps w"
proof (induction ws arbitrary: w)
  case (Cons fe ws)
  obtain o1 w1 where up: "UpdateFrontendStatus k fe w = (o1, w1)" by (cases "UpdateFrontendStatus k fe w")
  then have "statefulsets w1 = statefulsets w" "configmaps w1 = configmaps w" using up_frame [of w1 fe w] by auto
  then show ?case using Cons up by (auto split: sum.splits fault.splits)
qed simp

lemma ReconcileFrontends_kept:
  assumes "ReconcileFrontends k r lb w = (res, w')"
  shows "statefulsets w' = statefulsets w" "configmaps w' = configmaps w"
proof -
  obtain o1 w1 where g: "getFrontends k lb False w = (o1, w1)" by (cases "getFrontends k lb False w")
  show "statefulsets w' = statefulsets w" "configmaps w' = configmaps w"
    using assms g getFrontends_kept [OF g] run_writes_kept by (cases o1; fastforce simp: ReconcileFrontends_run)+
qed

lemma EnsureHAProxyStatefulSet_kept:
  assumes "EnsureHAProxyStatefulSet k lb w = (res, w')"
  shows "frontends w' = frontends w" "configmaps w' = configmaps w"
proof -
  have "w' = snd (CreateOrUpdateStatefulSet k (new_statefulset lb) (statefulset_mutate k lb) w)"
    using assms by (auto simp: EnsureHAProxyStatefulSet_def go_run split: prod.splits sum.splits)
  from ss_frame [OF this] show "frontends w' = frontends w" "configmaps w' = configmaps w" by simp_all
qed

lemma ReconcileConfig_kept:
  assumes "ReconcileConfig k ord lb w = (res, w')"
  shows "frontends w' = frontends w" "statefulsets w' = statefulsets w"
proof -
  obtain o1 w1 where g: "getFrontends k lb False w = (o1, w1)" by (cases "getFrontends k lb False w")
  note g' = getFrontends_kept [OF g]
  have "frontends w' = frontends w \<and> statefulsets w' = statefulsets w"
  proof (cases o1)
    case (Inr fes)
    obtain o2 w2 where b: "getBackends k fes w1 = (o2, w2)" by (cases "getBackends k fes w1")
    note b' = getBackends_loop_kept [OF b [unfolded getBackends_def]]
    show ?thesis
    proof (cases o2)
      case (Inr bes)
      show ?thesis
      proof (cases "BuildConfig lb fes bes")
        case (Inr cfg)
        have "w' = snd (CreateOrUpdateConfigMap k (new_configmap lb) (configmap_mutate ord cfg) w2)"
          using assms g b \<open>o1 = Inr fes\<close> \<open>o2 = Inr bes\<close> Inr
          by (auto simp: ReconcileConfig_def go_run split: prod.splits sum.splits)
        from cm_frame [OF this] g' b' show ?thesis by simp
      qed (use assms g b g' b' \<open>o1 = Inr fes\<close> Inr in \<open>auto simp: ReconcileConfig_def go_run\<close>)
    qed (use assms g b g' b' Inr in \<open>auto simp: ReconcileConfig_def go_run\<close>)
  qed (use assms g g' in \<open>auto simp: ReconcileConfig_def go_run\<close>)
  then show "frontends w' = frontends w" "statefulsets w' = statefulsets w" by simp_all
qed

end

context api_stores
begin

text \<open>A run with a load balancer, by its three stages.\<close>

lemma Reconcile_success:
  assumes "GetLoadBalancer k req w = (Inr lb, w0)" and "GLB_Reconcile k ord r req w = (Inr (), w')"
  obtains w1 w2 where "EnsureHAProxyStatefulSet k lb w0 = (Inr (), w1)" "ReconcileFrontends k r lb w1 = (Inr (), w2)"
    "ReconcileConfig k ord lb w2 = (Inr (), w')"
  using assms by (auto simp: GLB_Reconcile_def go_run split: prod.splits sum.splits)

lemma ReconcileFrontends_get:
  assumes "ReconcileFrontends k r lb w = (Inr (), w')"
  obtains fes w1 where "getFrontends k lb False w = (Inr fes, w1)"
  using assms by (cases "getFrontends k lb False w") (auto simp: ReconcileFrontends_run split: sum.splits)

text \<open>A frontend in scope stays in scope, and is claimed unless its status update failed.\<close>

lemma scope_kept:
  assumes run: "ReconcileFrontends k r lb w = (Inr (), w')" and scope: "in_scope k lb (frontends w) fe"
  shows "\<exists>new. frontends w' (fe_key fe) = Some new \<and> in_scope k lb (frontends w') new \<and> fe_key new = fe_key fe
    \<and> fe_Spec new = fe_Spec fe \<and> (fe_key fe \<notin> set (failed_claims k r lb w) \<longrightarrow> \<not> needs_write new)"
proof -
  have old: "frontends w (fe_key fe) = Some fe" using scope by (simp add: in_scope_def)
  obtain new where new: "frontends w' (fe_key fe) = Some new" "fe_key new = fe_key fe" "fe_Spec new = fe_Spec fe"
    "om_Labels (fe_ObjectMeta new) = om_Labels (fe_ObjectMeta fe)"
    "fe_Owner new = fe_Owner fe \<or> fe_Owner new = Some (case fe_Owner fe of None \<Rightarrow> \<lparr>lbr_Name = lb_Name lb, lbr_Namespace = lb_Namespace lb\<rparr> | Some ref \<Rightarrow> ref)"
    using ReconcileFrontends_step [OF lists updates run old] by (auto simp: assign_facts)
  have "in_scope k lb (frontends w') new"
    using scope new by (auto simp: in_scope_def eligible_def owned_by_def split: option.splits sum.splits)
  moreover have "\<not> needs_write new" if ok: "fe_key fe \<notin> set (failed_claims k r lb w)"
  proof -
    obtain fes w1 where get: "getFrontends k lb False w = (Inr fes, w1)" by (rule ReconcileFrontends_get [OF run])
    from ReconcileFrontends_one [OF lists updates get run ok scope] show ?thesis using new(1) by (auto simp: needs_write_def)
  qed
  ultimately show ?thesis using new by blast
qed

lemma nothing_left:
  assumes run: "ReconcileFrontends k r lb w = (Inr (), w')" and scope: "in_scope k lb (frontends w') fe'"
    and ok: "fe_key fe' \<notin> set (failed_claims k r lb w)"
  shows "\<not> needs_write fe'"
proof -
  let ?n = "fe_key fe'"
  have new: "frontends w' ?n = Some fe'" using scope by (simp add: in_scope_def)
  obtain fes w1 where get: "getFrontends k lb False w = (Inr fes, w1)" by (rule ReconcileFrontends_get [OF run])
  have "run_writes k (planned_writes lb (glbr_StartingPort r) fes) w1 = (Inr (), w')"
    using run get by (simp add: ReconcileFrontends_run)
  from run_writes_stored [OF updates this, of ?n] getFrontends_kept(1) [OF get] new
  obtain old where old: "frontends w ?n = Some old" by (metis (no_types, lifting))
  from ReconcileFrontends_step [OF lists updates run old] new
  have same: "fe_key fe' = fe_key old" "fe' = old \<or> in_scope k lb (frontends w) old" by auto
  then have os: "in_scope k lb (frontends w) old"
    using scope old by (auto simp: in_scope_def)
  show ?thesis using scope_kept [OF run os] new same(1) ok by auto
qed

end

context api_stores
begin

lemma Reconcile_kept:
  assumes lb: "GetLoadBalancer k req w = (Inr lb, w0)"
  shows "frontends w0 = frontends w" "statefulsets w0 = statefulsets w" "configmaps w0 = configmaps w"
  using reads [of w0 req w] lb by auto

lemma Reconcile_stages:
  assumes "GLB_Reconcile k ord r req w = (res, w')"
  shows "case GetLoadBalancer k req w of
      (Inl f, w0) \<Rightarrow> res = ignore_not_found k f
        \<and> frontends w' = frontends w \<and> statefulsets w' = statefulsets w \<and> configmaps w' = configmaps w
    | (Inr lb, w0) \<Rightarrow> (case EnsureHAProxyStatefulSet k lb w0 of
          (Inl f, w1) \<Rightarrow> res = Inl f \<and> frontends w' = frontends w \<and> configmaps w' = configmaps w
        | (Inr _, w1) \<Rightarrow> statefulsets w' = statefulsets w1
            \<and> (case ReconcileFrontends k r lb w1 of
                 (Inl f, w2) \<Rightarrow> res = Inl f \<and> frontends w' = frontends w2 \<and> configmaps w' = configmaps w
               | (Inr _, w2) \<Rightarrow> frontends w' = frontends w2 \<and> res = fst (ReconcileConfig k ord lb w2)))"
proof (cases "GetLoadBalancer k req w")
  case (Pair o0 w0)
  have w0: "frontends w0 = frontends w" "statefulsets w0 = statefulsets w" "configmaps w0 = configmaps w"
    using reads [of w0 req w] Pair by auto
  show ?thesis
  proof (cases o0)
    case (Inl f)
    then show ?thesis using assms Pair w0 by (simp add: GLB_Reconcile_def)
  next
    case (Inr lb)
    obtain o1 w1 where e: "EnsureHAProxyStatefulSet k lb w0 = (o1, w1)" by (cases "EnsureHAProxyStatefulSet k lb w0")
    note e' = EnsureHAProxyStatefulSet_kept [OF e]
    show ?thesis
    proof (cases o1)
      case (Inl f)
      then show ?thesis using assms Pair \<open>o0 = Inr lb\<close> e e' w0 by (auto simp: GLB_Reconcile_def go_run)
    next
      case (Inr u)
      obtain o2 w2 where f: "ReconcileFrontends k r lb w1 = (o2, w2)" by (cases "ReconcileFrontends k r lb w1")
      note f' = ReconcileFrontends_kept [OF f]
      obtain o3 w3 where c: "ReconcileConfig k ord lb w2 = (o3, w3)" by (cases "ReconcileConfig k ord lb w2")
      note c' = ReconcileConfig_kept [OF c]
      show ?thesis
        using assms Pair \<open>o0 = Inr lb\<close> Inr e e' f f' c c' w0
        by (cases o2; cases o3) (auto simp: GLB_Reconcile_def go_run)
    qed
  qed
qed

lemma Reconcile_converged:
  assumes ord: "range_order ord"
    and lb: "GetLoadBalancer k req w = (Inr lb, w0)" and run: "GLB_Reconcile k ord r req w = (Inr (), w')"
  shows "\<exists>ss fes bes v v' cfg cm.
      statefulsets w' (NN (lb_Namespace lb) (deploymentName lb)) = Some ss
    \<and> ss_Replicas ss = Some (lbs_Replicas (lb_Spec lb)) \<and> ss_Template ss = pod_template lb
    \<and> (\<forall>fe. in_scope k lb (frontends w) fe \<longrightarrow> (\<exists>new \<in> set fes. fe_key new = fe_key fe \<and> fe_Spec new = fe_Spec fe))
    \<and> (\<forall>fe. fe \<in> set fes \<longleftrightarrow> in_scope k lb (frontends w') fe)
    \<and> (\<forall>fe \<in> set fes. fe_Port fe \<noteq> None \<and> (\<exists>ref. fe_Owner fe = Some ref \<and> owned_by lb ref)
         \<or> fe_key fe \<in> set (failed_claims k r lb (snd (EnsureHAProxyStatefulSet k lb w0))))
    \<and> getFrontends k lb False (snd (ReconcileFrontends k r lb (snd (EnsureHAProxyStatefulSet k lb w0)))) = (Inr fes, v)
    \<and> getBackends k fes v = (Inr bes, v') \<and> BuildConfig lb fes bes = Inr cfg
    \<and> configmaps w' (config_key lb) = Some cm
    \<and> (\<forall>pod. gm_get cfg pod \<noteq> None \<longrightarrow> cm_payload cm (pod @ ''.cfg'') = gm_get cfg pod)"
proof -
  obtain w1 w2 where st: "EnsureHAProxyStatefulSet k lb w0 = (Inr (), w1)" and fr: "ReconcileFrontends k r lb w1 = (Inr (), w2)"
    and cf: "ReconcileConfig k ord lb w2 = (Inr (), w')" by (rule Reconcile_success [OF lb run])
  have fw1: "frontends w1 = frontends w"
    using EnsureHAProxyStatefulSet_kept(1) [OF st] Reconcile_kept [OF lb] by simp
  have keep: "statefulsets w' = statefulsets w1" "frontends w' = frontends w2"
    using ReconcileFrontends_kept [OF fr] ReconcileConfig_kept [OF cf] by simp_all
  obtain ss where ss: "statefulsets w' (NN (lb_Namespace lb) (deploymentName lb)) = Some ss"
    "ss_Replicas ss = Some (lbs_Replicas (lb_Spec lb))" "ss_Template ss = pod_template lb"
    using EnsureHAProxyStatefulSet_stored [OF ss_doc st] keep(1) by (auto simp: ss_payload_def)
  obtain fes v bes v' cfg cm where c: "getFrontends k lb False w2 = (Inr fes, v)" "getBackends k fes v = (Inr bes, v')"
    "BuildConfig lb fes bes = Inr cfg" "configmaps w' (config_key lb) = Some cm"
    "\<forall>pod. gm_get cfg pod \<noteq> None \<longrightarrow> cm_payload cm (pod @ ''.cfg'') = gm_get cfg pod"
    using ReconcileConfig_stored [OF cm_doc ord cf] by auto
  have set_fes: "fe \<in> set fes \<longleftrightarrow> in_scope k lb (frontends w') fe" for fe
    using getFrontends_scope(2) [OF lists c(1)] keep(2) by simp
  have owned: "fe_Port fe \<noteq> None \<and> (\<exists>ref. fe_Owner fe = Some ref \<and> owned_by lb ref)
      \<or> fe_key fe \<in> set (failed_claims k r lb (snd (EnsureHAProxyStatefulSet k lb w0)))" if "fe \<in> set fes" for fe
  proof -
    have "in_scope k lb (frontends w2) fe" using that set_fes keep(2) by simp
    then have "\<not> needs_write fe \<or> fe_key fe \<in> set (failed_claims k r lb w1)" "eligible lb False fe"
      using nothing_left [OF fr] by (auto simp: in_scope_def)
    then show ?thesis using st by (auto simp: needs_write_def eligible_def)
  qed
  have old: "\<exists>new \<in> set fes. fe_key new = fe_key fe \<and> fe_Spec new = fe_Spec fe" if "in_scope k lb (frontends w) fe" for fe
  proof -
    have "in_scope k lb (frontends w1) fe" using that fw1 by simp
    from scope_kept [OF fr this] obtain new where "in_scope k lb (frontends w2) new"
      "fe_key new = fe_key fe" "fe_Spec new = fe_Spec fe" by blast
    then show ?thesis using set_fes keep(2) by (intro bexI [of _ new]) simp_all
  qed
  have "getFrontends k lb False (snd (ReconcileFrontends k r lb (snd (EnsureHAProxyStatefulSet k lb w0)))) = (Inr fes, v)"
    using c(1) st fr by simp
  then show ?thesis using ss c(2-5) set_fes owned old by blast
qed

lemma Reconcile_settled:
  assumes lb: "GetLoadBalancer k req w = (Inr lb, w0)"
    and run: "GLB_Reconcile k ord r req w = (Inr (), w')"
    and lb': "GetLoadBalancer k req w' = (Inr lb, v0)" and again: "GLB_Reconcile k ord' r req w' = (res, w'')"
    and ok: "n \<notin> set (failed_claims k r lb (snd (EnsureHAProxyStatefulSet k lb w0)))"
  shows "frontends w'' n = frontends w' n"
proof -
  obtain w1 w2 where st: "EnsureHAProxyStatefulSet k lb w0 = (Inr (), w1)" and fr: "ReconcileFrontends k r lb w1 = (Inr (), w2)"
    and cf: "ReconcileConfig k ord lb w2 = (Inr (), w')" by (rule Reconcile_success [OF lb run])
  have fw: "frontends w' = frontends w2" using ReconcileConfig_kept [OF cf] by simp
  have quiet: "frontends v' n = frontends w' n" if same: "frontends v = frontends w'" and again: "ReconcileFrontends k r lb v = (x, v')" for v x v'
  proof -
    obtain o1 u where g: "getFrontends k lb False v = (o1, u)" by (cases "getFrontends k lb False v")
    note g' = getFrontends_kept(1) [OF g]
    show ?thesis
    proof (cases o1)
      case (Inl f)
      then show ?thesis using same again g g' by (simp add: ReconcileFrontends_run)
    next
      case (Inr fes)
      let ?ws = "planned_writes lb (glbr_StartingPort r) fes"
      have "fe_key x \<noteq> n" if "x \<in> set ?ws" for x
      proof
        assume n: "fe_key x = n"
        from that obtain fe where fe: "fe \<in> set fes" "needs_write fe" "x = fst (assign_frontend lb (GetNextPort fes (glbr_StartingPort r)) fe)"
          by (rule planned_origin)
        then have "in_scope k lb (frontends w2) fe" using getFrontends_scope(2) [OF lists g [unfolded Inr]] same fw by simp
        moreover have "fe_key fe \<notin> set (failed_claims k r lb w1)" using fe(3) n ok st by simp
        ultimately show False using nothing_left [OF fr] fe(2) by blast
      qed
      moreover have "run_writes k ?ws u = (x, v')" using again g Inr by (simp add: ReconcileFrontends_run)
      ultimately show ?thesis using run_writes_stored [OF updates, of ?ws u x v' n] same g' by auto
    qed
  qed
  obtain o1 v1 where e: "EnsureHAProxyStatefulSet k lb v0 = (o1, v1)" by (cases "EnsureHAProxyStatefulSet k lb v0")
  have v1: "frontends v1 = frontends w'"
    using EnsureHAProxyStatefulSet_kept(1) [OF e] Reconcile_kept [OF lb'] by simp
  obtain o2 v2 where f: "ReconcileFrontends k r lb v1 = (o2, v2)" by (cases "ReconcileFrontends k r lb v1")
  show ?thesis
    using Reconcile_stages [OF again] lb' e f quiet [OF v1 f] by (auto split: sum.splits)
qed

end

section \<open>The in-memory cluster\<close>

lemma mem_get_world: "snd (mem_get key objs n w) = w"
  by (simp add: mem_get_def split: option.splits)

interpretation mem: api_stores mem_kube mem_frontends mem_statefulsets mem_configmaps
proof
  fix v n w opts ss mut fe cm mut'
  show "list_frontends_doc mem_kube mem_frontends" by (rule mem_list_frontends_doc)
  show "status_update_doc mem_kube mem_frontends" by (rule mem_status_update)
  show "create_or_update_doc (CreateOrUpdateStatefulSet mem_kube) mem_statefulsets ss_key ss_payload" by (rule mem_statefulset_doc)
  show "create_or_update_doc (CreateOrUpdateConfigMap mem_kube) mem_configmaps cm_key cm_payload" by (rule mem_configmap_doc)
  show "mem_frontends v = mem_frontends w \<and> mem_statefulsets v = mem_statefulsets w \<and> mem_configmaps v = mem_configmaps w"
    if "v \<in> {snd (GetLoadBalancer mem_kube n w), snd (ListFrontends mem_kube opts w), snd (ListBackends mem_kube opts w)}"
    using that by (auto simp: mem_kube_sel mem_get_world mem_list_frontends_def mem_list_backends_def)
  show "mem_frontends v = mem_frontends w \<and> mem_configmaps v = mem_configmaps w"
    if "v = snd (CreateOrUpdateStatefulSet mem_kube ss mut w)"
    using that by (auto simp: mem_kube_def mem_create_or_update_def split: sum.splits)
  show "mem_statefulsets v = mem_statefulsets w \<and> mem_configmaps v = mem_configmaps w"
    if "v = snd (UpdateFrontendStatus mem_kube fe w)"
    using that by (auto simp: mem_kube_sel mem_update_frontend_def Let_def split: option.splits)
  show "mem_frontends v = mem_frontends w \<and> mem_statefulsets v = mem_statefulsets w"
    if "v = snd (CreateOrUpdateConfigMap mem_kube cm mut' w)"
    using that by (auto simp: mem_kube_def mem_create_or_update_def split: sum.splits)
qed

lemma mem_none_fails: "failed_claims mem_kube r lb w = []"
  by (simp add: failed_claims_def writes_succeed_all [OF mem_plan_succeeds] split: prod.splits sum.splits)

definition claimed_frontend :: "string \<Rightarrow> Frontend" where
  "claimed_frontend n = sample_frontend n (Some \<lparr>lbr_Name = ''lb'', lbr_Namespace = ''glb''\<rparr>) (Some 10240)"

lemma sample_ensure: "\<exists>ss. EnsureHAProxyStatefulSet mem_kube (sample_lb 1) sample_cluster = (Inr (), sample_cluster\<lparr>cl_statefulsets := [ss]\<rparr>)"
  by (simp add: EnsureHAProxyStatefulSet_def mem_kube_def mem_create_or_update_def sample_cluster_def empty_cluster_def fetched_def lookup_def
        statefulset_mutate_def new_statefulset_def mem_controller_def named_meta_def zero_ObjectMeta_def Let_def ss_key_def meta_key_def go_run store_def)

lemma sample_get_ss: "getFrontends mem_kube (sample_lb 1) False (sample_cluster\<lparr>cl_statefulsets := ss\<rparr>) =
    (Inr [sample_frontend ''web'' None None, sample_frontend ''api'' None None], sample_cluster\<lparr>cl_statefulsets := ss\<rparr>)"
  by (simp add: getFrontends_run mem_kube_sel mem_selector_def mem_list_frontends_def mem_chosen_def sample_cluster_def
      listed_def lookup_def eligible_def) (simp add: sample_defs)

lemma sample_port: "GetNextPort [sample_frontend ''web'' None None, sample_frontend ''api'' None None] 10240 = 10240"
  by (simp add: GetNextPort_def)

lemma claimed_facts [simp]:
  "fe_ObjectMeta (claimed_frontend n) = named_meta n ''glb''"
  "(sample_frontend n ref p)\<lparr>fe_Status := fe_Status (claimed_frontend n)\<rparr> = claimed_frontend n"
  by (simp_all add: claimed_frontend_def) (simp add: sample_frontend_def)

lemma sample_claim: "ReconcileFrontends mem_kube sample_reconciler (sample_lb 1) (sample_cluster\<lparr>cl_statefulsets := ss\<rparr>) =
    (Inr (), sample_cluster\<lparr>cl_statefulsets := ss, cl_frontends := [claimed_frontend ''api'', claimed_frontend ''web'']\<rparr>)"
proof -
  let ?w = "sample_cluster\<lparr>cl_statefulsets := ss\<rparr>" and ?web = "sample_frontend ''web'' None None" and ?api = "sample_frontend ''api'' None None"
  have plan: "planned_writes (sample_lb 1) 10240 [?web, ?api] = [claimed_frontend ''web'', claimed_frontend ''api'']"
    by (simp add: planned_writes_def sample_port needs_write_def assign_frontend_def claimed_frontend_def Let_def) (simp add: sample_frontend_def)
  have fes: "cl_frontends ?w = [?web, ?api]" by (simp add: sample_cluster_def)
  have 1: "mem_update_frontend (claimed_frontend ''web'') ?w = (Inr (claimed_frontend ''web''), ?w\<lparr>cl_frontends := [claimed_frontend ''web'', ?api]\<rparr>)"
    by (simp add: mem_update_frontend_def fes lookup_def store_def Let_def)
  have 2: "mem_update_frontend (claimed_frontend ''api'') (?w\<lparr>cl_frontends := [claimed_frontend ''web'', ?api]\<rparr>) =
      (Inr (claimed_frontend ''api''), ?w\<lparr>cl_frontends := [claimed_frontend ''api'', claimed_frontend ''web'']\<rparr>)"
    by (simp add: mem_update_frontend_def lookup_def store_def Let_def)
  have "run_writes mem_kube [claimed_frontend ''web'', claimed_frontend ''api''] ?w =
      (Inr (), ?w\<lparr>cl_frontends := [claimed_frontend ''api'', claimed_frontend ''web'']\<rparr>)"
    unfolding run_writes.simps mem_kube_sel 1 2 by (simp add: 2)
  then show ?thesis
    by (simp add: ReconcileFrontends_run sample_get_ss sample_reconciler_def plan)
qed

lemma sample_get_claimed: "getFrontends mem_kube (sample_lb 1) False
      (sample_cluster\<lparr>cl_statefulsets := ss, cl_frontends := [claimed_frontend ''api'', claimed_frontend ''web'']\<rparr>) =
    (Inr [claimed_frontend ''api'', claimed_frontend ''web''],
     sample_cluster\<lparr>cl_statefulsets := ss, cl_frontends := [claimed_frontend ''api'', claimed_frontend ''web'']\<rparr>)"
proof -
  have "eligible (sample_lb 1) False (claimed_frontend n)" for n
    by (simp add: eligible_def claimed_frontend_def owned_by_def)
  moreover have "claimed_frontend ''web'' \<noteq> claimed_frontend ''api''"
    by (simp add: claimed_frontend_def sample_frontend_def named_meta_def zero_ObjectMeta_def)
  ultimately show ?thesis
    by (simp add: getFrontends_run mem_kube_sel mem_selector_def mem_list_frontends_def mem_chosen_def listed_def lookup_def)
      (simp add: sample_lb_def)
qed

lemma BuildConfig_ok: "\<forall>fe \<in> set fes. buildable bes fe \<Longrightarrow> \<exists>cfg. BuildConfig lb fes bes = Inr cfg"
  using loadBalancerConfig_ok [of fes bes] by (auto simp: BuildConfig_def)

text \<open>The whole run on the sample cluster.\<close>

abbreviation sample_req :: NamespacedName where
  "sample_req \<equiv> NN ''glb'' ''lb''"

lemma sample_get_lb: "cl_loadbalancers w = [sample_lb 1] \<Longrightarrow> GetLoadBalancer mem_kube sample_req w = (Inr (sample_lb 1), w)"
  by (simp add: mem_kube_sel mem_get_def lookup_def)

lemma sample_Reconcile: "\<exists>w'. GLB_Reconcile mem_kube id sample_reconciler sample_req sample_cluster = (Inr (), w')
    \<and> cl_loadbalancers w' = [sample_lb 1]"
proof -
  obtain ss where ss: "EnsureHAProxyStatefulSet mem_kube (sample_lb 1) sample_cluster = (Inr (), sample_cluster\<lparr>cl_statefulsets := [ss]\<rparr>)"
    using sample_ensure by blast
  let ?fes = "[claimed_frontend ''api'', claimed_frontend ''web'']"
  let ?w = "sample_cluster\<lparr>cl_statefulsets := [ss], cl_frontends := ?fes\<rparr>"
  have spec: "fes_BackendSelector (fe_Spec (claimed_frontend n)) = \<lparr>ls_MatchLabels = [(''site'', ''a'')], ls_MatchExpressions = []\<rparr>"
    "fes_Service (fe_Spec (claimed_frontend n)) \<noteq> None" for n
    by (simp_all add: claimed_frontend_def sample_frontend_def)
  have "\<exists>bes. getBackends mem_kube ?fes ?w = (Inr bes, ?w) \<and> gm_get bes ''api'' = Some [sample_backend ''b'' ''example.org'']
      \<and> gm_get bes ''web'' = Some [sample_backend ''b'' ''example.org'']"
    by (simp add: getBackends_def mem_kube_sel mem_selector_def go_run spec mem_list_backends_def sample_cluster_def mem_chosen_def
        listed_def lookup_def meta_key_def)
  then obtain bes where bes: "getBackends mem_kube ?fes ?w = (Inr bes, ?w)" "gm_get bes ''api'' = Some [sample_backend ''b'' ''example.org'']"
    "gm_get bes ''web'' = Some [sample_backend ''b'' ''example.org'']" by blast
  have "servers_present (sample_backend ''b'' ''example.org'')" by (simp add: servers_present_def sample_backend_def)
  then have "\<forall>fe \<in> set ?fes. buildable bes fe" using bes spec(2) by (simp add: buildable_def backends_at_def)
  then obtain cfg where cfg: "BuildConfig (sample_lb 1) ?fes bes = Inr cfg" using BuildConfig_ok by blast
  have "fetched mem_configmaps cm_key ?w (new_configmap (sample_lb 1)) = new_configmap (sample_lb 1)"
    by (simp add: fetched_def lookup_def sample_cluster_def empty_cluster_def)
  moreover have "\<exists>m. configmap_mutate id cfg (new_configmap (sample_lb 1)) = Inr m"
    using config_loop_Some [of cfg "[]"] by (auto simp: configmap_mutate_def new_configmap_def)
  ultimately obtain m w' where cm: "CreateOrUpdateConfigMap mem_kube (new_configmap (sample_lb 1)) (configmap_mutate id cfg) ?w = (Inr m, w')"
    using mem_configmap_stored [of id cfg ?w "sample_lb 1"] by auto
  then have "cl_loadbalancers w' = [sample_lb 1]"
    by (auto simp: mem_kube_def mem_create_or_update_def sample_cluster_def split: sum.splits if_splits)
  moreover have "GetLoadBalancer mem_kube sample_req sample_cluster = (Inr (sample_lb 1), sample_cluster)"
    by (rule sample_get_lb) (simp add: sample_cluster_def)
  moreover have "ReconcileConfig mem_kube id (sample_lb 1) ?w = (Inr (), w')"
    by (simp add: ReconcileConfig_def sample_get_claimed bes(1) cfg cm)
  ultimately show ?thesis by (simp add: GLB_Reconcile_def ss sample_claim)
qed

section \<open>Whole runs of the load-balancer controller\<close>

text \<open>
  C1: A successful run of \<^verbatim>\<open>Reconcile\<close> for a load balancer, whose lists show the stored objects, leaves the cluster as
  the load balancer describes it: the StatefulSet has its replicas and pod template; every frontend that was in
  scope still is, under the same key and with the same spec; every frontend in scope has a port and is owned by
  this load balancer, except those whose status update failed in this run, which the code logs and passes
  over; and the ConfigMap holds, for every pod, the file BuildConfig gives for exactly the frontends in scope
  and the backends they select in the state the second stage leaves.
\<close>

theorem GLB_Reconcile_converges:
  assumes "api_stores k frontends statefulsets configmaps" and "range_order ord"
    and "GetLoadBalancer k req w = (Inr lb, w0)" and "GLB_Reconcile k ord r req w = (Inr (), w')"
  shows "\<exists>ss fes bes v v' cfg cm.
      statefulsets w' (NN (lb_Namespace lb) (deploymentName lb)) = Some ss
    \<and> ss_Replicas ss = Some (lbs_Replicas (lb_Spec lb)) \<and> ss_Template ss = pod_template lb
    \<and> (\<forall>fe. in_scope k lb (frontends w) fe \<longrightarrow> (\<exists>new \<in> set fes. fe_key new = fe_key fe \<and> fe_Spec new = fe_Spec fe))
    \<and> (\<forall>fe. fe \<in> set fes \<longleftrightarrow> in_scope k lb (frontends w') fe)
    \<and> (\<forall>fe \<in> set fes. fe_Port fe \<noteq> None \<and> (\<exists>ref. fe_Owner fe = Some ref \<and> owned_by lb ref)
         \<or> fe_key fe \<in> set (failed_claims k r lb (snd (EnsureHAProxyStatefulSet k lb w0))))
    \<and> getFrontends k lb False (snd (ReconcileFrontends k r lb (snd (EnsureHAProxyStatefulSet k lb w0)))) = (Inr fes, v)
    \<and> getBackends k fes v = (Inr bes, v') \<and> BuildConfig lb fes bes = Inr cfg
    \<and> configmaps w' (config_key lb) = Some cm
    \<and> (\<forall>pod. gm_get cfg pod \<noteq> None \<longrightarrow> cm_payload cm (pod @ ''.cfg'') = gm_get cfg pod)"
  by (rule api_stores.Reconcile_converged [OF assms])

theorem GLB_Reconcile_converges_witness:
  "\<exists>w' new. GLB_Reconcile mem_kube id sample_reconciler sample_req sample_cluster = (Inr (), w')
     \<and> fe_Spec new = fe_Spec (sample_frontend ''web'' None None)
     \<and> in_scope mem_kube (sample_lb 1) (mem_frontends w') new \<and> fe_Port new \<noteq> None
     \<and> mem_configmaps w' (config_key (sample_lb 1)) \<noteq> None"
proof -
  obtain w' where run: "GLB_Reconcile mem_kube id sample_reconciler sample_req sample_cluster = (Inr (), w')"
    using sample_Reconcile by blast
  have lb: "GetLoadBalancer mem_kube sample_req sample_cluster = (Inr (sample_lb 1), sample_cluster)"
    by (rule sample_get_lb) (simp add: sample_cluster_def)
  obtain fes cm where
    "\<forall>fe. in_scope mem_kube (sample_lb 1) (mem_frontends sample_cluster) fe \<longrightarrow> (\<exists>new \<in> set fes. fe_key new = fe_key fe \<and> fe_Spec new = fe_Spec fe)"
    "\<forall>fe. fe \<in> set fes \<longleftrightarrow> in_scope mem_kube (sample_lb 1) (mem_frontends w') fe"
    "\<forall>fe \<in> set fes. fe_Port fe \<noteq> None"
    "mem_configmaps w' (config_key (sample_lb 1)) = Some cm"
    using GLB_Reconcile_converges [OF mem.api_stores_axioms range_order_id(1) lb run] by (elim exE conjE) (simp add: mem_none_fails)
  then show ?thesis using sample_scope(1) run by (metis option.distinct(1))
qed

text \<open>
  C30: The stages of \<^verbatim>\<open>Reconcile\<close> and their failures. A load balancer that is not found, or cannot be read, changes
  nothing, and NotFound is no error. When the StatefulSet cannot be ensured its fault is returned and neither
  frontends nor ConfigMaps are touched. When the frontends cannot be selected the fault is returned and no
  ConfigMap is touched. Otherwise the result is that of the configuration stage, which changes no frontend and
  no StatefulSet.
\<close>

theorem GLB_Reconcile_stages:
  assumes "api_stores k frontends statefulsets configmaps" and "ignore_not_found_doc k"
    and "GLB_Reconcile k ord r req w = (res, w')"
  shows "case GetLoadBalancer k req w of
      (Inl f, w0) \<Rightarrow> res = (case f of Err e \<Rightarrow> if IsNotFound k e then Inr () else Inl f | Panic p \<Rightarrow> Inl f)
        \<and> frontends w' = frontends w \<and> statefulsets w' = statefulsets w \<and> configmaps w' = configmaps w
    | (Inr lb, w0) \<Rightarrow> (case EnsureHAProxyStatefulSet k lb w0 of
          (Inl f, w1) \<Rightarrow> res = Inl f \<and> frontends w' = frontends w \<and> configmaps w' = configmaps w
        | (Inr _, w1) \<Rightarrow> statefulsets w' = statefulsets w1
            \<and> (case ReconcileFrontends k r lb w1 of
                 (Inl f, w2) \<Rightarrow> res = Inl f \<and> frontends w' = frontends w2 \<and> configmaps w' = configmaps w
               | (Inr _, w2) \<Rightarrow> frontends w' = frontends w2 \<and> res = fst (ReconcileConfig k ord lb w2)))"
proof -
  have eq: "ignore_not_found k f = (case f of Err e \<Rightarrow> if IsNotFound k e then Inr () else Inl f | Panic p \<Rightarrow> Inl f)" for f
    using assms(2) by (simp add: ignore_not_found_def ignore_not_found_doc_def split: fault.splits)
  show ?thesis using api_stores.Reconcile_stages [OF assms(1,3)] by (simp only: eq)
qed

theorem GLB_Reconcile_stages_witness:
  "\<exists>w'. GLB_Reconcile mem_kube id sample_reconciler (NN ''glb'' ''gone'') sample_cluster = (Inr (), w')
     \<and> mem_frontends w' = mem_frontends sample_cluster \<and> mem_configmaps w' = mem_configmaps sample_cluster"
proof -
  have missing: "GetLoadBalancer mem_kube (NN ''glb'' ''gone'') sample_cluster = (Inl (Err (NotFoundErr ''gone'')), sample_cluster)"
    by (simp add: mem_kube_sel mem_get_def lookup_def sample_cluster_def)
  obtain res w' where run: "GLB_Reconcile mem_kube id sample_reconciler (NN ''glb'' ''gone'') sample_cluster = (res, w')"
    by (cases "GLB_Reconcile mem_kube id sample_reconciler (NN ''glb'' ''gone'') sample_cluster")
  from GLB_Reconcile_stages [OF mem.api_stores_axioms mem_ignore_not_found run] missing
  have "res = Inr () \<and> mem_frontends w' = mem_frontends sample_cluster \<and> mem_configmaps w' = mem_configmaps sample_cluster"
    by (simp add: mem_kube_sel)
  with run show ?thesis by blast
qed

text \<open>
  C19: Reconciling settles: after a successful run, running again for the same load balancer, whatever its outcome,
  changes no frontend except those whose status update failed in the first run. The lists of both runs
  show the stored objects.
\<close>

theorem GLB_Reconcile_settles:
  assumes "api_stores k frontends statefulsets configmaps"
    and "GetLoadBalancer k req w = (Inr lb, w0)" and "GLB_Reconcile k ord r req w = (Inr (), w')"
    and "GetLoadBalancer k req w' = (Inr lb, v0)" and "GLB_Reconcile k ord' r req w' = (res, w'')"
    and "n \<notin> set (failed_claims k r lb (snd (EnsureHAProxyStatefulSet k lb w0)))"
  shows "frontends w'' n = frontends w' n"
  by (rule api_stores.Reconcile_settled [OF assms])

theorem GLB_Reconcile_settles_witness:
  "\<exists>w'. GLB_Reconcile mem_kube id sample_reconciler sample_req sample_cluster = (Inr (), w')
     \<and> mem_frontends (snd (GLB_Reconcile mem_kube id sample_reconciler sample_req w')) = mem_frontends w'"
proof -
  obtain w' where run: "GLB_Reconcile mem_kube id sample_reconciler sample_req sample_cluster = (Inr (), w')"
    and lbs: "cl_loadbalancers w' = [sample_lb 1]" using sample_Reconcile by blast
  have lb: "GetLoadBalancer mem_kube sample_req sample_cluster = (Inr (sample_lb 1), sample_cluster)"
    by (rule sample_get_lb) (simp add: sample_cluster_def)
  obtain res w'' where again: "GLB_Reconcile mem_kube id sample_reconciler sample_req w' = (res, w'')"
    by (cases "GLB_Reconcile mem_kube id sample_reconciler sample_req w'")
  show ?thesis
    using run again GLB_Reconcile_settles [OF mem.api_stores_axioms lb run sample_get_lb [OF lbs] again] by (auto simp: mem_none_fails fun_eq_iff)
qed

section \<open>From a scrape to the EndpointSlice\<close>

text \<open>
  C16: Health reaches the cluster: when the monitor has reported what it recorded, a successful reconcile of a
  frontend that has a port, selects a backend with recorded pods, and has no address twice, neither in the
  records nor in the cache before the report, leaves an EndpointSlice, on that port, in which an address is
  listed, ready or not, exactly when it is the address of a pod recorded so for one of those backends; the
  monitor's records, the health cache, the frontend controller and the API server agree. Other frontends
  may have no recorded pods or repeated addresses. Assumed: the lists of the report succeed, the calls that store
  behave as documented, and Services keep their keys and are not changed by storing an EndpointSlice.
\<close>

theorem health_reaches_endpointslice:
  assumes report: "states_wf (mon_endpointStates mon)" "orders_ok ord"
      "ListBackends k \<lparr>lo_LabelSelector = None, lo_Namespace = Some (mon_namespace mon)\<rparr> u = (Inr bl, u1)"
      "ListFrontends k \<lparr>lo_LabelSelector = None, lo_Namespace = Some (mon_namespace mon)\<rparr> u1 = (Inr fl, u2)"
      "updateHealthManager k ord ready mon hm u = (Inr hm', u')"
    and ips: "distinct_ips (HealthCache_Get (hm_cache hm) n)" "distinct_ips (spec_endpoints k mon (bel_Items bl) (fel_Items fl) n)"
    and hit: "spec_hits k mon (bel_Items bl) (fel_Items fl) n \<noteq> []"
    and stores: "create_or_update_doc (CreateOrUpdateService k) svcs svc_key svc_payload"
      "create_or_update_doc (CreateOrUpdateEndpointSlice k) slices es_key es_payload"
      "\<forall>w n svc. svcs w n = Some svc \<longrightarrow> svc_key svc = n"
      "\<forall>es mut w. svcs (snd (CreateOrUpdateEndpointSlice k es mut w)) = svcs w"
    and get: "GetFrontend k n w = (Inr fe, w0)" "fe_key fe = n" "fe_Port fe = Some port"
    and run: "Frontend_Reconcile k (hm_cache hm') n w = (Inr (), w')"
  shows "\<exists>es. slices w' n = Some es
    \<and> es_Ports es = [\<lparr>epp_Name = Some ''frontend'', epp_Port = Some port, epp_Protocol = Some ProtocolTCP\<rparr>]
    \<and> (\<forall>ip ready. (\<exists>e \<in> set (es_Endpoints es). se_Addresses e = [ip] \<and> se_Ready e = Some ready)
         \<longleftrightarrow> (\<exists>ep \<in> set (spec_endpoints k mon (bel_Items bl) (fel_Items fl) n). ep_IPAddress ep = ip \<and> ep_Healthy ep = ready))"
proof -
  let ?spec = "spec_endpoints k mon (bel_Items bl) (fel_Items fl) n" and ?got = "HealthCache_Get (hm_cache hm') n"
  have got: "distinct_ips ?got" "health_map ?got = health_map ?spec"
    using report_cached [OF report(1-4), of ready hm] report(5) hit ips by (auto simp: reported_health_def split: if_splits)
  have service: "ReconcileService k (hm_cache hm') n fe w0 = (Inr (), w')"
    using run get(1) by (auto simp: Frontend_Reconcile_def go_run split: prod.splits sum.splits)
  obtain es where es: "slices w' n = Some es" "es_payload es = ([(LabelServiceName, fe_Name fe)], AddressTypeIPv4,
      map slice_endpoint ?got, [\<lparr>epp_Name = Some ''frontend'', epp_Port = Some port, epp_Protocol = Some ProtocolTCP\<rparr>])"
    using ReconcileService_stored [OF stores get(3) service] get(2) by auto
  have "(\<exists>e \<in> set (es_Endpoints es). se_Addresses e = [ip] \<and> se_Ready e = Some r) \<longleftrightarrow>
      (\<exists>ep \<in> set ?got. ep_IPAddress ep = ip \<and> ep_Healthy ep = r)" for ip r
    using es(2) by (auto simp: es_payload_def slice_endpoint_def)
  moreover have "(\<exists>ep \<in> set ?got. ep_IPAddress ep = ip \<and> ep_Healthy ep = r) \<longleftrightarrow>
      (\<exists>ep \<in> set ?spec. ep_IPAddress ep = ip \<and> ep_Healthy ep = r)" for ip r
    using got(2) health_map_distinct [OF got(1), of ip r] health_map_distinct [OF ips(2), of ip r] by simp
  ultimately show ?thesis using es by (auto simp: es_payload_def)
qed

definition served_cluster :: cluster where
  "served_cluster = empty_cluster\<lparr>cl_frontends := [claimed_frontend ''web''], cl_backends := [sample_backend ''b'' ''example.org'']\<rparr>"

abbreviation served_mon :: HAProxyMonitor where
  "served_mon \<equiv> run_mon [] [(''u1'', target1)] [(''b'', [(''u1'', True)])]"

lemma served_lists:
  "ListBackends mem_kube \<lparr>lo_LabelSelector = None, lo_Namespace = Some (mon_namespace served_mon)\<rparr> served_cluster =
     (Inr \<lparr>bel_TypeMeta = zero_TypeMeta, bel_ListMeta = zero_ListMeta, bel_Items = [sample_backend ''b'' ''example.org'']\<rparr>, served_cluster)"
  "ListFrontends mem_kube \<lparr>lo_LabelSelector = None, lo_Namespace = Some (mon_namespace served_mon)\<rparr> served_cluster =
     (Inr \<lparr>fel_TypeMeta = zero_TypeMeta, fel_ListMeta = zero_ListMeta, fel_Items = [claimed_frontend ''web'']\<rparr>, served_cluster)"
  by (simp_all add: mem_kube_sel mem_list_frontends_def mem_list_backends_def served_cluster_def listed_def lookup_def
      mem_chosen_def run_mon_def meta_key_def)

lemma served_spec:
  "spec_hits mem_kube served_mon [sample_backend ''b'' ''example.org''] [claimed_frontend ''web''] (NN ''glb'' ''web'') \<noteq> []"
  "spec_endpoints mem_kube served_mon [sample_backend ''b'' ''example.org''] [claimed_frontend ''web''] n =
     (if n = NN ''glb'' ''web'' then [sample_endpoint ''n1'' ''10.1.0.1'' True] else [])"
proof -
  have states: "mon_endpointStates served_mon = [(''b'', [(''u1'', True)])]" by (simp add: run_mon_def)
  have sel: "selects mem_kube (claimed_frontend ''web'') (sample_backend ''b'' ''example.org'')"
    unfolding claimed_frontend_def by (rule sample_selects)
  have ep: "endpoint_of served_mon (''u1'', True) = sample_endpoint ''n1'' ''10.1.0.1'' True"
    by (simp add: endpoint_of_def target_at_def run_mon_def) (simp add: target_of_def pod1_def sample_pod_def sample_endpoint_def)
  show "spec_hits mem_kube served_mon [sample_backend ''b'' ''example.org''] [claimed_frontend ''web''] (NN ''glb'' ''web'') \<noteq> []"
    "spec_endpoints mem_kube served_mon [sample_backend ''b'' ''example.org''] [claimed_frontend ''web''] n =
       (if n = NN ''glb'' ''web'' then [sample_endpoint ''n1'' ''10.1.0.1'' True] else [])"
    by (simp_all add: spec_endpoints_def spec_hits_def states sel inner_at_def ep)
qed

lemma served_reconcile: "\<exists>w'. Frontend_Reconcile mem_kube hc (NN ''glb'' ''web'') served_cluster = (Inr (), w')"
proof -
  obtain service where service: "fes_Service (fe_Spec (claimed_frontend ''web'')) = Some service"
    by (simp add: claimed_frontend_def sample_frontend_def)
  have port: "fe_Port (claimed_frontend ''web'') = Some 10240" by (simp add: claimed_frontend_def)
  have "GetFrontend mem_kube (NN ''glb'' ''web'') served_cluster = (Inr (claimed_frontend ''web''), served_cluster)"
    by (simp add: mem_kube_sel mem_get_def lookup_def served_cluster_def)
  moreover have "\<exists>w'. ReconcileService mem_kube hc (NN ''glb'' ''web'') (claimed_frontend ''web'') served_cluster = (Inr (), w')"
    by (simp add: ReconcileService_def mem_kube_def mem_create_or_update_def served_cluster_def empty_cluster_def fetched_def lookup_def service port
        service_mutate_def new_service_def mem_controller_def Let_def go_run svc_key_def es_key_def meta_key_def
        new_endpointslice_def endpointslice_mutate_def)
  ultimately show ?thesis by (auto simp: Frontend_Reconcile_def go_run)
qed

theorem health_reaches_endpointslice_witness:
  "\<exists>hm' w' es. updateHealthManager mem_kube plain_orders (\<lambda>_. True) served_mon (NewHealthManager NewHealthCache) served_cluster = (Inr hm', served_cluster)
     \<and> Frontend_Reconcile mem_kube (hm_cache hm') (NN ''glb'' ''web'') served_cluster = (Inr (), w')
     \<and> mem_slices w' (NN ''glb'' ''web'') = Some es
     \<and> (\<exists>e \<in> set (es_Endpoints es). se_Addresses e = [''10.1.0.1''] \<and> se_Ready e = Some True)"
proof -
  let ?n = "NN ''glb'' ''web''"
  have wf: "states_wf (mon_endpointStates served_mon)" by (simp add: run_mon_def states_wf_def gm_wf_def)
  have old: "distinct_ips (HealthCache_Get (hm_cache (NewHealthManager NewHealthCache)) ?n)"
    by (simp add: NewHealthManager_def NewHealthCache_def HealthCache_Get_def slice_at_def distinct_ips_def)
  have ips: "distinct_ips (spec_endpoints mem_kube served_mon
      (bel_Items \<lparr>bel_TypeMeta = zero_TypeMeta, bel_ListMeta = zero_ListMeta, bel_Items = [sample_backend ''b'' ''example.org'']\<rparr>)
      (fel_Items \<lparr>fel_TypeMeta = zero_TypeMeta, fel_ListMeta = zero_ListMeta, fel_Items = [claimed_frontend ''web'']\<rparr>) ?n)"
    by (simp add: served_spec(2) distinct_ips_def)
  obtain hm' where report: "updateHealthManager mem_kube plain_orders (\<lambda>_. True) served_mon (NewHealthManager NewHealthCache) served_cluster = (Inr hm', served_cluster)"
    using updateHealthManager_run [OF served_lists] by blast
  obtain w' where run: "Frontend_Reconcile mem_kube (hm_cache hm') ?n served_cluster = (Inr (), w')"
    using served_reconcile by blast
  have get: "GetFrontend mem_kube ?n served_cluster = (Inr (claimed_frontend ''web''), served_cluster)"
    by (simp add: mem_kube_sel mem_get_def lookup_def served_cluster_def)
  have keyed: "\<forall>w n svc. mem_services w n = Some svc \<longrightarrow> svc_key svc = n" using lookup_key by metis
  have frame: "\<forall>es mut w. mem_services (snd (CreateOrUpdateEndpointSlice mem_kube es mut w)) = mem_services w"
    using mem_service_frame by blast
  have fe: "fe_key (claimed_frontend ''web'') = ?n" "fe_Port (claimed_frontend ''web'') = Some 10240"
    by (simp_all add: claimed_frontend_def)
  obtain es where "mem_slices w' ?n = Some es" "\<exists>e \<in> set (es_Endpoints es). se_Addresses e = [''10.1.0.1''] \<and> se_Ready e = Some True"
    using health_reaches_endpointslice [OF wf plain_orders_ok served_lists report old ips _ mem_service_doc mem_slice_doc keyed frame get fe run]
    by (auto simp: served_spec sample_endpoint_def)
  with report run show ?thesis by blast
qed

end
