(* ===== verification/Fair_Runs.thy ===== *)
theory Fair_Runs
  imports Prelude
begin

text \<open>
  Infinite runs of a labelled step relation, weak fairness, and the rule by which a fair run makes progress:
  the theory the liveness of the running operator rests on.
\<close>

text \<open>A run of a labelled step relation, and a label that is not forever enabled without being taken.\<close>

definition labelled_run :: "('l \<Rightarrow> 's \<Rightarrow> 's \<Rightarrow> bool) \<Rightarrow> (nat \<Rightarrow> 'l) \<Rightarrow> (nat \<Rightarrow> 's) \<Rightarrow> bool" where
  "labelled_run step ls \<sigma> \<longleftrightarrow> (\<forall>i. step (ls i) (\<sigma> i) (\<sigma> (Suc i)))"

definition enabled :: "('l \<Rightarrow> 's \<Rightarrow> 's \<Rightarrow> bool) \<Rightarrow> 'l \<Rightarrow> 's \<Rightarrow> bool" where
  "enabled step a s \<longleftrightarrow> (\<exists>t. step a s t)"

definition weakly_fair :: "('l \<Rightarrow> 's \<Rightarrow> 's \<Rightarrow> bool) \<Rightarrow> (nat \<Rightarrow> 'l) \<Rightarrow> (nat \<Rightarrow> 's) \<Rightarrow> 'l \<Rightarrow> bool" where
  "weakly_fair step ls \<sigma> a \<longleftrightarrow> (\<forall>i. \<exists>j \<ge> i. ls j = a \<or> \<not> enabled step a (\<sigma> j))"

lemma labelled_runD: "labelled_run step ls \<sigma> \<Longrightarrow> step (ls i) (\<sigma> i) (\<sigma> (Suc i))"
  by (simp add: labelled_run_def)

text \<open>What holds at some point and is kept by every later step holds from there on.\<close>

lemma kept_from:
  assumes "P i" and "\<And>j. i \<le> j \<Longrightarrow> P j \<Longrightarrow> P (Suc j)" and "i \<le> j"
  shows "P j"
  using assms(3) by (induction rule: dec_induct) (auto intro: assms)

text \<open>
  The rule for progress: while \<open>P\<close> lasts the helpful label is enabled, no step increases the measure, and the helpful
  label decreases it; every step keeps \<open>P\<close> or reaches \<open>Q\<close>. Then \<open>Q\<close> is reached.
\<close>

lemma progress:
  fixes \<mu> :: "nat \<Rightarrow> nat"
  assumes keep: "\<And>j. i \<le> j \<Longrightarrow> P j \<Longrightarrow> P (Suc j) \<and> \<mu> (Suc j) \<le> \<mu> j \<or> Q (Suc j)"
    and helpful: "\<And>j. i \<le> j \<Longrightarrow> P j \<Longrightarrow> ls j = a \<Longrightarrow> \<mu> (Suc j) < \<mu> j \<or> Q (Suc j)"
    and en: "\<And>j. i \<le> j \<Longrightarrow> P j \<Longrightarrow> enabled step a (\<sigma> j)"
    and fair: "weakly_fair step ls \<sigma> a" and start: "P i"
  shows "\<exists>j \<ge> i. Q j"
proof -
  have "\<exists>j \<ge> m. Q j" if "i \<le> m" "P m" for m
    using that
  proof (induction "\<mu> m" arbitrary: m rule: less_induct)
    case less
    show ?case
    proof (rule ccontr)
      assume none: "\<not> (\<exists>j \<ge> m. Q j)"
      have stay: "P j \<and> \<mu> j \<le> \<mu> m" if "m \<le> j" for j
        using that
      proof (induction rule: dec_induct)
        case (step j)
        then show ?case using keep [of j] none less.prems by force
      qed (use less.prems in simp)
      obtain j where j: "m \<le> j" "ls j = a \<or> \<not> enabled step a (\<sigma> j)"
        using fair by (auto simp: weakly_fair_def)
      then have "ls j = a" using en [of j] stay [OF j(1)] less.prems(1) by auto
      then have "\<mu> (Suc j) < \<mu> j" using helpful [of j] stay [OF j(1)] j(1) less.prems(1) none by force
      then have "\<mu> (Suc j) < \<mu> m" "P (Suc j)" "i \<le> Suc j" using stay [of j] stay [of "Suc j"] j(1) less.prems(1) by auto
      from less.hyps [OF this(1,3,2)] show False using none j(1) by (meson Suc_leD order_trans)
    qed
  qed
  with start show ?thesis by blast
qed

end
