(* ===== verification/Operator_System.thy ===== *)
theory Operator_System
  imports Reconcile_Runs Fair_Runs
begin

text \<open>
  The running operator as one step system: the monitor and its health manager, the channel source that feeds the work
  queue of the frontend controller, and the worker that runs \<^verbatim>\<open>FrontendReconciler.Reconcile\<close>, cut at every call on
  the API and where it reads the health cache, so that all of them and the rest of the world interleave. The work
  queue and the API are locales, met by a queue as client-go describes it and by the cluster in memory. Shown: the
  steps of the worker in a row are \<^verbatim>\<open>Reconcile\<close>, the steps of a report are \<^verbatim>\<open>updateHealthManager\<close>, and an invariant.
\<close>

section \<open>The work queue\<close>

text \<open>
  The queue of requests of a controller is part of controller-runtime; its operations are a parameter. What is
  documented of it: a key waits at most once however often it is added; taking a key hands out one that waits
  and is not being processed, and marks it as being processed until it is done, so a key added in the
  meantime waits again; and keys are handed out in the order they were added: \<open>place\<close> counts those in front.
  The last law holds of the plain queue, and of the priority queue of controller-runtime among keys of the same priority;
  all keys are taken to have the same, as the program sets none.
\<close>

record 'q work_queue =
  wq_add :: "NamespacedName \<Rightarrow> 'q \<Rightarrow> 'q"
  wq_get :: "'q \<Rightarrow> (NamespacedName \<times> 'q) option"
  wq_done :: "NamespacedName \<Rightarrow> 'q \<Rightarrow> 'q"

locale work_queue_docs =
  fixes wq :: "'q work_queue"
    and queue_ok :: "'q \<Rightarrow> bool"
    and waiting :: "'q \<Rightarrow> NamespacedName set"
    and processing :: "'q \<Rightarrow> NamespacedName set"
    and place :: "'q \<Rightarrow> NamespacedName \<Rightarrow> nat"
  assumes add_ok: "queue_ok q \<Longrightarrow> queue_ok (wq_add wq n q)"
    and add_sets: "queue_ok q \<Longrightarrow> waiting (wq_add wq n q) = insert n (waiting q) \<and> processing (wq_add wq n q) = processing q"
    and add_place: "queue_ok q \<Longrightarrow> m \<in> waiting q \<Longrightarrow> m \<notin> processing q \<Longrightarrow> place (wq_add wq n q) m = place q m"
    and get_none: "queue_ok q \<Longrightarrow> wq_get wq q = None \<longleftrightarrow> waiting q \<subseteq> processing q"
    and get_ok: "queue_ok q \<Longrightarrow> wq_get wq q = Some (n, q') \<Longrightarrow> queue_ok q'"
    and get_sets: "queue_ok q \<Longrightarrow> wq_get wq q = Some (n, q') \<Longrightarrow> n \<in> waiting q - processing q
      \<and> waiting q' = waiting q - {n} \<and> processing q' = insert n (processing q)"
    and get_place: "queue_ok q \<Longrightarrow> wq_get wq q = Some (n, q') \<Longrightarrow> m \<in> waiting q \<Longrightarrow> m \<notin> processing q \<Longrightarrow> m \<noteq> n \<Longrightarrow>
      place q' m < place q m"
    and done_ok: "queue_ok q \<Longrightarrow> queue_ok (wq_done wq n q)"
    and done_sets: "queue_ok q \<Longrightarrow> n \<in> processing q \<Longrightarrow>
      waiting (wq_done wq n q) = waiting q \<and> processing (wq_done wq n q) = processing q - {n}"
    and done_place: "queue_ok q \<Longrightarrow> m \<in> waiting q \<Longrightarrow> m \<notin> processing q \<Longrightarrow> place (wq_done wq n q) m = place q m"

text \<open>A queue as client-go describes its own: the keys in order, those that wait, and those being processed.\<close>

record mem_queue =
  mq_queue :: "NamespacedName list"
  mq_dirty :: "NamespacedName list"
  mq_processing :: "NamespacedName list"

definition mem_work_queue :: "mem_queue work_queue" where
  "mem_work_queue =
     \<lparr>wq_add = (\<lambda>n q. if n \<in> set (mq_dirty q) then q
        else q\<lparr>mq_dirty := n # mq_dirty q, mq_queue := mq_queue q @ (if n \<in> set (mq_processing q) then [] else [n])\<rparr>),
      wq_get = (\<lambda>q. case mq_queue q of [] \<Rightarrow> None
        | n # ns \<Rightarrow> Some (n, q\<lparr>mq_queue := ns, mq_dirty := removeAll n (mq_dirty q), mq_processing := n # mq_processing q\<rparr>)),
      wq_done = (\<lambda>n q. if n \<in> set (mq_processing q) \<and> n \<in> set (mq_dirty q)
        then q\<lparr>mq_processing := removeAll n (mq_processing q), mq_queue := mq_queue q @ [n]\<rparr>
        else q\<lparr>mq_processing := removeAll n (mq_processing q)\<rparr>)\<rparr>"

definition mem_queue_ok :: "mem_queue \<Rightarrow> bool" where
  "mem_queue_ok q \<longleftrightarrow> distinct (mq_queue q) \<and> set (mq_queue q) = set (mq_dirty q) - set (mq_processing q)"

definition mem_place :: "mem_queue \<Rightarrow> NamespacedName \<Rightarrow> nat" where
  "mem_place q n = length (takeWhile (\<lambda>m. m \<noteq> n) (mq_queue q))"

lemma takeWhile_neq_append: "n \<in> set xs \<Longrightarrow> takeWhile (\<lambda>m. m \<noteq> n) (xs @ ys) = takeWhile (\<lambda>m. m \<noteq> n) xs"
  by (rule takeWhile_append1) simp_all

interpretation mem_queue: work_queue_docs mem_work_queue mem_queue_ok
  "\<lambda>q. set (mq_dirty q)" "\<lambda>q. set (mq_processing q)" mem_place
proof unfold_locales
  fix q q' n m
  assume ok: "mem_queue_ok q"
  show "mem_place (wq_add mem_work_queue n q) m = mem_place q m" if "m \<in> set (mq_dirty q)" "m \<notin> set (mq_processing q)"
    using that ok by (auto simp: mem_work_queue_def mem_queue_ok_def mem_place_def takeWhile_neq_append)
  show "mem_place (wq_done mem_work_queue n q) m = mem_place q m" if "m \<in> set (mq_dirty q)" "m \<notin> set (mq_processing q)"
    using that ok by (auto simp: mem_work_queue_def mem_queue_ok_def mem_place_def takeWhile_neq_append)
  show "wq_get mem_work_queue q = None \<longleftrightarrow> set (mq_dirty q) \<subseteq> set (mq_processing q)"
    using ok by (auto simp: mem_work_queue_def mem_queue_ok_def split: list.splits)
  assume get: "wq_get mem_work_queue q = Some (n, q')"
  then obtain ns where ns: "mq_queue q = n # ns"
    "q' = q\<lparr>mq_queue := ns, mq_dirty := removeAll n (mq_dirty q), mq_processing := n # mq_processing q\<rparr>"
    by (auto simp: mem_work_queue_def split: list.splits)
  show "mem_queue_ok q'" using ok ns by (auto simp: mem_queue_ok_def)
  show "n \<in> set (mq_dirty q) - set (mq_processing q) \<and> set (mq_dirty q') = set (mq_dirty q) - {n}
      \<and> set (mq_processing q') = insert n (set (mq_processing q))"
    using ok ns by (auto simp: mem_queue_ok_def)
  show "mem_place q' m < mem_place q m" if "m \<noteq> n" using ns that by (simp add: mem_place_def)
qed (auto simp: mem_work_queue_def mem_queue_ok_def)

section \<open>The worker of the frontend controller\<close>

text \<open>
  A run of \<^verbatim>\<open>FrontendReconciler.Reconcile\<close> as its single steps: every call on the API is one, and so is the moment the
  closure of the EndpointSlice reads the health cache. What the worker holds at each point.
\<close>

datatype worker =
  Waiting
  | Requested NamespacedName
  | Fetched NamespacedName Frontend
  | ServiceStored NamespacedName Frontend Service
  | CacheRead NamespacedName Frontend Service HealthCache

fun worker_key :: "worker \<Rightarrow> NamespacedName option" where
  "worker_key Waiting = None"
| "worker_key (Requested n) = Some n"
| "worker_key (Fetched n fe) = Some n"
| "worker_key (ServiceStored n fe svc) = Some n"
| "worker_key (CacheRead n fe svc c) = Some n"

text \<open>The next step: what the worker goes on with, or the result of \<^verbatim>\<open>Reconcile\<close>.\<close>

fun worker_step :: "'w kube \<Rightarrow> HealthCache \<Rightarrow> worker \<Rightarrow> 'w \<Rightarrow> (worker + unit result) \<times> 'w" where
  "worker_step k cache Waiting w = (Inl Waiting, w)"
| "worker_step k cache (Requested n) w =
     (case GetFrontend k n w of
        (Inl f, w') \<Rightarrow> (Inr (ignore_not_found k f), w')
      | (Inr fe, w') \<Rightarrow> if fe_Port fe = None then (Inr (Inr ()), w') else (Inl (Fetched n fe), w'))"
| "worker_step k cache (Fetched n fe) w =
     (case CreateOrUpdateService k (new_service fe) (service_mutate k fe) w of
        (Inl f, w') \<Rightarrow> (Inr (Inl f), w')
      | (Inr svc, w') \<Rightarrow> (Inl (ServiceStored n fe svc), w'))"
| "worker_step k cache (ServiceStored n fe svc) w = (Inl (CacheRead n fe svc cache), w)"
| "worker_step k cache (CacheRead n fe svc c) w =
     (case CreateOrUpdateEndpointSlice k (new_endpointslice svc) (endpointslice_mutate k c n fe svc) w of
        (Inl f, w') \<Rightarrow> (Inr (Inl f), w')
      | (Inr _, w') \<Rightarrow> (Inr (Inr ()), w'))"

fun worker_left :: "worker \<Rightarrow> nat" where
  "worker_left Waiting = 0"
| "worker_left (Requested n) = 4"
| "worker_left (Fetched n fe) = 3"
| "worker_left (ServiceStored n fe svc) = 2"
| "worker_left (CacheRead n fe svc c) = 1"

lemma worker_step_left:
  "worker_step k c wk w = (Inl wk', w') \<Longrightarrow> wk \<noteq> Waiting \<Longrightarrow> worker_key wk' = worker_key wk \<and> worker_left wk' < worker_left wk"
  by (cases wk) (auto split: prod.splits sum.splits if_splits)

text \<open>All steps in a row, over a cache that does not change meanwhile.\<close>

function worker_run :: "'w kube \<Rightarrow> HealthCache \<Rightarrow> worker \<Rightarrow> ('w, unit) go" where
  "worker_run k cache wk w =
     (if wk = Waiting then (Inr (), w)
      else case worker_step k cache wk w of
             (Inl wk', w') \<Rightarrow> worker_run k cache wk' w'
           | (Inr res, w') \<Rightarrow> (res, w'))"
  by pat_completeness auto
termination
  by (relation "measure (\<lambda>(k, cache, wk, w). worker_left wk)") (auto dest: worker_step_left [OF sym])

declare worker_run.simps [simp del]

text \<open>
  The steps of the worker are \<^verbatim>\<open>Reconcile\<close>: run one after the other they give the result and the world of
  \<^verbatim>\<open>FrontendReconciler.Reconcile\<close>, on every branch, errors and panics included.
\<close>

theorem worker_runs_Reconcile: "worker_run k cache (Requested n) = Frontend_Reconcile k cache n"
proof
  fix w
  have stored: "worker_run k cache (CacheRead n fe svc c) w = go_bind (CreateOrUpdateEndpointSlice k (new_endpointslice svc)
      (endpointslice_mutate k c n fe svc)) (\<lambda>_. go_return ()) w" for fe svc c w
    by (subst worker_run.simps) (simp add: go_run split: prod.splits sum.splits)
  have read: "worker_run k cache (ServiceStored n fe svc) w = worker_run k cache (CacheRead n fe svc cache) w" for fe svc w
    by (subst worker_run.simps) simp
  have fetched: "fe_Port fe \<noteq> None \<Longrightarrow> worker_run k cache (Fetched n fe) w = ReconcileService k cache n fe w" for fe w
    by (subst worker_run.simps) (auto simp: read stored ReconcileService_def go_run split: prod.splits sum.splits)
  show "worker_run k cache (Requested n) w = Frontend_Reconcile k cache n w"
    by (subst worker_run.simps)
      (auto simp: fetched Frontend_Reconcile_def ReconcileService_def go_run split: prod.splits sum.splits)
qed

section \<open>The system\<close>

text \<open>How far a report of the monitor is: \<^verbatim>\<open>updateHealthManager\<close> lists twice, computes under its lock and sends one by one.\<close>

datatype report_stage =
  NoReport
  | BackendsListed "Backend list"
  | FrontendsListed "Backend list" "Frontend list"
  | Sending "(NamespacedName \<times> Endpoint list) list"

text \<open>
  The state: the monitor with the health manager, the progress of its report, how many of the delivered events the
  channel source has handed on, the work queue of the frontend controller, the keys that wait for a retry
  after a failure, its worker, and the API server with everything else.
\<close>

record ('w, 'q) operator =
  op_sys :: mon_sys
  op_stage :: report_stage
  op_handled :: nat
  op_queue :: 'q
  op_retry :: "NamespacedName list"
  op_worker :: worker
  op_world :: 'w

abbreviation op_hm :: "('w, 'q) operator \<Rightarrow> HealthManager" where
  "op_hm s \<equiv> sys_hm (op_sys s)"

abbreviation op_cache :: "('w, 'q) operator \<Rightarrow> HealthCache" where
  "op_cache s \<equiv> hm_cache (op_hm s)"

abbreviation event_keys :: "('w, 'q) operator \<Rightarrow> NamespacedName list" where
  "event_keys s \<equiv> map (\<lambda>e. fe_key (ge_Object e)) (hm_events (op_hm s))"

abbreviation in_namespace :: "('w, 'q) operator \<Rightarrow> ListOptions" where
  "in_namespace s \<equiv> \<lparr>lo_LabelSelector = None, lo_Namespace = Some (mon_namespace (sys_mon (op_sys s)))\<rparr>"

datatype action = Monitor | Source | Watch NamespacedName | Worker | Retry NamespacedName | Others

text \<open>
  The steps. The monitor moves as in \<open>mon_step\<close>, its report in single steps; the channel source hands an event to
  the queue as the key of its object; a watch adds any key at any time; the worker takes a key and goes through
  \<^verbatim>\<open>Reconcile\<close>; a failed key is added again later; and everything else, the load-balancer controller, the
  peer watcher and the users among it, changes the world as \<open>env\<close> allows. The report and the worker translate the
  program; the rules \<open>source\<close>, \<open>watch\<close>, \<open>takes\<close>, \<open>finish\<close> and \<open>retry\<close> around them state what controller-runtime documents of
  its channel source, its workers and the keys whose \<^verbatim>\<open>Reconcile\<close> returned an error.
\<close>

inductive op_step ::
  "'w kube \<Rightarrow> 'q work_queue \<Rightarrow> ('w \<Rightarrow> 'w \<Rightarrow> bool) \<Rightarrow> action \<Rightarrow> ('w, 'q) operator \<Rightarrow> ('w, 'q) operator \<Rightarrow> bool"
  for k wq env where
  monitor: "mon_step k (op_sys s) m \<Longrightarrow> sys_hm m = op_hm s \<Longrightarrow> (sys_phase (op_sys s) = Updating \<longrightarrow> sys_phase m = Updating) \<Longrightarrow>
    op_step k wq env Monitor s (s\<lparr>op_sys := m\<rparr>)"
| list_backends: "sys_phase (op_sys s) = Updating \<Longrightarrow> op_stage s = NoReport \<Longrightarrow> ListBackends k (in_namespace s) (op_world s) = (Inr bl, w) \<Longrightarrow>
    op_step k wq env Monitor s (s\<lparr>op_stage := BackendsListed (bel_Items bl), op_world := w\<rparr>)"
| list_backends_failed: "sys_phase (op_sys s) = Updating \<Longrightarrow> op_stage s = NoReport \<Longrightarrow> ListBackends k (in_namespace s) (op_world s) = (Inl (Err e), w) \<Longrightarrow>
    op_step k wq env Monitor s (s\<lparr>op_sys := (op_sys s)\<lparr>sys_phase := Idle\<rparr>, op_stage := NoReport, op_world := w\<rparr>)"
| list_frontends: "op_stage s = BackendsListed bes \<Longrightarrow> ListFrontends k (in_namespace s) (op_world s) = (Inr fl, w) \<Longrightarrow>
    op_step k wq env Monitor s (s\<lparr>op_stage := FrontendsListed bes (fel_Items fl), op_world := w\<rparr>)"
| list_frontends_failed: "op_stage s = BackendsListed bes \<Longrightarrow> ListFrontends k (in_namespace s) (op_world s) = (Inl (Err e), w) \<Longrightarrow>
    op_step k wq env Monitor s (s\<lparr>op_sys := (op_sys s)\<lparr>sys_phase := Idle\<rparr>, op_stage := NoReport, op_world := w\<rparr>)"
| consolidate: "op_stage s = FrontendsListed bes fes \<Longrightarrow> orders_ok ord \<Longrightarrow>
    op_step k wq env Monitor s (s\<lparr>op_stage := Sending (ord_frontends ord (frontendEndpointStates k ord (sys_mon (op_sys s)) bes fes))\<rparr>)"
| send: "op_stage s = Sending ((n, eps) # rest) \<Longrightarrow>
    op_step k wq env Monitor s (s\<lparr>op_sys := (op_sys s)\<lparr>sys_hm := HealthManager_Update ready (op_hm s) n eps\<rparr>, op_stage := Sending rest\<rparr>)"
| sent: "op_stage s = Sending [] \<Longrightarrow>
    op_step k wq env Monitor s (s\<lparr>op_sys := (op_sys s)\<lparr>sys_phase := Idle\<rparr>, op_stage := NoReport\<rparr>)"
| source: "op_handled s < length (event_keys s) \<Longrightarrow>
    op_step k wq env Source s (s\<lparr>op_queue := wq_add wq (event_keys s ! op_handled s) (op_queue s), op_handled := Suc (op_handled s)\<rparr>)"
| watch: "op_step k wq env (Watch n) s (s\<lparr>op_queue := wq_add wq n (op_queue s)\<rparr>)"
| takes: "op_worker s = Waiting \<Longrightarrow> wq_get wq (op_queue s) = Some (n, q) \<Longrightarrow>
    op_step k wq env Worker s (s\<lparr>op_worker := Requested n, op_queue := q\<rparr>)"
| work: "op_worker s \<noteq> Waiting \<Longrightarrow> worker_step k (op_cache s) (op_worker s) (op_world s) = (Inl wk, w) \<Longrightarrow>
    op_step k wq env Worker s (s\<lparr>op_worker := wk, op_world := w\<rparr>)"
| finish: "worker_key (op_worker s) = Some n \<Longrightarrow> worker_step k (op_cache s) (op_worker s) (op_world s) = (Inr res, w) \<Longrightarrow>
    op_step k wq env Worker s (s\<lparr>op_worker := Waiting, op_world := w, op_queue := wq_done wq n (op_queue s),
      op_retry := (case res of Inl _ \<Rightarrow> n # op_retry s | Inr _ \<Rightarrow> op_retry s)\<rparr>)"
| retry: "n \<in> set (op_retry s) \<Longrightarrow>
    op_step k wq env (Retry n) s (s\<lparr>op_retry := remove1 n (op_retry s), op_queue := wq_add wq n (op_queue s)\<rparr>)"
| others: "env (op_world s) w \<Longrightarrow> op_step k wq env Others s (s\<lparr>op_world := w\<rparr>)"

inductive_cases op_stepE: "op_step k wq env a s t"

definition op_init :: "'w kube \<Rightarrow> ('q \<Rightarrow> bool) \<Rightarrow> ('w, 'q) operator \<Rightarrow> bool" where
  "op_init k empty_queue s \<longleftrightarrow> mon_init k (op_sys s) \<and> op_stage s = NoReport \<and> op_handled s = 0 \<and> empty_queue (op_queue s)
     \<and> op_retry s = [] \<and> op_worker s = Waiting"

subsection \<open>The report in single steps\<close>

text \<open>With the receiver as it is at each send, the single steps make the report of \<^verbatim>\<open>updateHealthManager\<close>.\<close>

lemma sends:
  "op_stage s = Sending b \<Longrightarrow>
     (op_step k wq env Monitor)\<^sup>*\<^sup>* s (s\<lparr>op_sys := (op_sys s)\<lparr>sys_hm := report_loop ready (op_hm s) b, sys_phase := Idle\<rparr>, op_stage := NoReport\<rparr>)"
proof (induction b arbitrary: s)
  case Nil
  then have "op_step k wq env Monitor s (s\<lparr>op_sys := (op_sys s)\<lparr>sys_phase := Idle\<rparr>, op_stage := NoReport\<rparr>)" by (rule sent)
  then show ?case by (simp add: r_into_rtranclp)
next
  case (Cons x b)
  obtain n eps where x: "x = (n, eps)" by (cases x)
  let ?t = "s\<lparr>op_sys := (op_sys s)\<lparr>sys_hm := HealthManager_Update (ready n) (op_hm s) n eps\<rparr>, op_stage := Sending b\<rparr>"
  have "op_step k wq env Monitor s ?t" using Cons.prems x by (intro send) simp
  moreover from Cons.IH [of ?t]
  have "(op_step k wq env Monitor)\<^sup>*\<^sup>* ?t (s\<lparr>op_sys := (op_sys s)\<lparr>sys_hm := report_loop ready (op_hm s) (x # b), sys_phase := Idle\<rparr>, op_stage := NoReport\<rparr>)"
    by (simp add: x)
  ultimately show ?case by (rule converse_rtranclp_into_rtranclp)
qed

text \<open>
  A whole report is a run of its single steps: what \<^verbatim>\<open>updateHealthManager\<close> makes of the health manager and of the
  world, on success and when a list fails, is reached by the steps of the system, which end with the
  monitor idle; so everything said of the finer system covers the report as one call.
\<close>

theorem report_in_steps:
  assumes "sys_phase (op_sys s) = Updating" and "op_stage s = NoReport" and "orders_ok ord"
    and "updateHealthManager k ord ready (sys_mon (op_sys s)) (op_hm s) (op_world s) = (res, w')" and "\<forall>p. res \<noteq> Inl (Panic p)"
  shows "(op_step k wq env Monitor)\<^sup>*\<^sup>* s (s\<lparr>op_sys := (op_sys s)\<lparr>sys_hm := (case res of Inl _ \<Rightarrow> op_hm s | Inr hm \<Rightarrow> hm), sys_phase := Idle\<rparr>,
    op_stage := NoReport, op_world := w'\<rparr>)"
proof -
  let ?final = "s\<lparr>op_sys := (op_sys s)\<lparr>sys_hm := (case res of Inl _ \<Rightarrow> op_hm s | Inr hm \<Rightarrow> hm), sys_phase := Idle\<rparr>,
    op_stage := NoReport, op_world := w'\<rparr>"
  obtain o1 w1 where bl: "ListBackends k (in_namespace s) (op_world s) = (o1, w1)" by fastforce
  show ?thesis
  proof (cases o1)
    case (Inl f)
    then obtain e where "f = Err e" "res = Inl (Err (Wrapped ''failed to list backend CRDs'' e))" "w' = w1"
      using assms(4,5) bl by (auto simp: updateHealthManager_def split: fault.splits)
    with list_backends_failed [OF assms(1,2)] bl Inl assms(2) show ?thesis by (auto intro!: r_into_rtranclp)
  next
    case (Inr bes)
    let ?s1 = "s\<lparr>op_stage := BackendsListed (bel_Items bes), op_world := w1\<rparr>"
    have s1: "op_step k wq env Monitor s ?s1" using list_backends [OF assms(1,2)] bl Inr by simp
    obtain o2 w2 where fl: "ListFrontends k (in_namespace s) w1 = (o2, w2)" by fastforce
    show ?thesis
    proof (cases o2)
      case (Inl f)
      then obtain e where "f = Err e" "res = Inl (Err (Wrapped ''failed to list frontend CRDs'' e))" "w' = w2"
        using assms(4,5) bl Inr fl by (auto simp: updateHealthManager_def split: fault.splits)
      then have "op_step k wq env Monitor ?s1 ?final"
        using list_frontends_failed [of ?s1 "bel_Items bes" k e w2 wq env] fl Inl assms(2) by simp
      with s1 show ?thesis by (meson converse_rtranclp_into_rtranclp r_into_rtranclp)
    next
      case (Inr fes)
      let ?b = "ord_frontends ord (frontendEndpointStates k ord (sys_mon (op_sys s)) (bel_Items bes) (fel_Items fes))"
      let ?s2 = "s\<lparr>op_stage := FrontendsListed (bel_Items bes) (fel_Items fes), op_world := w2\<rparr>"
      let ?s3 = "s\<lparr>op_stage := Sending ?b, op_world := w2\<rparr>"
      have "op_step k wq env Monitor ?s1 ?s2"
        using list_frontends [of ?s1 "bel_Items bes" k fes w2 wq env] fl Inr by simp
      moreover have "op_step k wq env Monitor ?s2 ?s3"
        using consolidate [of ?s2 "bel_Items bes" "fel_Items fes" ord k wq env] assms(3) by (cases s) simp
      moreover have "res = Inr (report_loop ready (op_hm s) ?b)" "w' = w2"
        using assms(4) bl \<open>o1 = Inr bes\<close> fl Inr by (auto simp: updateHealthManager_def)
      then have "(op_step k wq env Monitor)\<^sup>*\<^sup>* ?s3 ?final" using sends [of ?s3 ?b k wq env ready] by (cases s) simp
      ultimately show ?thesis using s1 by (meson converse_rtranclp_into_rtranclp)
    qed
  qed
qed

definition idle_queue :: mem_queue where
  "idle_queue = \<lparr>mq_queue = [], mq_dirty = [], mq_processing = []\<rparr>"

text \<open>A state about to report \<^const>\<open>served_mon\<close>, and the state \<^verbatim>\<open>main\<close> starts from.\<close>

definition reporting :: "(cluster, mem_queue) operator" where
  "reporting = \<lparr>op_sys = \<lparr>sys_mon = served_mon, sys_hm = NewHealthManager NewHealthCache, sys_phase = Updating\<rparr>, op_stage = NoReport,
     op_handled = 0, op_queue = idle_queue, op_retry = [], op_worker = Waiting, op_world = served_cluster\<rparr>"

theorem report_in_steps_witness:
  "\<exists>hm'. updateHealthManager mem_kube plain_orders (\<lambda>_. True) served_mon (NewHealthManager NewHealthCache) served_cluster = (Inr hm', served_cluster)
     \<and> (op_step mem_kube mem_work_queue (=) Monitor)\<^sup>*\<^sup>* reporting (reporting\<lparr>op_sys := \<lparr>sys_mon = served_mon, sys_hm = hm', sys_phase = Idle\<rparr>\<rparr>)"
proof -
  obtain hm' where report: "updateHealthManager mem_kube plain_orders (\<lambda>_. True) served_mon (NewHealthManager NewHealthCache) served_cluster = (Inr hm', served_cluster)"
    using updateHealthManager_run [OF served_lists] by blast
  then have "(op_step mem_kube mem_work_queue (=) Monitor)\<^sup>*\<^sup>* reporting (reporting\<lparr>op_sys := \<lparr>sys_mon = served_mon, sys_hm = hm', sys_phase = Idle\<rparr>\<rparr>)"
    using report_in_steps [of reporting plain_orders mem_kube "\<lambda>_. True" "Inr hm'" served_cluster mem_work_queue "(=)"] plain_orders_ok
    by (simp add: reporting_def)
  with report show ?thesis by blast
qed

section \<open>What the steps rely on, and the invariant\<close>

text \<open>
  The API as the frontend controller uses it: stored Services and EndpointSlices carry their keys, reading and storing
  other kinds leaves the EndpointSlices, and storing one leaves the others.
\<close>

locale frontend_api =
  fixes k :: "'w kube"
    and svcs :: "'w \<Rightarrow> NamespacedName \<rightharpoonup> Service"
    and slices :: "'w \<Rightarrow> NamespacedName \<rightharpoonup> EndpointSlice"
  assumes svc_doc: "create_or_update_doc (CreateOrUpdateService k) svcs svc_key svc_payload"
    and es_doc: "create_or_update_doc (CreateOrUpdateEndpointSlice k) slices es_key es_payload"
    and keyed: "svcs w n = Some svc \<Longrightarrow> svc_key svc = n"
    and get_key: "GetFrontend k n w = (Inr fe, w') \<Longrightarrow> fe_key fe = n"
    and slices_kept: "v \<in> {snd (GetFrontend k n w), snd (ListBackends k opts w), snd (ListFrontends k opts w),
      snd (CreateOrUpdateService k svc mut w)} \<Longrightarrow> slices v = slices w"
    and es_frame: "m \<noteq> es_key es \<Longrightarrow> slices (snd (CreateOrUpdateEndpointSlice k es mut' w)) m = slices w m"

interpretation mem_api: frontend_api mem_kube mem_services mem_slices
proof unfold_locales
  show "create_or_update_doc (CreateOrUpdateService mem_kube) mem_services svc_key svc_payload" by (rule mem_service_doc)
  show "create_or_update_doc (CreateOrUpdateEndpointSlice mem_kube) mem_slices es_key es_payload" by (rule mem_slice_doc)
  show "svc_key svc = n" if "mem_services w n = Some svc" for w n svc using that lookup_key by metis
  show "fe_key fe = n" if "GetFrontend mem_kube n w = (Inr fe, w')" for n w fe w'
    using that lookup_key [of fe_key "cl_frontends w" n fe] by (auto simp: mem_kube_sel mem_get_def split: option.splits)
  show "mem_slices v = mem_slices w" if "v \<in> {snd (GetFrontend mem_kube n w), snd (ListBackends mem_kube opts w),
      snd (ListFrontends mem_kube opts w), snd (CreateOrUpdateService mem_kube svc mut w)}" for v n w opts svc mut
    using that unfolding mem_kube_def
    by (auto simp: mem_get_def mem_list_frontends_def mem_list_backends_def mem_create_or_update_def
        split: option.splits sum.splits if_splits)
  show "mem_slices (snd (CreateOrUpdateEndpointSlice mem_kube es mut' w)) m = mem_slices w m" if "m \<noteq> es_key es" for m es mut' w
    using that unfolding mem_kube_def by (auto simp: mem_create_or_update_def lookup_store split: sum.splits)
qed

fun worker_ok :: "worker \<Rightarrow> bool" where
  "worker_ok (Fetched n fe) \<longleftrightarrow> fe_key fe = n"
| "worker_ok (ServiceStored n fe svc) \<longleftrightarrow> svc_key svc = n"
| "worker_ok (CacheRead n fe svc c) \<longleftrightarrow> svc_key svc = n"
| "worker_ok _ \<longleftrightarrow> True"

definition op_inv :: "('q \<Rightarrow> bool) \<Rightarrow> ('q \<Rightarrow> NamespacedName set) \<Rightarrow> ('w, 'q) operator \<Rightarrow> bool" where
  "op_inv queue_ok processing s \<longleftrightarrow> sys_inv (op_sys s) \<and> (op_stage s \<noteq> NoReport \<longrightarrow> sys_phase (op_sys s) = Updating)
     \<and> op_handled s \<le> length (event_keys s) \<and> queue_ok (op_queue s)
     \<and> processing (op_queue s) = set_option (worker_key (op_worker s)) \<and> worker_ok (op_worker s)"

lemma new_keys: "svc_key (new_service fe) = fe_key fe" "es_key (new_endpointslice svc) = svc_key svc"
  by (simp_all add: new_service_def new_endpointslice_def svc_key_def es_key_def meta_key_def)

context frontend_api
begin

lemma worker_step_ok:
  assumes "worker_step k c wk w = (Inl wk', w')" and "worker_ok wk"
  shows "worker_ok wk'"
proof (cases wk)
  case (Fetched n fe)
  then obtain svc where svc: "CreateOrUpdateService k (new_service fe) (service_mutate k fe) w = (Inr svc, w')"
    "wk' = ServiceStored n fe svc"
    using assms(1) by (auto split: prod.splits sum.splits)
  from svc_doc svc(1) have "svcs w' (svc_key (new_service fe)) = Some svc" by (rule create_or_update_docD)
  then show ?thesis using keyed svc(2) Fetched assms(2) by (simp add: new_keys)
next
  case (Requested n)
  then show ?thesis using assms by (auto simp: get_key split: prod.splits sum.splits if_splits)
next
  case (CacheRead n fe svc c')
  then show ?thesis using assms(1) by (auto split: prod.splits sum.splits)
qed (use assms in auto)

lemma worker_step_slices:
  assumes "worker_step k c wk w = (res, w')" and "worker_ok wk" and "\<forall>fe svc c'. wk \<noteq> CacheRead m fe svc c'"
  shows "slices w' m = slices w m"
proof (cases wk)
  case (Requested n)
  then have "w' = snd (GetFrontend k n w)" using assms(1) by (auto split: prod.splits sum.splits if_splits)
  then show ?thesis using slices_kept [of w' n w] by simp
next
  case (Fetched n fe)
  then have "w' = snd (CreateOrUpdateService k (new_service fe) (service_mutate k fe) w)"
    using assms(1) by (auto split: prod.splits sum.splits)
  then show ?thesis using slices_kept [of w' _ w _ "new_service fe" "service_mutate k fe"] by simp
next
  case (CacheRead n' fe svc c')
  then have "w' = snd (CreateOrUpdateEndpointSlice k (new_endpointslice svc) (endpointslice_mutate k c' n' fe svc) w)"
    using assms(1) by (auto split: prod.splits sum.splits)
  then show ?thesis using es_frame [of m "new_endpointslice svc" "endpointslice_mutate k c' n' fe svc" w] assms(2,3) CacheRead
    by (auto simp: new_keys)
qed (use assms in auto)

lemma worker_step_publishes:
  assumes "worker_step k c (CacheRead n fe svc c') w = (Inr (Inr ()), w')" and "svc_key svc = n"
  shows "\<exists>es. slices w' n = Some es \<and> es_Endpoints es = map slice_endpoint (HealthCache_Get c' n)"
proof -
  obtain es where "CreateOrUpdateEndpointSlice k (new_endpointslice svc) (endpointslice_mutate k c' n fe svc) w = (Inr es, w')"
    using assms(1) by (auto split: prod.splits sum.splits)
  from es_doc this obtain m where m: "endpointslice_mutate k c' n fe svc (fetched slices es_key w (new_endpointslice svc)) = Inr m"
    "es_payload es = es_payload m" "slices w' (es_key (new_endpointslice svc)) = Some es" by (rule create_or_update_docD)
  then show ?thesis using endpointslice_mutate_payload [OF m(1)] assms(2) by (auto simp: new_keys es_payload_def)
qed

end

text \<open>The whole: the API, the queue, and an environment that leaves the EndpointSlices alone.\<close>

locale operator_parts = frontend_api k svcs slices + work_queue_docs wq queue_ok waiting processing place
  for k :: "'w kube"
    and svcs :: "'w \<Rightarrow> NamespacedName \<rightharpoonup> Service"
    and slices :: "'w \<Rightarrow> NamespacedName \<rightharpoonup> EndpointSlice"
    and wq :: "'q work_queue"
    and queue_ok :: "'q \<Rightarrow> bool"
    and waiting :: "'q \<Rightarrow> NamespacedName set"
    and processing :: "'q \<Rightarrow> NamespacedName set"
    and place :: "'q \<Rightarrow> NamespacedName \<Rightarrow> nat" +
  fixes env :: "'w \<Rightarrow> 'w \<Rightarrow> bool"
  assumes env_slices: "env w w' \<Longrightarrow> slices w' = slices w"
begin

lemma op_step_inv: "op_inv queue_ok processing s \<Longrightarrow> op_step k wq env a s t \<Longrightarrow> op_inv queue_ok processing t"
proof (erule op_stepE)
  fix m
  assume "op_inv queue_ok processing s" "t = s\<lparr>op_sys := m\<rparr>" "mon_step k (op_sys s) m" "sys_hm m = op_hm s"
    "sys_phase (op_sys s) = Updating \<longrightarrow> sys_phase m = Updating"
  then show "op_inv queue_ok processing t" using mon_step_inv [of "op_sys s" k m] by (auto simp: op_inv_def)
next
  fix wk w
  assume "op_inv queue_ok processing s" "t = s\<lparr>op_worker := wk, op_world := w\<rparr>" "op_worker s \<noteq> Waiting"
    "worker_step k (op_cache s) (op_worker s) (op_world s) = (Inl wk, w)"
  then show "op_inv queue_ok processing t"
    using worker_step_ok [of "op_cache s" "op_worker s" "op_world s" wk w] worker_step_left [of k "op_cache s" "op_worker s" "op_world s" wk w]
    by (auto simp: op_inv_def)
next
  fix n eps rest ready
  assume "op_inv queue_ok processing s" "op_stage s = Sending ((n, eps) # rest)"
    "t = s\<lparr>op_sys := (op_sys s)\<lparr>sys_hm := HealthManager_Update ready (op_hm s) n eps\<rparr>, op_stage := Sending rest\<rparr>"
  then show "op_inv queue_ok processing t" by (auto simp: op_inv_def sys_inv_def pending_ok_def Manager_events)
next
  fix n q
  assume "op_inv queue_ok processing s" "t = s\<lparr>op_worker := Requested n, op_queue := q\<rparr>" "op_worker s = Waiting"
    "wq_get wq (op_queue s) = Some (n, q)"
  then show "op_inv queue_ok processing t"
    using get_ok [of "op_queue s" n q] get_sets [of "op_queue s" n q] by (simp add: op_inv_def)
qed (auto simp: op_inv_def sys_inv_def pending_ok_def add_ok add_sets done_ok done_sets)

end

sublocale operator_parts < system: invariant_system
  "op_init k (\<lambda>q. queue_ok q \<and> processing q = {})" "\<lambda>s t. \<exists>a. op_step k wq env a s t" "op_inv queue_ok processing"
proof unfold_locales
  show "op_inv queue_ok processing s" if "op_init k (\<lambda>q. queue_ok q \<and> processing q = {}) s" for s
    using that mon_init_inv [of k "op_sys s"] by (auto simp: op_init_def op_inv_def)
  show "op_inv queue_ok processing t" if "op_inv queue_ok processing s" "\<exists>a. op_step k wq env a s t" for s t
    using that op_step_inv by blast
qed

context operator_parts
begin

lemma reached: "reach (op_init k (\<lambda>q. queue_ok q \<and> processing q = {})) (\<lambda>s t. \<exists>a. op_step k wq env a s t) s \<Longrightarrow> op_inv queue_ok processing s"
  by (rule system.reach_inv)

end

end
