(* ===== verification/Operator_Env.thy ===== *)
theory Operator_Env
  imports Operator_System
begin

text \<open>
  The load-balancer controller and the peer watcher beside the running operator: what their calls do to the world,
  as a relation kept by every call they are made of. From this: claims on frontends are permanent over every run,
  and the invariant of the running operator.
\<close>

section \<open>What a computation does to the world\<close>

text \<open>A relation between the worlds before and after, kept by every call a computation is made of.\<close>

definition go_rel :: "('w \<Rightarrow> 'w \<Rightarrow> bool) \<Rightarrow> ('w, 'a) go \<Rightarrow> bool" where
  "go_rel R m \<longleftrightarrow> (\<forall>w. R w (snd (m w)))"

lemma go_relD: "go_rel R m \<Longrightarrow> m w = (res, w') \<Longrightarrow> R w w'"
  unfolding go_rel_def by (metis snd_conv)

locale world_relation =
  fixes R :: "'w \<Rightarrow> 'w \<Rightarrow> bool"
  assumes rel_refl: "R w w" and rel_trans: "R u v \<Longrightarrow> R v w \<Longrightarrow> R u w"
begin

lemma rel_return: "go_rel R (go_return x)" "go_rel R (go_fail e)" "go_rel R (go_lift r)"
  by (simp_all add: go_rel_def rel_refl go_lift_def)

lemma rel_bind:
  assumes "go_rel R m" and "\<And>x. go_rel R (f x)"
  shows "go_rel R (go_bind m f)"
  unfolding go_rel_def
proof
  fix w
  obtain res w' where m: "m w = (res, w')" by fastforce
  then have "R w w'" using assms(1) by (rule go_relD [rotated])
  moreover have "R w' (snd (f x w'))" for x using assms(2) by (simp add: go_rel_def)
  ultimately show "R w (snd (go_bind m f w))" using m rel_trans by (cases res) (auto simp: go_bind_def)
qed

text \<open>The load-balancer controller, from the calls it makes.\<close>

lemma rel_getFrontends: "(\<And>opts. go_rel R (ListFrontends k opts)) \<Longrightarrow> go_rel R (getFrontends k lb onlyOwned)"
  by (auto simp: getFrontends_def intro!: rel_bind rel_return split: sum.splits)

lemma rel_getBackends_loop: "(\<And>opts. go_rel R (ListBackends k opts)) \<Longrightarrow> go_rel R (getBackends_loop k m fes)"
  by (induction fes arbitrary: m) (auto intro!: rel_bind rel_return split: sum.splits)

lemma rel_run_writes: "(\<And>fe. go_rel R (UpdateFrontendStatus k fe)) \<Longrightarrow> go_rel R (run_writes k ws)"
proof (induction ws)
  case (Cons fe ws)
  have "R w (snd (run_writes k (fe # ws) w))" for w
  proof -
    obtain res w' where up: "UpdateFrontendStatus k fe w = (res, w')" by fastforce
    then have "R w w'" using Cons.prems by (rule go_relD [rotated])
    moreover have "R w' (snd (run_writes k ws w'))" using Cons by (simp add: go_rel_def)
    ultimately show ?thesis using up rel_trans by (auto split: sum.splits fault.splits)
  qed
  then show ?case by (simp add: go_rel_def)
qed (simp add: go_rel_def rel_refl)

lemma rel_ReconcileFrontends:
  assumes "\<And>opts. go_rel R (ListFrontends k opts)" and "\<And>fe. go_rel R (UpdateFrontendStatus k fe)"
  shows "go_rel R (ReconcileFrontends k r lb)"
  unfolding go_rel_def
proof
  fix w
  obtain res w1 where get: "getFrontends k lb False w = (res, w1)" by fastforce
  then have "R w w1" using rel_getFrontends [OF assms(1)] by (auto dest: go_relD)
  moreover have "R w1 (snd (run_writes k ws w1))" for ws using rel_run_writes [OF assms(2)] by (simp add: go_rel_def)
  ultimately show "R w (snd (ReconcileFrontends k r lb w))"
    using get by (auto simp: ReconcileFrontends_run split: sum.splits intro: rel_trans)
qed

lemma rel_GLB_Reconcile:
  assumes "\<And>n. go_rel R (GetLoadBalancer k n)" and "\<And>opts. go_rel R (ListFrontends k opts)" and "\<And>opts. go_rel R (ListBackends k opts)"
    and "\<And>ss mut. go_rel R (CreateOrUpdateStatefulSet k ss mut)" and "\<And>cm mut. go_rel R (CreateOrUpdateConfigMap k cm mut)"
    and "\<And>lb. go_rel R (ReconcileFrontends k r lb)"
  shows "go_rel R (GLB_Reconcile k ord r req)"
  unfolding go_rel_def
proof
  fix w
  have cfg: "go_rel R (ReconcileConfig k ord lb)" for lb
    by (auto simp: ReconcileConfig_def getBackends_def
        intro!: rel_bind rel_return rel_getFrontends rel_getBackends_loop assms)
  have "go_rel R (go_bind (EnsureHAProxyStatefulSet k lb) (\<lambda>_. go_bind (ReconcileFrontends k r lb) (\<lambda>_.
      go_bind (ReconcileConfig k ord lb) (\<lambda>_. go_return ()))))" for lb
    by (auto simp: EnsureHAProxyStatefulSet_def intro!: rel_bind rel_return assms cfg)
  moreover obtain res w' where "GetLoadBalancer k req w = (res, w')" "R w w'" using assms(1) [of req] by (meson go_relD surj_pair)
  ultimately show "R w (snd (GLB_Reconcile k ord r req w))"
    by (auto simp: GLB_Reconcile_def go_rel_def intro: rel_trans split: sum.splits)
qed

text \<open>The peer watcher.\<close>

lemma rel_peer_handle:
  assumes "\<And>n. go_rel R (CacheGetPeer k n)" and "\<And>p. go_rel R (CreatePeer k p)" and "\<And>p. go_rel R (UpdatePeerStatus k p)"
  shows "go_rel R (peer_handle k pw ev)"
proof -
  have up: "R w (snd (peer_status_update k svc p w))" for svc p w
    using assms(3) by (auto simp: peer_status_update_def Let_def dest: go_relD split: prod.splits sum.splits fault.splits)
  have "R w (snd (onAdd k svc w))" for svc w
  proof -
    obtain res w1 where get: "CacheGetPeer k (service_key svc) w = (res, w1)" by fastforce
    obtain res' w2 where new: "CreatePeer k (new_peer svc) w1 = (res', w2)" by fastforce
    have "R w w1" "R w1 w2" using get new assms(1,2) by (auto dest: go_relD)
    then show ?thesis using get new up
      by (auto simp: onAdd_def intro: rel_trans split: sum.splits fault.splits)
  qed
  then show ?thesis
    by (cases ev) (auto simp: go_rel_def service_filter_def service_filterUpdate_def onUpdate_def onDelete_def rel_refl split: any.splits)
qed

end

section \<open>The rest of the operator\<close>

text \<open>
  What changes the world beside the frontend controller and the monitor: a reconcile of the load-balancer controller,
  for any load balancer, a callback of the peer watcher, and whatever users and other programs do.
\<close>

definition other_components :: "'w kube \<Rightarrow> ('w \<Rightarrow> 'w \<Rightarrow> bool) \<Rightarrow> 'w \<Rightarrow> 'w \<Rightarrow> bool" where
  "other_components k users w w' \<longleftrightarrow> (\<exists>ord r req. range_order ord \<and> w' = snd (GLB_Reconcile k ord r req w))
     \<or> (\<exists>pw ev. w' = snd (peer_handle k pw ev w)) \<or> users w w'"

interpretation same: world_relation "\<lambda>w w'. V w' = V w" for V
  by unfold_locales simp_all

abbreviation keeps :: "('w \<Rightarrow> 'v) \<Rightarrow> ('w, 'a) go \<Rightarrow> bool" where
  "keeps V m \<equiv> go_rel (\<lambda>w w'. V w' = V w) m"

text \<open>None of these calls stores EndpointSlices, so they are as \<open>operator_parts\<close> wants its environment.\<close>

lemma other_components_keep:
  assumes "\<And>n. keeps V (GetLoadBalancer k n)" "\<And>opts. keeps V (ListFrontends k opts)" "\<And>opts. keeps V (ListBackends k opts)"
      "\<And>ss mut. keeps V (CreateOrUpdateStatefulSet k ss mut)" "\<And>cm mut. keeps V (CreateOrUpdateConfigMap k cm mut)"
      "\<And>fe. keeps V (UpdateFrontendStatus k fe)" "\<And>n. keeps V (CacheGetPeer k n)" "\<And>p. keeps V (CreatePeer k p)"
      "\<And>p. keeps V (UpdatePeerStatus k p)"
    and users: "\<And>w w'. users w w' \<Longrightarrow> V w' = V w"
  shows "other_components k users w w' \<Longrightarrow> V w' = V w"
proof -
  have "keeps V (GLB_Reconcile k ord r req)" for ord r req
    by (intro same.rel_GLB_Reconcile same.rel_ReconcileFrontends assms)
  moreover have "keeps V (peer_handle k pw ev)" for pw ev by (intro same.rel_peer_handle assms)
  ultimately show "other_components k users w w' \<Longrightarrow> V w' = V w"
    using users by (auto simp: other_components_def go_rel_def)
qed

section \<open>Claims are permanent\<close>

text \<open>
  Every stored frontend stays, as the same object, with the owner and the port it has, or it is deleted. Objects are told
  apart by their UID, which is never used again: \<open>gone\<close> is those of the deleted ones.
\<close>

abbreviation fe_UID :: "Frontend \<Rightarrow> string" where
  "fe_UID fe \<equiv> om_UID (fe_ObjectMeta fe)"

definition claim_kept :: "Frontend \<Rightarrow> Frontend \<Rightarrow> bool" where
  "claim_kept old new \<longleftrightarrow> fe_UID new = fe_UID old \<and> (fe_Owner old \<noteq> None \<longrightarrow> fe_Owner new = fe_Owner old)
     \<and> (fe_Port old \<noteq> None \<longrightarrow> fe_Port new = fe_Port old)"

definition claims_kept :: "('w \<Rightarrow> NamespacedName \<rightharpoonup> Frontend) \<Rightarrow> ('w \<Rightarrow> string set) \<Rightarrow> 'w \<Rightarrow> 'w \<Rightarrow> bool" where
  "claims_kept frontends gone w w' \<longleftrightarrow> gone w \<subseteq> gone w' \<and> (\<forall>n old. frontends w n = Some old \<longrightarrow>
     fe_UID old \<in> gone w' \<or> (\<exists>new. frontends w' n = Some new \<and> claim_kept old new))"

lemma claim_kept_refl: "claim_kept fe fe"
  by (simp add: claim_kept_def)

lemma claim_kept_trans: "claim_kept fe fe' \<Longrightarrow> claim_kept fe' fe'' \<Longrightarrow> claim_kept fe fe''"
  by (auto simp: claim_kept_def)

interpretation claims: world_relation "claims_kept frontends gone" for frontends gone
proof unfold_locales
  fix frontends :: "'w \<Rightarrow> NamespacedName \<rightharpoonup> Frontend" and gone u v w
  show "claims_kept frontends gone w w" by (auto simp: claims_kept_def claim_kept_refl)
  assume uv: "claims_kept frontends gone u v" and vw: "claims_kept frontends gone v w"
  show "claims_kept frontends gone u w"
    unfolding claims_kept_def
  proof (intro conjI allI impI)
    show "gone u \<subseteq> gone w" using uv vw by (auto simp: claims_kept_def)
    fix n old
    assume "frontends u n = Some old"
    then consider "fe_UID old \<in> gone v" | mid where "frontends v n = Some mid" "claim_kept old mid"
      using uv unfolding claims_kept_def by blast
    then show "fe_UID old \<in> gone w \<or> (\<exists>new. frontends w n = Some new \<and> claim_kept old new)"
    proof cases
      case 1
      then show ?thesis using vw by (auto simp: claims_kept_def)
    next
      case (2 mid)
      then have "fe_UID mid = fe_UID old" by (simp add: claim_kept_def)
      then show ?thesis using vw 2 claim_kept_trans unfolding claims_kept_def by metis
    qed
  qed
qed

lemma assign_keeps: "claim_kept fe (with_version v (fe\<lparr>fe_Status := fe_Status (fst (assign_frontend lb p fe))\<rparr>))"
  by (auto simp: claim_kept_def assign_facts split: option.splits)

text \<open>
  The API as far as frontends are concerned: only the update of their status changes them, and no call deletes one. A
  stored object is not among the deleted ones.
\<close>

definition objects :: "('w \<Rightarrow> NamespacedName \<rightharpoonup> Frontend) \<Rightarrow> ('w \<Rightarrow> string set) \<Rightarrow> 'w \<Rightarrow> (NamespacedName \<rightharpoonup> Frontend) \<times> string set" where
  "objects frontends gone w = (frontends w, gone w)"

locale frontend_store =
  fixes k :: "'w kube" and frontends :: "'w \<Rightarrow> NamespacedName \<rightharpoonup> Frontend" and gone :: "'w \<Rightarrow> string set"
  assumes lists: "list_frontends_doc k frontends" and updates: "status_update_doc k frontends"
    and alive: "frontends w n = Some fe \<Longrightarrow> fe_UID fe \<notin> gone w"
    and update_deletes_none: "keeps gone (UpdateFrontendStatus k fe)"
    and kept: "keeps (objects frontends gone) (GetLoadBalancer k n)" "keeps (objects frontends gone) (GetFrontend k n)"
      "keeps (objects frontends gone) (ListFrontends k opts)" "keeps (objects frontends gone) (ListBackends k opts)"
      "keeps (objects frontends gone) (CreateOrUpdateStatefulSet k ss ss_mut)" "keeps (objects frontends gone) (CreateOrUpdateConfigMap k cm cm_mut)"
      "keeps (objects frontends gone) (CreateOrUpdateService k svc svc_mut)" "keeps (objects frontends gone) (CreateOrUpdateEndpointSlice k es es_mut)"
      "keeps (objects frontends gone) (CacheGetPeer k n)" "keeps (objects frontends gone) (CreatePeer k p)"
      "keeps (objects frontends gone) (UpdatePeerStatus k p)"
begin

lemma kept_claims: "objects frontends gone v = objects frontends gone w \<Longrightarrow> claims_kept frontends gone w v"
  by (auto simp: claims_kept_def claim_kept_refl objects_def)

lemma keeps_claims: "keeps (objects frontends gone) m \<Longrightarrow> go_rel (claims_kept frontends gone) m"
  by (simp add: go_rel_def kept_claims)

lemma claims_ReconcileFrontends: "go_rel (claims_kept frontends gone) (ReconcileFrontends k r lb)"
proof -
  have "keeps gone (ListFrontends k opts)" for opts using kept(3) [of opts] by (simp add: go_rel_def objects_def)
  then have "keeps gone (ReconcileFrontends k r lb)" by (intro same.rel_ReconcileFrontends update_deletes_none)
  moreover have "\<exists>new. frontends (snd (ReconcileFrontends k r lb w)) n = Some new \<and> claim_kept old new"
    if old: "frontends w n = Some old" for w n old
    using ReconcileFrontends_step [OF lists updates prod.collapse [symmetric] old, of r lb] by (auto simp: claim_kept_refl assign_keeps)
  ultimately show ?thesis by (auto simp: go_rel_def claims_kept_def)
qed

lemma claims_components:
  assumes "\<And>w w'. users w w' \<Longrightarrow> claims_kept frontends gone w w'"
  shows "other_components k users w w' \<Longrightarrow> claims_kept frontends gone w w'"
proof -
  have "go_rel (claims_kept frontends gone) (GLB_Reconcile k ord r req)" for ord r req
    by (intro claims.rel_GLB_Reconcile claims_ReconcileFrontends keeps_claims kept)
  moreover have "go_rel (claims_kept frontends gone) (peer_handle k pw ev)" for pw ev
    by (intro claims.rel_peer_handle keeps_claims kept)
  ultimately show "other_components k users w w' \<Longrightarrow> claims_kept frontends gone w w'"
    using assms by (auto simp: other_components_def go_rel_def)
qed

lemma claims_worker: "worker_step k c wk w = (res, w') \<Longrightarrow> objects frontends gone w' = objects frontends gone w"
  by (cases wk) (auto dest!: kept(2,7,8) [THEN go_relD] split: prod.splits sum.splits if_splits)

lemma claims_step:
  assumes env: "\<And>w w'. env w w' \<Longrightarrow> claims_kept frontends gone w w'" and "op_step k wq env a s t"
  shows "claims_kept frontends gone (op_world s) (op_world t)"
  using assms(2)
proof cases
  case (others w)
  then show ?thesis using env by simp
qed (auto intro!: kept_claims dest: kept(3,4) [THEN go_relD] claims_worker)

end

lemma mem_get_keeps: "keeps V (mem_get key objs n)"
  by (simp add: go_rel_def mem_get_def split: option.splits)

lemma mem_create_or_update_keeps:
  assumes "\<And>xs w. V (set_objs xs w) = V w"
  shows "keeps V (mem_create_or_update key objs set_objs obj mut)"
  using assms by (auto simp: go_rel_def mem_create_or_update_def split: sum.splits)

lemma mem_peers_keep:
  assumes "\<And>w xs. V (w\<lparr>cl_peers := xs\<rparr>) = V w"
  shows "keeps V (mem_create_peer p)" "keeps V (mem_update_peer p)"
  using assms by (auto simp: go_rel_def mem_create_peer_def mem_update_peer_def Let_def split: option.splits)

lemma mem_lists_keep: "keeps V (mem_list_frontends opts)" "keeps V (mem_list_backends opts)"
  by (simp_all add: go_rel_def mem_list_frontends_def mem_list_backends_def)

lemma mem_update_frontend_keeps:
  assumes "\<And>w xs. V (w\<lparr>cl_frontends := xs\<rparr>) = V w"
  shows "keeps V (mem_update_frontend fe)"
  using assms by (auto simp: go_rel_def mem_update_frontend_def Let_def split: option.splits)

lemmas mem_keeps = mem_get_keeps mem_create_or_update_keeps mem_peers_keep mem_lists_keep

interpretation mem_store: frontend_store mem_kube mem_frontends "\<lambda>_. {}"
proof unfold_locales
  show "list_frontends_doc mem_kube mem_frontends" by (rule mem_list_frontends_doc)
  show "status_update_doc mem_kube mem_frontends" by (rule mem_status_update)
  show "keeps (\<lambda>_. {}) (UpdateFrontendStatus mem_kube fe)" for fe by (simp add: go_rel_def)
qed (simp_all add: mem_kube_def mem_keeps objects_def)

text \<open>
  C5: claims are permanent. Over any run of the whole operator, with any interleaving of the monitor, the frontend
  controller, reconciles of any load balancers (one at a time, each a step), successful or not, and the peer
  watcher, while users create, edit and delete frontends and load balancers, a frontend keeps the load balancer
  that owns it and the port it was given until it is deleted itself; two load balancers never take a frontend from
  each other, and it keeps its owner even when that load balancer is gone. Users and other programs are only
  assumed not to undo claims themselves.
\<close>

theorem claims_permanent:
  assumes "frontend_store k frontends gone" and "\<forall>w w'. users w w' \<longrightarrow> claims_kept frontends gone w w'"
    and "(\<lambda>s t. \<exists>a. op_step k wq (other_components k users) a s t)\<^sup>*\<^sup>* s t"
    and "frontends (op_world s) n = Some old"
  shows "fe_UID old \<in> gone (op_world t) \<and> \<not> (\<exists>m new. frontends (op_world t) m = Some new \<and> fe_UID new = fe_UID old)
    \<or> (\<exists>new. frontends (op_world t) n = Some new \<and> fe_UID new = fe_UID old
        \<and> (fe_Owner old \<noteq> None \<longrightarrow> fe_Owner new = fe_Owner old) \<and> (fe_Port old \<noteq> None \<longrightarrow> fe_Port new = fe_Port old))"
proof -
  have env: "claims_kept frontends gone w w'" if "other_components k users w w'" for w w'
    by (rule frontend_store.claims_components [OF assms(1) _ that]) (use assms(2) in simp)
  from assms(3) have "claims_kept frontends gone (op_world s) (op_world t)"
  proof (induction rule: rtranclp_induct)
    case base
    show ?case by (rule claims.rel_refl)
  next
    case (step t u)
    then obtain a where "op_step k wq (other_components k users) a t u" by blast
    from frontend_store.claims_step [OF assms(1) env this] show ?case by (rule claims.rel_trans [OF step.IH])
  qed
  then show ?thesis
    using assms(4) frontend_store.alive [OF assms(1), of "op_world t"] unfolding claims_kept_def claim_kept_def by metis
qed

theorem claims_permanent_witness:
  "\<exists>s new. mem_frontends (op_world s) (NN ''glb'' ''web'') = Some new \<and> fe_Port new = Some 10240
     \<and> op_step mem_kube mem_work_queue (other_components mem_kube (=)) Others (reporting\<lparr>op_world := sample_cluster\<lparr>cl_frontends := [claimed_frontend ''web'']\<rparr>\<rparr>) s"
proof -
  let ?w = "sample_cluster\<lparr>cl_frontends := [claimed_frontend ''web'']\<rparr>"
  let ?s = "reporting\<lparr>op_world := ?w\<rparr>" and ?t = "reporting\<lparr>op_world := snd (GLB_Reconcile mem_kube id sample_reconciler sample_req ?w)\<rparr>"
  have "other_components mem_kube (=) (op_world ?s) (op_world ?t)"
    unfolding other_components_def by (rule disjI1, rule exI [of _ id]) (auto simp: range_order_id)
  then have step: "op_step mem_kube mem_work_queue (other_components mem_kube (=)) Others ?s ?t"
    using others [of "other_components mem_kube (=)" ?s "op_world ?t" mem_kube mem_work_queue] by simp
  have old: "mem_frontends (op_world ?s) (NN ''glb'' ''web'') = Some (claimed_frontend ''web'')" by (simp add: lookup_def)
  have port: "fe_Port (claimed_frontend ''web'') = Some 10240" by (simp add: claimed_frontend_def)
  have users: "\<forall>w w' :: cluster. w = w' \<longrightarrow> claims_kept mem_frontends (\<lambda>_. {}) w w'" by (simp add: claims.rel_refl)
  have "(\<lambda>s t. \<exists>a. op_step mem_kube mem_work_queue (other_components mem_kube (=)) a s t)\<^sup>*\<^sup>* ?s ?t" using step by blast
  from claims_permanent [OF mem_store.frontend_store_axioms users this old] port
  have "\<exists>new. mem_frontends (op_world ?t) (NN ''glb'' ''web'') = Some new \<and> fe_Port new = Some 10240" by auto
  with step show ?thesis by blast
qed

section \<open>The invariant of the operator\<close>

abbreviation no_users :: "cluster \<Rightarrow> cluster \<Rightarrow> bool" where
  "no_users \<equiv> \<lambda>w w'. w' = w"

interpretation mem_operator: operator_parts mem_kube mem_services mem_slices mem_work_queue mem_queue_ok
  "\<lambda>q. set (mq_dirty q)" "\<lambda>q. set (mq_processing q)" mem_place "other_components mem_kube no_users"
proof unfold_locales
  show "mem_slices w' = mem_slices w" if "other_components mem_kube no_users w w'" for w w'
    by (rule other_components_keep [OF _ _ _ _ _ _ _ _ _ _ that]) (simp_all add: mem_kube_def mem_keeps mem_update_frontend_keeps)
qed

text \<open>
  C27: the invariant of the running operator. From the state \<^verbatim>\<open>main\<close> builds, in every state any interleaving reaches, the
  monitor keeps its invariant; a report is under way only while the monitor is in that phase; the source
  never runs ahead of the delivered events; the key in process is exactly the one the worker has; and
  what the worker holds belongs to that key, so it stores the Service and the EndpointSlice of the
  frontend it was asked for and of no other.
\<close>

theorem operator_invariant:
  assumes "operator_parts k svcs slices wq queue_ok waiting processing place env"
    and "reach (op_init k (\<lambda>q. queue_ok q \<and> processing q = {})) (\<lambda>s t. \<exists>a. op_step k wq env a s t) s"
  shows "pods_ok (sys_mon (op_sys s)) \<and> targets_ok (sys_mon (op_sys s)) \<and> states_wf (mon_endpointStates (sys_mon (op_sys s)))
    \<and> (op_stage s \<noteq> NoReport \<longrightarrow> sys_phase (op_sys s) = Updating) \<and> op_handled s \<le> length (event_keys s)
    \<and> processing (op_queue s) = set_option (worker_key (op_worker s))
    \<and> (\<forall>n fe. op_worker s = Fetched n fe \<longrightarrow> svc_key (new_service fe) = n)
    \<and> (\<forall>n fe svc c. op_worker s \<in> {ServiceStored n fe svc, CacheRead n fe svc c} \<longrightarrow> es_key (new_endpointslice svc) = n)"
  using operator_parts.reached [OF assms] by (auto simp: op_inv_def sys_inv_def new_keys)

abbreviation web :: NamespacedName where
  "web \<equiv> NN ''glb'' ''web''"

definition starting :: "(cluster, mem_queue) operator" where
  "starting = \<lparr>op_sys = run_sys [] [] [] Idle, op_stage = NoReport, op_handled = 0, op_queue = idle_queue, op_retry = [],
     op_worker = Waiting, op_world = served_cluster\<rparr>"

theorem operator_invariant_witness:
  "\<exists>s. reach (op_init mem_kube (\<lambda>q. mem_queue_ok q \<and> set (mq_processing q) = {}))
      (\<lambda>s t. \<exists>a. op_step mem_kube mem_work_queue (other_components mem_kube no_users) a s t) s
     \<and> op_worker s = Requested web \<and> set (mq_processing (op_queue s)) = {web}"
proof -
  let ?step = "\<lambda>s t. \<exists>a. op_step mem_kube mem_work_queue (other_components mem_kube no_users) a s t"
  let ?reach = "reach (op_init mem_kube (\<lambda>q. mem_queue_ok q \<and> set (mq_processing q) = {})) ?step"
  let ?s1 = "starting\<lparr>op_queue := wq_add mem_work_queue web (op_queue starting)\<rparr>"
  obtain q where get: "wq_get mem_work_queue (op_queue ?s1) = Some (web, q)"
    by (simp add: starting_def idle_queue_def mem_work_queue_def)
  let ?s2 = "?s1\<lparr>op_worker := Requested web, op_queue := q\<rparr>"
  have "?reach starting"
    by (rule reach_init) (simp add: op_init_def starting_def run_init idle_queue_def mem_queue_ok_def)
  moreover have "?step starting ?s1" using watch [of mem_kube mem_work_queue _ web starting] by blast
  moreover have "?step ?s1 ?s2" using takes [OF _ get] by (auto simp: starting_def)
  ultimately have reached: "?reach ?s2" by (blast intro: reach_step)
  from operator_invariant [OF mem_operator.operator_parts_axioms this]
  have "set (mq_processing (op_queue ?s2)) = set_option (worker_key (op_worker ?s2))" by blast
  with reached show ?thesis by (intro exI [of _ ?s2]) simp
qed

end
