(* ===== verification/Operator_Liveness.thy ===== *)
theory Operator_Liveness
  imports Operator_Env
begin

text \<open>
  Health that is announced is published: on every fair run, once an event for a frontend is delivered and its health
  stays the same, its EndpointSlice lists it from some point on. An eager scheduler and a run of it show that
  fair runs exist.
\<close>

section \<open>Published health\<close>

text \<open>
  What can happen to a run of the worker for a frontend: it fails, and the key is tried again; or there is nothing to
  publish, because the frontend is gone or has no port.
\<close>

definition op_fails :: "'w kube \<Rightarrow> NamespacedName \<Rightarrow> ('w, 'q) operator \<Rightarrow> bool" where
  "op_fails k n s \<longleftrightarrow> worker_key (op_worker s) = Some n
     \<and> (\<exists>f w. worker_step k (op_cache s) (op_worker s) (op_world s) = (Inr (Inl f), w))"

definition op_skips :: "'w kube \<Rightarrow> NamespacedName \<Rightarrow> ('w, 'q) operator \<Rightarrow> bool" where
  "op_skips k n s \<longleftrightarrow> op_worker s = Requested n
     \<and> (\<exists>w. worker_step k (op_cache s) (op_worker s) (op_world s) = (Inr (Inr ()), w))"

text \<open>
  The EndpointSlice of a frontend lists the endpoints \<open>eps\<close>, and no run under way will store others; or such a run is
  owed: an event is delivered, the key waits or is to be tried again, or the worker has it and will use \<open>eps\<close>.
\<close>

definition slice_shows :: "('w \<Rightarrow> NamespacedName \<rightharpoonup> EndpointSlice) \<Rightarrow> NamespacedName \<Rightarrow> Endpoint list \<Rightarrow> 'w \<Rightarrow> bool" where
  "slice_shows slices n eps w \<longleftrightarrow> (\<exists>es. slices w n = Some es \<and> es_Endpoints es = map slice_endpoint eps)"

definition published ::
  "('w \<Rightarrow> NamespacedName \<rightharpoonup> EndpointSlice) \<Rightarrow> NamespacedName \<Rightarrow> Endpoint list \<Rightarrow> ('w, 'q) operator \<Rightarrow> bool" where
  "published slices n eps s \<longleftrightarrow> slice_shows slices n eps (op_world s)
     \<and> (\<forall>fe svc c. op_worker s = CacheRead n fe svc c \<longrightarrow> HealthCache_Get c n = eps)"

definition at_work :: "NamespacedName \<Rightarrow> Endpoint list \<Rightarrow> ('w, 'q) operator \<Rightarrow> bool" where
  "at_work n eps s \<longleftrightarrow> worker_key (op_worker s) = Some n
     \<and> (\<forall>fe svc c. op_worker s = CacheRead n fe svc c \<longrightarrow> HealthCache_Get c n = eps)"

definition announced :: "NamespacedName \<Rightarrow> ('w, 'q) operator \<Rightarrow> bool" where
  "announced n s \<longleftrightarrow> n \<in> set (drop (op_handled s) (event_keys s))"

definition owed :: "('q \<Rightarrow> NamespacedName set) \<Rightarrow> NamespacedName \<Rightarrow> Endpoint list \<Rightarrow> ('w, 'q) operator \<Rightarrow> bool" where
  "owed waiting n eps s \<longleftrightarrow> announced n s \<or> n \<in> waiting (op_queue s) \<or> n \<in> set (op_retry s) \<or> at_work n eps s"

lemma announced_source:
  assumes "announced n s" and "t = s\<lparr>op_queue := q, op_handled := Suc (op_handled s)\<rparr>" and "event_keys s ! op_handled s \<noteq> n"
    and "op_handled s < length (event_keys s)"
  shows "announced n t"
proof -
  have "drop (op_handled s) (event_keys s) = event_keys s ! op_handled s # drop (Suc (op_handled s)) (event_keys s)"
    by (rule Cons_nth_drop_Suc [OF assms(4), symmetric])
  then show ?thesis using assms(1-3) by (auto simp: announced_def)
qed

context operator_parts
begin

lemma other_step:
  assumes "op_step k wq env a s t" and "a \<noteq> Worker"
  shows "op_worker t = op_worker s \<and> slices (op_world t) = slices (op_world s)"
  using assms(1)
proof cases
  case (list_backends bl w)
  then show ?thesis using slices_kept [of w _ "op_world s" "in_namespace s"] by simp
next
  case (list_backends_failed e w)
  then show ?thesis using slices_kept [of w _ "op_world s" "in_namespace s"] by simp
next
  case (list_frontends bes fl w)
  then show ?thesis using slices_kept [of w _ "op_world s" "in_namespace s"] by simp
next
  case (list_frontends_failed bes e w)
  then show ?thesis using slices_kept [of w _ "op_world s" "in_namespace s"] by simp
next
  case (others w)
  then show ?thesis using env_slices by simp
qed (use assms(2) in simp_all)

lemma slices_of_step:
  assumes "op_inv queue_ok processing s" and "op_step k wq env a s t" and "\<forall>fe svc c. op_worker s \<noteq> CacheRead n fe svc c"
  shows "slices (op_world t) n = slices (op_world s) n"
proof (cases "a = Worker")
  case True
  show ?thesis using assms(2)
  proof cases
    case (work wk w)
    then show ?thesis using worker_step_slices [OF work(4)] assms(1,3) by (simp add: op_inv_def)
  next
    case (finish m res w)
    then show ?thesis using worker_step_slices [OF finish(4)] assms(1,3) by (simp add: op_inv_def)
  qed (use True in simp_all)
qed (use other_step [OF assms(2)] in simp)

end

context operator_parts
begin

text \<open>The worker alone: while it has a key its steps stay with it, and its last step publishes, fails or skips.\<close>

lemma at_work_step:
  assumes inv: "op_inv queue_ok processing s" and step: "op_step k wq env a s t" and at: "at_work n eps s"
    and cache: "HealthCache_Get (op_cache s) n = eps" and skip: "\<not> op_skips k n s"
  shows "at_work n eps t \<and> worker_left (op_worker t) \<le> worker_left (op_worker s)
      \<and> (a = Worker \<longrightarrow> worker_left (op_worker t) < worker_left (op_worker s))
    \<or> published slices n eps t \<or> op_fails k n s \<and> n \<in> set (op_retry t)"
  using step
proof cases
  case (work wk w)
  have key: "worker_key wk = Some n" "worker_left wk < worker_left (op_worker s)"
    using worker_step_left [OF work(4,3)] at by (auto simp: at_work_def)
  moreover have "HealthCache_Get c n = eps" if "wk = CacheRead n fe svc c" for fe svc c
    using work(4) at cache that by (cases "op_worker s") (auto simp: at_work_def split: prod.splits sum.splits if_splits)
  ultimately show ?thesis using work by (auto simp: at_work_def)
next
  case (finish m res w)
  have m: "m = n" using finish(3) at by (simp add: at_work_def)
  show ?thesis
  proof (cases res)
    case (Inl f)
    then show ?thesis using finish m by (auto simp: op_fails_def)
  next
    case (Inr u)
    then have "\<exists>fe svc c. op_worker s = CacheRead n fe svc c"
      using finish(3,4) m skip by (cases "op_worker s") (auto simp: op_skips_def split: prod.splits sum.splits if_splits)
    then obtain fe svc c where c: "op_worker s = CacheRead n fe svc c" by blast
    have "svc_key svc = n" "HealthCache_Get c n = eps" using c inv at by (auto simp: op_inv_def at_work_def)
    then have "slice_shows slices n eps w"
      using worker_step_publishes [of "op_cache s" n fe svc c "op_world s" w] finish(4) Inr c by (auto simp: slice_shows_def)
    then show ?thesis using finish by (simp add: published_def)
  qed
qed (use at in \<open>auto simp: at_work_def\<close>)

text \<open>An owed run stays owed until it has published, and what is published stays or is owed again after a failure.\<close>

lemma owed_step:
  assumes inv: "op_inv queue_ok processing s" and step: "op_step k wq env a s t" and owed: "owed waiting n eps s"
    and cache: "HealthCache_Get (op_cache s) n = eps" and skip: "\<not> op_skips k n s"
  shows "owed waiting n eps t \<or> published slices n eps t"
proof -
  have q: "queue_ok (op_queue s)" "processing (op_queue s) = set_option (worker_key (op_worker s))"
    using inv by (simp_all add: op_inv_def)
  from owed consider "at_work n eps s" | "announced n s" | "n \<in> waiting (op_queue s)" | "n \<in> set (op_retry s)"
    by (auto simp: owed_def)
  then show ?thesis
  proof cases
    case 1
    then show ?thesis using at_work_step [OF inv step 1 cache skip] by (auto simp: owed_def)
  next
    case 2
    show ?thesis using step
    proof cases
      case source
      then show ?thesis using announced_source [OF 2 source(2)] add_sets [OF q(1)] by (cases "event_keys s ! op_handled s = n") (auto simp: owed_def)
    next
      case (send m eps' rest ready)
      then show ?thesis using 2 by (auto simp: owed_def announced_def Manager_events)
    qed (use 2 in \<open>auto simp: owed_def announced_def\<close>)
  next
    case 3
    show ?thesis using step
    proof cases
      case (takes m q')
      then show ?thesis using get_sets [OF q(1) takes(4)] 3 by (auto simp: owed_def at_work_def)
    next
      case (finish m res w)
      then show ?thesis using done_sets [OF q(1), of m] q(2) 3 by (auto simp: owed_def)
    qed (use 3 q add_sets in \<open>auto simp: owed_def\<close>)
  next
    case 4
    show ?thesis using step
    proof cases
      case (retry m)
      then show ?thesis using add_sets [OF q(1)] 4 by (cases "m = n") (auto simp: owed_def)
    qed (use 4 in \<open>auto simp: owed_def split: sum.splits\<close>)
  qed
qed

lemma published_step:
  assumes inv: "op_inv queue_ok processing s" and step: "op_step k wq env a s t" and pub: "published slices n eps s"
    and cache: "HealthCache_Get (op_cache s) n = eps"
  shows "published slices n eps t \<or> op_fails k n s \<and> n \<in> set (op_retry t)"
proof (cases "a = Worker \<and> (\<exists>fe svc c. op_worker s = CacheRead n fe svc c)")
  case True
  then have at: "at_work n eps s" "\<not> op_skips k n s" and last: "worker_left (op_worker s) = 1"
    using pub by (auto simp: at_work_def published_def op_skips_def)
  have "worker_left (op_worker t) \<noteq> 0" if "at_work n eps t" using that by (cases "op_worker t") (auto simp: at_work_def)
  with at_work_step [OF inv step at(1) cache at(2)] last True show ?thesis by auto
next
  case False
  then have same: "slices (op_world t) n = slices (op_world s) n"
    using slices_of_step [OF inv step] other_step [OF step] by (cases "a = Worker") auto
  have "HealthCache_Get c n = eps" if "op_worker t = CacheRead n fe svc c" for fe svc c
  proof (cases "a = Worker")
    case True
    show ?thesis using step
    proof cases
      case (work wk w)
      then show ?thesis using that cache \<open>\<not> (a = Worker \<and> _)\<close> True
        by (cases "op_worker s") (auto split: prod.splits sum.splits if_splits)
    qed (use that True in auto)
  next
    case False
    then show ?thesis using other_step [OF step] that pub by (metis published_def)
  qed
  with same show ?thesis using pub by (auto simp: published_def slice_shows_def)
qed

end

text \<open>Which actions are possible when.\<close>

lemma worker_enabled:
  assumes "op_worker s \<noteq> Waiting \<or> wq_get wq (op_queue s) \<noteq> None"
  shows "enabled (op_step k wq env) Worker s"
proof (cases "op_worker s = Waiting")
  case True
  with assms obtain n q where "wq_get wq (op_queue s) = Some (n, q)" by auto
  from takes [OF True this] show ?thesis by (auto simp: enabled_def)
next
  case False
  then obtain n where n: "worker_key (op_worker s) = Some n" by (cases "op_worker s") auto
  obtain r w where r: "worker_step k (op_cache s) (op_worker s) (op_world s) = (r, w)" by fastforce
  show ?thesis
  proof (cases r)
    case (Inl wk)
    then show ?thesis using work [OF False, of k wk w wq env] r by (auto simp: enabled_def)
  next
    case (Inr res)
    then show ?thesis using finish [OF n, of k res w wq env] r by (auto simp: enabled_def)
  qed
qed

lemma source_enabled: "op_handled s < length (event_keys s) \<Longrightarrow> enabled (op_step k wq env) Source s"
  using source unfolding enabled_def by blast

lemma retry_enabled: "n \<in> set (op_retry s) \<Longrightarrow> enabled (op_step k wq env) (Retry n) s"
  using retry unfolding enabled_def by blast

text \<open>An infinite run from a state with the invariant in which the source, the worker and the retries of a key are fair.\<close>

definition fair_operator ::
  "'w kube \<Rightarrow> 'q work_queue \<Rightarrow> ('w \<Rightarrow> 'w \<Rightarrow> bool) \<Rightarrow> NamespacedName \<Rightarrow> (nat \<Rightarrow> action) \<Rightarrow> (nat \<Rightarrow> ('w, 'q) operator) \<Rightarrow> bool" where
  "fair_operator k wq env n ls \<sigma> \<longleftrightarrow> labelled_run (op_step k wq env) ls \<sigma>
     \<and> (\<forall>a \<in> {Source, Worker, Retry n}. weakly_fair (op_step k wq env) ls \<sigma> a)"

context operator_parts
begin

lemma events_step:
  assumes "op_step k wq env a s t"
  shows "(\<exists>es. event_keys t = event_keys s @ es) \<and> (a = Source \<or> op_handled t = op_handled s)
    \<and> (a = Source \<longrightarrow> op_handled t = Suc (op_handled s) \<and> op_queue t = wq_add wq (event_keys s ! op_handled s) (op_queue s))"
  using assms by cases (auto simp: Manager_events)

lemma retry_step:
  assumes "op_inv queue_ok processing s" and "op_step k wq env a s t" and "n \<in> set (op_retry s)"
  shows "n \<in> set (op_retry t) \<and> a \<noteq> Retry n \<or> n \<in> waiting (op_queue t)"
  using assms(2)
proof cases
  case (retry m)
  then show ?thesis using add_sets [of "op_queue s" m] assms(1,3) by (cases "m = n") (auto simp: op_inv_def)
qed (use assms(3) in \<open>auto split: sum.splits\<close>)

text \<open>A waiting key that the worker does not have keeps its place, or comes forward, until the worker takes it.\<close>

lemma waiting_step:
  assumes "op_inv queue_ok processing s" and "op_step k wq env a s t" and "n \<in> waiting (op_queue s)"
  shows "n \<in> waiting (op_queue t) \<or> a = Worker \<and> op_worker s = Waiting"
  using assms(2)
proof cases
  case (takes m q)
  then show ?thesis using get_sets [of "op_queue s" m q] assms(1,3) by (auto simp: op_inv_def)
next
  case (finish m res w)
  then show ?thesis using done_sets [of "op_queue s" m] assms(1,3) by (auto simp: op_inv_def)
qed (use assms add_sets in \<open>auto simp: op_inv_def\<close>)

abbreviation ahead :: "NamespacedName \<Rightarrow> ('w, 'q) operator \<Rightarrow> nat" where
  "ahead n s \<equiv> 6 * place (op_queue s) n + worker_left (op_worker s)"

lemma ahead_step:
  assumes inv: "op_inv queue_ok processing s" and step: "op_step k wq env a s t" and n: "n \<in> waiting (op_queue s)"
    and free: "worker_key (op_worker s) \<noteq> Some n"
  shows "n \<in> waiting (op_queue t) \<and> worker_key (op_worker t) \<noteq> Some n \<and> ahead n t \<le> ahead n s
      \<and> (a = Worker \<longrightarrow> ahead n t < ahead n s)
    \<or> op_worker t = Requested n"
proof -
  have q: "queue_ok (op_queue s)" "processing (op_queue s) = set_option (worker_key (op_worker s))" "n \<notin> processing (op_queue s)"
    using inv free by (auto simp: op_inv_def)
  show ?thesis using step
  proof cases
    case (takes m q')
    show ?thesis
    proof (cases "m = n")
      case False
      then have "place q' n < place (op_queue s) n" "n \<in> waiting q'"
        using get_place [OF q(1) takes(4) n q(3)] get_sets [OF q(1) takes(4)] n by auto
      then show ?thesis using takes False by simp
    qed (use takes in simp)
  next
    case (work wk w)
    then show ?thesis using worker_step_left [OF work(4,3)] n free by simp
  next
    case (finish m res w)
    then have "worker_left (op_worker s) > 0" by (cases "op_worker s") auto
    then show ?thesis using finish done_sets [OF q(1), of m] done_place [OF q(1) n q(3)] q(2) n by auto
  qed (use n free q add_sets [OF q(1)] add_place [OF q(1) n q(3)] in auto)
qed

end

locale operator_run = operator_parts +
  fixes ls \<sigma> n
  assumes fair: "fair_operator k wq env n ls \<sigma>" and start: "op_inv queue_ok processing (\<sigma> 0)"
begin

lemma run: "op_step k wq env (ls i) (\<sigma> i) (\<sigma> (Suc i))"
  using fair by (auto simp: fair_operator_def labelled_run_def)

lemma wf: "a \<in> {Source, Worker, Retry n} \<Longrightarrow> weakly_fair (op_step k wq env) ls \<sigma> a"
  using fair by (auto simp: fair_operator_def)

lemma inv: "op_inv queue_ok processing (\<sigma> i)"
  by (induction i) (use start run op_step_inv in blast)+

lemma retry_progress: "n \<in> set (op_retry (\<sigma> i)) \<Longrightarrow> \<exists>j \<ge> i. n \<in> waiting (op_queue (\<sigma> j))"
proof (rule progress [where a = "Retry n" and \<mu> = "\<lambda>_. 0" and P = "\<lambda>j. n \<in> set (op_retry (\<sigma> j))"])
  show "weakly_fair (op_step k wq env) ls \<sigma> (Retry n)" using wf by simp
qed (use retry_step [OF inv run] retry_enabled in blast)+

lemma source_progress:
  assumes "announced n (\<sigma> i)"
  shows "\<exists>j \<ge> i. n \<in> waiting (op_queue (\<sigma> j))"
proof -
  from assms obtain d where d: "d < length (drop (op_handled (\<sigma> i)) (event_keys (\<sigma> i)))"
    "drop (op_handled (\<sigma> i)) (event_keys (\<sigma> i)) ! d = n"
    by (auto simp: announced_def in_set_conv_nth simp del: length_drop)
  define p where "p = op_handled (\<sigma> i) + d"
  let ?P = "\<lambda>j. op_handled (\<sigma> j) \<le> p \<and> p < length (event_keys (\<sigma> j)) \<and> event_keys (\<sigma> j) ! p = n"
  let ?\<mu> = "\<lambda>j. p - op_handled (\<sigma> j)"
  have p: "?P i" using d unfolding p_def by (simp del: nth_map)
  have step: "?P (Suc j) \<and> ?\<mu> (Suc j) \<le> ?\<mu> j \<and> (ls j = Source \<longrightarrow> ?\<mu> (Suc j) < ?\<mu> j) \<or> n \<in> waiting (op_queue (\<sigma> (Suc j)))"
    if P: "?P j" for j
  proof -
    note ev = events_step [OF run [of j]]
    obtain es where "event_keys (\<sigma> (Suc j)) = event_keys (\<sigma> j) @ es" using ev by blast
    then have keep: "p < length (event_keys (\<sigma> (Suc j))) \<and> event_keys (\<sigma> (Suc j)) ! p = n"
      using P by (simp add: nth_append del: nth_map)
    show ?thesis
    proof (cases "ls j = Source \<and> op_handled (\<sigma> j) = p")
      case True
      then have "op_queue (\<sigma> (Suc j)) = wq_add wq n (op_queue (\<sigma> j))" using ev P by (simp del: nth_map)
      then show ?thesis using add_sets [of "op_queue (\<sigma> j)" n] inv [of j] by (simp add: op_inv_def)
    next
      case False
      then show ?thesis using ev P keep by (cases "ls j = Source") auto
    qed
  qed
  show ?thesis
  proof (rule progress [where a = Source and \<mu> = ?\<mu> and P = ?P])
    show "weakly_fair (op_step k wq env) ls \<sigma> Source" using wf by simp
    show "enabled (op_step k wq env) Source (\<sigma> j)" if "?P j" for j
      using that by (intro source_enabled) simp
  qed (use step p in blast)+
qed

end

context operator_run
begin

lemma worker_possible:
  assumes "n \<in> waiting (op_queue (\<sigma> j)) \<or> worker_key (op_worker (\<sigma> j)) \<noteq> None"
  shows "enabled (op_step k wq env) Worker (\<sigma> j)"
proof (rule worker_enabled)
  have "op_worker (\<sigma> j) = Waiting \<Longrightarrow> processing (op_queue (\<sigma> j)) = {}" "queue_ok (op_queue (\<sigma> j))"
    using inv [of j] by (auto simp: op_inv_def)
  then show "op_worker (\<sigma> j) \<noteq> Waiting \<or> wq_get wq (op_queue (\<sigma> j)) \<noteq> None"
    using assms get_none [of "op_queue (\<sigma> j)"] by auto
qed

text \<open>A waiting key is taken: first the worker finishes with the key, if it has it, then with those in front of it.\<close>

lemma free_progress:
  assumes "n \<in> waiting (op_queue (\<sigma> i))"
  shows "\<exists>j \<ge> i. n \<in> waiting (op_queue (\<sigma> j)) \<and> worker_key (op_worker (\<sigma> j)) \<noteq> Some n"
proof (cases "worker_key (op_worker (\<sigma> i)) = Some n")
  case True
  let ?P = "\<lambda>j. n \<in> waiting (op_queue (\<sigma> j)) \<and> worker_key (op_worker (\<sigma> j)) = Some n"
  let ?Q = "\<lambda>j. n \<in> waiting (op_queue (\<sigma> j)) \<and> worker_key (op_worker (\<sigma> j)) \<noteq> Some n"
  have step: "?P (Suc j) \<and> worker_left (op_worker (\<sigma> (Suc j))) \<le> worker_left (op_worker (\<sigma> j))
      \<and> (ls j = Worker \<longrightarrow> worker_left (op_worker (\<sigma> (Suc j))) < worker_left (op_worker (\<sigma> j))) \<or> ?Q (Suc j)" if P: "?P j" for j
  proof (cases "ls j = Worker")
    case True
    from run [of j] show ?thesis
    proof cases
      case (work wk w)
      then show ?thesis using worker_step_left [OF work(4,3)] P by simp
    next
      case (finish m res w)
      then show ?thesis using done_sets [of "op_queue (\<sigma> j)" m] inv [of j] P by (simp add: op_inv_def)
    qed (use True P in simp_all)
  next
    case False
    then have "op_worker (\<sigma> (Suc j)) = op_worker (\<sigma> j)" using other_step [OF run] by blast
    then show ?thesis using waiting_step [OF inv run, of n j] P False by auto
  qed
  show ?thesis
  proof (rule progress [where a = Worker and \<mu> = "\<lambda>j. worker_left (op_worker (\<sigma> j))" and P = ?P])
    show "weakly_fair (op_step k wq env) ls \<sigma> Worker" using wf by simp
    show "enabled (op_step k wq env) Worker (\<sigma> j)" if "?P j" for j using worker_possible that by blast
  qed (use step True assms in blast)+
qed (use assms in blast)

lemma take_progress:
  assumes "n \<in> waiting (op_queue (\<sigma> i))"
  shows "\<exists>j \<ge> i. op_worker (\<sigma> j) = Requested n"
proof -
  let ?P = "\<lambda>j. n \<in> waiting (op_queue (\<sigma> j)) \<and> worker_key (op_worker (\<sigma> j)) \<noteq> Some n"
  from free_progress [OF assms] obtain m where m: "i \<le> m" "?P m" by blast
  have "\<exists>j \<ge> m. op_worker (\<sigma> j) = Requested n"
  proof (rule progress [where a = Worker and \<mu> = "\<lambda>j. ahead n (\<sigma> j)" and P = ?P])
    show "weakly_fair (op_step k wq env) ls \<sigma> Worker" using wf by simp
    show "enabled (op_step k wq env) Worker (\<sigma> j)" if "?P j" for j using worker_possible that by blast
  qed (use ahead_step [OF inv run] m in blast)+
  then show ?thesis using m(1) order_trans by blast
qed

lemma work_progress:
  assumes at: "at_work n eps (\<sigma> i)" and cache: "\<And>j. i \<le> j \<Longrightarrow> HealthCache_Get (op_cache (\<sigma> j)) n = eps"
    and "\<And>j. i \<le> j \<Longrightarrow> \<not> op_skips k n (\<sigma> j)" and "\<And>j. i \<le> j \<Longrightarrow> \<not> op_fails k n (\<sigma> j)"
  shows "\<exists>j \<ge> i. published slices n eps (\<sigma> j)"
proof (rule progress [where a = Worker and \<mu> = "\<lambda>j. worker_left (op_worker (\<sigma> j))" and P = "\<lambda>j. at_work n eps (\<sigma> j)"])
  show "weakly_fair (op_step k wq env) ls \<sigma> Worker" using wf by simp
  show "enabled (op_step k wq env) Worker (\<sigma> j)" if "at_work n eps (\<sigma> j)" for j
    using worker_possible [of j] that by (simp add: at_work_def)
  fix j
  assume j: "i \<le> j" "at_work n eps (\<sigma> j)"
  note step = at_work_step [OF inv run j(2) cache [OF j(1)] assms(3) [OF j(1)]] assms(4) [OF j(1)]
  show "at_work n eps (\<sigma> (Suc j)) \<and> worker_left (op_worker (\<sigma> (Suc j))) \<le> worker_left (op_worker (\<sigma> j)) \<or> published slices n eps (\<sigma> (Suc j))"
    using step by blast
  show "worker_left (op_worker (\<sigma> (Suc j))) < worker_left (op_worker (\<sigma> j)) \<or> published slices n eps (\<sigma> (Suc j))" if "ls j = Worker"
    using step that by blast
qed (rule at)

lemma owed_progress:
  assumes owed: "owed waiting n eps (\<sigma> i)" and cache: "\<And>j. i \<le> j \<Longrightarrow> HealthCache_Get (op_cache (\<sigma> j)) n = eps"
    and skip: "\<And>j. i \<le> j \<Longrightarrow> \<not> op_skips k n (\<sigma> j)" and fail: "\<And>j. i \<le> j \<Longrightarrow> \<not> op_fails k n (\<sigma> j)"
  shows "\<exists>j \<ge> i. published slices n eps (\<sigma> j)"
proof -
  have taken: "\<exists>j \<ge> i. at_work n eps (\<sigma> j)" if m: "i \<le> m" "n \<in> waiting (op_queue (\<sigma> m))" for m
  proof -
    obtain j where "m \<le> j" "op_worker (\<sigma> j) = Requested n" using take_progress [OF m(2)] by blast
    then show ?thesis using m(1) by (intro exI [of _ j]) (simp add: at_work_def)
  qed
  from owed have "\<exists>j \<ge> i. at_work n eps (\<sigma> j)"
    unfolding owed_def using source_progress [of i] retry_progress [of i] taken by blast
  then obtain m where m: "i \<le> m" "at_work n eps (\<sigma> m)" by blast
  have "\<exists>j \<ge> m. published slices n eps (\<sigma> j)"
    using work_progress [OF m(2)] cache skip fail m(1) by (meson order_trans)
  then show ?thesis using m(1) order_trans by blast
qed

lemma published_eventually:
  assumes owed: "owed waiting n eps (\<sigma> i)" and cache: "\<And>j. i \<le> j \<Longrightarrow> HealthCache_Get (op_cache (\<sigma> j)) n = eps"
    and skip: "\<And>j. i \<le> j \<Longrightarrow> \<not> op_skips k n (\<sigma> j)" and fail: "\<And>j. i0 \<le> j \<Longrightarrow> \<not> op_fails k n (\<sigma> j)"
  shows "\<exists>j \<ge> i. \<forall>l \<ge> j. slice_shows slices n eps (op_world (\<sigma> l))"
proof -
  define m where "m = max i i0"
  have "owed waiting n eps (\<sigma> j) \<or> published slices n eps (\<sigma> j)" if "i \<le> j" for j
    using that
  proof (induction rule: dec_induct)
    case (step j)
    then show ?case
      using owed_step [OF inv run _ cache skip, of j] published_step [OF inv run _ cache, of j] by (auto simp: owed_def)
  qed (use owed in simp)
  then have "owed waiting n eps (\<sigma> m) \<or> published slices n eps (\<sigma> m)" by (simp add: m_def)
  moreover have later: "HealthCache_Get (op_cache (\<sigma> j)) n = eps" "\<not> op_skips k n (\<sigma> j)" "\<not> op_fails k n (\<sigma> j)" if "m \<le> j" for j
    using that cache skip fail by (auto simp: m_def)
  ultimately obtain j where j: "m \<le> j" "published slices n eps (\<sigma> j)"
    using owed_progress [of eps m] by blast
  have "published slices n eps (\<sigma> l)" if "j \<le> l" for l
  proof (rule kept_from [where P = "\<lambda>l. published slices n eps (\<sigma> l)" and i = j])
    show "published slices n eps (\<sigma> (Suc h))" if "j \<le> h" "published slices n eps (\<sigma> h)" for h
      using published_step [OF inv run that(2) later(1)] later(3) that(1) j(1) by (meson order_trans)
  qed (use j that in auto)
  then show ?thesis using j(1) by (intro exI [of _ j]) (auto simp: m_def published_def)
qed

end

text \<open>
  C2: health that is announced is published. Take any infinite run of the operator in which the channel source, the
  worker and the retries of a frontend are scheduled fairly, whatever the monitor, watches and everybody else do
  in between. When an event for the frontend has been delivered, or its key waits, is to be tried again or is
  with the worker, and its cached endpoints stay the same from then on, then from some point on its
  EndpointSlice lists exactly these endpoints with their health, provided the frontend keeps existing with a
  port and its reconciles fail only finitely often. A run of the worker that read the cache before may still store
  old endpoints, but never last.
\<close>

theorem announced_health_published:
  assumes "operator_parts k svcs slices wq queue_ok waiting processing place env"
    and "fair_operator k wq env n ls \<sigma>" and "op_inv queue_ok processing (\<sigma> 0)"
    and "owed waiting n eps (\<sigma> i)" and "\<forall>j \<ge> i. HealthCache_Get (op_cache (\<sigma> j)) n = eps"
    and "\<forall>j \<ge> i. \<not> op_skips k n (\<sigma> j)" and "\<exists>i0. \<forall>j \<ge> i0. \<not> op_fails k n (\<sigma> j)"
  shows "\<exists>j \<ge> i. \<forall>l \<ge> j. \<exists>es. slices (op_world (\<sigma> l)) n = Some es \<and> es_Endpoints es = map slice_endpoint eps"
proof -
  have "operator_run k svcs slices wq queue_ok waiting processing place env ls \<sigma> n"
    using assms(1-3) by (simp add: operator_run_def operator_run_axioms_def)
  from operator_run.published_eventually [OF this assms(4)] assms(5-7) show ?thesis
    unfolding slice_shows_def by blast
qed

section \<open>An eager scheduler\<close>

text \<open>
  A scheduler of the source, the worker and the retries, in this order, that waits when nothing is left to do. Its runs
  show that the steps can be taken and that fair runs exist.
\<close>

definition next_action :: "'q work_queue \<Rightarrow> ('w, 'q) operator \<Rightarrow> action" where
  "next_action wq s =
     (if op_handled s < length (event_keys s) then Source
      else if op_worker s \<noteq> Waiting \<or> wq_get wq (op_queue s) \<noteq> None then Worker
      else case op_retry s of n # _ \<Rightarrow> Retry n | [] \<Rightarrow> Others)"

definition worker_next :: "'w kube \<Rightarrow> 'q work_queue \<Rightarrow> ('w, 'q) operator \<Rightarrow> ('w, 'q) operator" where
  "worker_next k wq s =
     (case worker_key (op_worker s) of
        None \<Rightarrow> (case wq_get wq (op_queue s) of None \<Rightarrow> s | Some (n, q) \<Rightarrow> s\<lparr>op_worker := Requested n, op_queue := q\<rparr>)
      | Some n \<Rightarrow> (case worker_step k (op_cache s) (op_worker s) (op_world s) of
            (Inl wk, w) \<Rightarrow> s\<lparr>op_worker := wk, op_world := w\<rparr>
          | (Inr res, w) \<Rightarrow> s\<lparr>op_worker := Waiting, op_world := w, op_queue := wq_done wq n (op_queue s),
              op_retry := (case res of Inl _ \<Rightarrow> n # op_retry s | Inr _ \<Rightarrow> op_retry s)\<rparr>))"

definition next_state :: "'w kube \<Rightarrow> 'q work_queue \<Rightarrow> ('w, 'q) operator \<Rightarrow> ('w, 'q) operator" where
  "next_state k wq s =
     (case next_action wq s of
        Source \<Rightarrow> s\<lparr>op_queue := wq_add wq (event_keys s ! op_handled s) (op_queue s), op_handled := Suc (op_handled s)\<rparr>
      | Worker \<Rightarrow> worker_next k wq s
      | Retry n \<Rightarrow> s\<lparr>op_retry := remove1 n (op_retry s), op_queue := wq_add wq n (op_queue s)\<rparr>
      | _ \<Rightarrow> s)"

lemma worker_key_None: "worker_key wk = None \<longleftrightarrow> wk = Waiting"
  by (cases wk) auto

lemma worker_next_step:
  assumes "op_worker s \<noteq> Waiting \<or> wq_get wq (op_queue s) \<noteq> None"
  shows "op_step k wq env Worker s (worker_next k wq s)"
proof (cases "op_worker s = Waiting")
  case True
  with assms obtain n q where get: "wq_get wq (op_queue s) = Some (n, q)" by auto
  from takes [OF True get] show ?thesis using True get by (simp add: worker_next_def)
next
  case False
  then obtain n where n: "worker_key (op_worker s) = Some n" using worker_key_None by auto
  obtain r w where r: "worker_step k (op_cache s) (op_worker s) (op_world s) = (r, w)" by fastforce
  show ?thesis
  proof (cases r)
    case (Inl wk)
    then show ?thesis using work [OF False, of k wk w wq env] r n by (simp add: worker_next_def)
  next
    case (Inr res)
    then show ?thesis using finish [OF n, of k res w wq env] r n by (simp add: worker_next_def)
  qed
qed

lemma next_step:
  assumes "env (op_world s) (op_world s)"
  shows "op_step k wq env (next_action wq s) s (next_state k wq s)"
proof (cases "op_handled s < length (event_keys s)")
  case True
  then show ?thesis using source [OF True, of k wq env] by (simp add: next_state_def next_action_def)
next
  case handled: False
  show ?thesis
  proof (cases "op_worker s \<noteq> Waiting \<or> wq_get wq (op_queue s) \<noteq> None")
    case True
    then show ?thesis using worker_next_step [OF True, of k env] handled by (simp add: next_state_def next_action_def)
  next
    case False
    then show ?thesis using handled retry [of "hd (op_retry s)" s k wq env] others [of env s "op_world s" k wq] assms
      by (cases "op_retry s") (simp_all add: next_state_def next_action_def)
  qed
qed

lemma next_sys: "op_sys (next_state k wq s) = op_sys s"
  by (auto simp: next_state_def worker_next_def split: action.splits option.splits prod.splits sum.splits)

lemma next_quiet:
  assumes "next_action wq s = Others"
  shows "next_state k wq s = s" and "a \<in> {Source, Worker, Retry n} \<Longrightarrow> \<not> enabled (op_step k wq env) a s"
proof -
  show "next_state k wq s = s" using assms by (simp add: next_state_def)
  have idle: "\<not> op_handled s < length (event_keys s)" "op_worker s = Waiting" "wq_get wq (op_queue s) = None" "op_retry s = []"
    using assms by (cases "wq_get wq (op_queue s)"; auto simp: next_action_def split: if_splits list.splits)+
  show "\<not> enabled (op_step k wq env) a s" if "a \<in> {Source, Worker, Retry n}"
    using that idle by (auto simp: enabled_def elim!: op_stepE)
qed

lemma eager_quiet:
  assumes "next_action wq ((next_state k wq ^^ m) s) = Others" and "m \<le> i"
  shows "(next_state k wq ^^ i) s = (next_state k wq ^^ m) s"
  using assms(2) by (induction rule: dec_induct) (simp_all add: next_quiet(1) [OF assms(1)])

lemma eager_fair:
  assumes "\<And>w. env w w" and quiet: "next_action wq ((next_state k wq ^^ m) s) = Others"
  shows "fair_operator k wq env n (\<lambda>i. next_action wq ((next_state k wq ^^ i) s)) (\<lambda>i. (next_state k wq ^^ i) s)"
proof -
  let ?\<sigma> = "\<lambda>i. (next_state k wq ^^ i) s"
  have "labelled_run (op_step k wq env) (\<lambda>i. next_action wq (?\<sigma> i)) ?\<sigma>"
    unfolding labelled_run_def funpow.simps comp_def by (intro allI next_step assms(1))
  moreover have "\<not> enabled (op_step k wq env) a (?\<sigma> (max i m))" if "a \<in> {Source, Worker, Retry n}" for a i
    using next_quiet(2) [OF quiet that] eager_quiet [OF quiet, of "max i m"] by simp
  then have "weakly_fair (op_step k wq env) (\<lambda>i. next_action wq (?\<sigma> i)) ?\<sigma> a" if "a \<in> {Source, Worker, Retry n}" for a
    unfolding weakly_fair_def using that by (meson max.cobounded1)
  ultimately show ?thesis by (auto simp: fair_operator_def)
qed

section \<open>A run of the operator\<close>

text \<open>The frontend of \<^const>\<open>served_cluster\<close>, its first report delivered, and nothing done yet.\<close>

abbreviation web_eps :: "Endpoint list" where
  "web_eps \<equiv> [sample_endpoint ''n1'' ''10.1.0.1'' True]"

definition reported :: "(cluster, mem_queue) operator" where
  "reported = \<lparr>op_sys = (run_sys [] [] [] Idle)\<lparr>sys_hm := HealthManager_Update True (NewHealthManager NewHealthCache) web web_eps\<rparr>,
     op_stage = NoReport, op_handled = 0, op_queue = idle_queue, op_retry = [], op_worker = Waiting, op_world = served_cluster\<rparr>"

lemma reported_facts:
  "event_keys reported = [web]" "HealthCache_Get (op_cache reported) web = web_eps"
  by (simp_all add: reported_def HealthManager_Update_def HealthCache_Update_def NewHealthManager_def NewHealthCache_def
      HealthCache_Get_def slice_at_def Let_def)

lemma reported_inv: "op_inv mem_queue_ok (\<lambda>q. set (mq_processing q)) reported"
  by (simp add: op_inv_def reported_def idle_queue_def mem_queue_ok_def sys_inv_def run_sys_def run_mon_def pods_ok_def pods_keyed_def
      targets_ok_def states_wf_def pending_ok_def)

lemma served_calls:
  obtains svc w1 where
    "GetFrontend mem_kube web served_cluster = (Inr (claimed_frontend ''web''), served_cluster)"
    "fe_Port (claimed_frontend ''web'') = Some 10240"
    "CreateOrUpdateService mem_kube (new_service (claimed_frontend ''web'')) (service_mutate mem_kube (claimed_frontend ''web'')) served_cluster = (Inr svc, w1)"
    "\<And>c. \<exists>es w2. CreateOrUpdateEndpointSlice mem_kube (new_endpointslice svc) (endpointslice_mutate mem_kube c web (claimed_frontend ''web'') svc) w1 = (Inr es, w2)"
proof -
  obtain service where service: "fes_Service (fe_Spec (claimed_frontend ''web'')) = Some service"
    by (simp add: claimed_frontend_def sample_frontend_def)
  have port: "fe_Port (claimed_frontend ''web'') = Some 10240" by (simp add: claimed_frontend_def)
  have "GetFrontend mem_kube web served_cluster = (Inr (claimed_frontend ''web''), served_cluster)"
    by (simp add: mem_kube_sel mem_get_def lookup_def served_cluster_def)
  moreover obtain svc w1 where svc: "CreateOrUpdateService mem_kube (new_service (claimed_frontend ''web''))
      (service_mutate mem_kube (claimed_frontend ''web'')) served_cluster = (Inr svc, w1)" "cl_slices w1 = []"
    by (simp add: mem_kube_def mem_create_or_update_def served_cluster_def empty_cluster_def fetched_def lookup_def service port
        service_mutate_def new_service_def mem_controller_def Let_def go_run svc_key_def meta_key_def)
  moreover have "\<exists>es w2. CreateOrUpdateEndpointSlice mem_kube (new_endpointslice svc)
      (endpointslice_mutate mem_kube c web (claimed_frontend ''web'') svc) w1 = (Inr es, w2)" for c
    using svc(2) by (simp add: mem_kube_def mem_create_or_update_def fetched_def lookup_def mem_controller_def Let_def go_run es_key_def meta_key_def
        new_endpointslice_def endpointslice_mutate_def)
  ultimately show ?thesis using that port by blast
qed

abbreviation eager :: "nat \<Rightarrow> (cluster, mem_queue) operator" where
  "eager i \<equiv> (next_state mem_kube mem_work_queue ^^ i) reported"

lemma eager_cache: "HealthCache_Get (op_cache (eager j)) web = web_eps"
  by (induction j) (simp_all add: reported_facts next_sys)

text \<open>The seven states of the run: the event, the key in the queue, the stages of the worker, and rest.\<close>

lemma eager_run:
  obtains fe svc w1 c w2 where
    "op_worker (eager 0) = Waiting" "op_worker (eager 1) = Waiting" "op_worker (eager 2) = Requested web"
    "op_worker (eager 3) = Fetched web fe" "op_worker (eager 4) = ServiceStored web fe svc" "op_worker (eager 5) = CacheRead web fe svc c"
    "\<And>d. worker_step mem_kube d (Requested web) (op_world (eager 2)) = (Inl (Fetched web fe), served_cluster)"
    "\<And>d. worker_step mem_kube d (Fetched web fe) (op_world (eager 3)) = (Inl (ServiceStored web fe svc), w1)"
    "\<And>d. worker_step mem_kube d (CacheRead web fe svc c) (op_world (eager 5)) = (Inr (Inr ()), w2)"
    "next_action mem_work_queue (eager 6) = Others" "op_worker (eager 6) = Waiting"
proof -
  let ?fe = "claimed_frontend ''web''"
  let ?f = "next_state mem_kube mem_work_queue"
  note eval = next_state_def next_action_def worker_next_def mem_work_queue_def idle_queue_def
  obtain svc w1 where calls: "GetFrontend mem_kube web served_cluster = (Inr ?fe, served_cluster)" "fe_Port ?fe = Some 10240"
    "CreateOrUpdateService mem_kube (new_service ?fe) (service_mutate mem_kube ?fe) served_cluster = (Inr svc, w1)"
    "\<And>c. \<exists>es w2. CreateOrUpdateEndpointSlice mem_kube (new_endpointslice svc) (endpointslice_mutate mem_kube c web ?fe svc) w1 = (Inr es, w2)"
    by (rule served_calls) blast
  obtain es w2 where es: "CreateOrUpdateEndpointSlice mem_kube (new_endpointslice svc)
      (endpointslice_mutate mem_kube (op_cache reported) web ?fe svc) w1 = (Inr es, w2)" using calls(4) by blast
  let ?s1 = "reported\<lparr>op_queue := \<lparr>mq_queue = [web], mq_dirty = [web], mq_processing = []\<rparr>, op_handled := 1\<rparr>"
  let ?s2 = "?s1\<lparr>op_worker := Requested web, op_queue := \<lparr>mq_queue = [], mq_dirty = [], mq_processing = [web]\<rparr>\<rparr>"
  let ?s3 = "?s2\<lparr>op_worker := Fetched web ?fe, op_world := served_cluster\<rparr>"
  let ?s4 = "?s3\<lparr>op_worker := ServiceStored web ?fe svc, op_world := w1\<rparr>"
  let ?s5 = "?s4\<lparr>op_worker := CacheRead web ?fe svc (op_cache reported)\<rparr>"
  let ?s6 = "?s5\<lparr>op_worker := Waiting, op_world := w2, op_queue := idle_queue\<rparr>"
  have rep: "op_worker reported = Waiting" "op_queue reported = idle_queue" "op_handled reported = 0" "op_retry reported = []"
    "op_world reported = served_cluster" by (simp_all add: reported_def)
  have ev: "length (hm_events (op_hm reported)) = 1" using arg_cong [OF reported_facts(1), of length] by simp
  have "?f reported = ?s1" using reported_facts(1) ev rep by (simp add: eval del: map_eq_Cons_conv)
  moreover have "?f ?s1 = ?s2" using ev rep by (simp add: eval)
  moreover have "?f ?s2 = ?s3" using ev rep calls by (simp add: eval)
  moreover have "?f ?s3 = ?s4" using ev rep calls by (simp add: eval)
  moreover have "?f ?s4 = ?s5" using ev rep by (simp add: eval)
  moreover have "?f ?s5 = ?s6" using ev rep es by (simp add: eval)
  ultimately have run: "eager 1 = ?s1" "eager 2 = ?s2" "eager 3 = ?s3" "eager 4 = ?s4" "eager 5 = ?s5" "eager 6 = ?s6"
    by (simp_all add: eval_nat_numeral del: operator.update_convs)
  have "next_action mem_work_queue ?s6 = Others" using ev rep by (simp add: eval)
  then show ?thesis using that [of ?fe svc "op_cache reported" w1 w2] run rep calls es by simp
qed

lemma eager_order: "j < 6 \<or> eager j = eager 6"
  by (rule eager_run) (metis eager_quiet linorder_not_less)

lemma no_failure:
  assumes "worker_step k (op_cache s) (op_worker s) (op_world s) = (r, w)"
    and "(\<exists>wk. r = Inl wk) \<or> r = Inr (Inr ()) \<and> op_worker s \<noteq> Requested n"
  shows "\<not> op_skips k n s \<and> \<not> op_fails k n s"
  using assms by (auto simp: op_skips_def op_fails_def)

lemma eager_no_failure: "\<not> op_skips mem_kube web (eager j) \<and> \<not> op_fails mem_kube web (eager j)"
proof (rule eager_run)
  fix fe svc w1 c w2
  assume r: "op_worker (eager 0) = Waiting" "op_worker (eager 1) = Waiting" "op_worker (eager 2) = Requested web"
    "op_worker (eager 3) = Fetched web fe" "op_worker (eager 4) = ServiceStored web fe svc" "op_worker (eager 5) = CacheRead web fe svc c"
    "\<And>d. worker_step mem_kube d (Requested web) (op_world (eager 2)) = (Inl (Fetched web fe), served_cluster)"
    "\<And>d. worker_step mem_kube d (Fetched web fe) (op_world (eager 3)) = (Inl (ServiceStored web fe svc), w1)"
    "\<And>d. worker_step mem_kube d (CacheRead web fe svc c) (op_world (eager 5)) = (Inr (Inr ()), w2)" "op_worker (eager 6) = Waiting"
  have idle: "op_worker s = Waiting \<Longrightarrow> \<not> op_skips mem_kube web s \<and> \<not> op_fails mem_kube web s" for s :: "(cluster, mem_queue) operator"
    by (rule no_failure [of _ _ "Inl Waiting"]) simp_all
  note ok = idle [OF r(1)] idle [OF r(2)] idle [OF r(10)]
    no_failure [of mem_kube "eager 2", unfolded r(3), OF r(7)] no_failure [of mem_kube "eager 3", unfolded r(4), OF r(8)]
    no_failure [of mem_kube "eager 4", unfolded r(5), OF worker_step.simps(4)] no_failure [of mem_kube "eager 5", unfolded r(6), OF r(9)]
  consider "j = 0" | "j = 1" | "j = 2" | "j = 3" | "j = 4" | "j = 5" | "eager j = eager 6"
    using eager_order [of j] by linarith
  then show ?thesis by cases (metis ok sum.inject sum.distinct worker.distinct)+
qed

interpretation eager: operator_run mem_kube mem_services mem_slices mem_work_queue mem_queue_ok
  "\<lambda>q. set (mq_dirty q)" "\<lambda>q. set (mq_processing q)" mem_place "other_components mem_kube no_users"
  "\<lambda>i. next_action mem_work_queue (eager i)" eager web
proof unfold_locales
  show "fair_operator mem_kube mem_work_queue (other_components mem_kube no_users) web (\<lambda>i. next_action mem_work_queue (eager i)) eager"
    by (rule eager_run, rule eager_fair) (simp_all add: other_components_def)
  show "op_inv mem_queue_ok (\<lambda>q. set (mq_processing q)) (eager 0)" using reported_inv by simp
qed

theorem announced_health_published_witness:
  "\<exists>j. \<forall>l \<ge> j. \<exists>es. mem_slices (op_world (eager l)) web = Some es \<and> es_Endpoints es = map slice_endpoint web_eps"
proof -
  have "owed (\<lambda>q. set (mq_dirty q)) web web_eps (eager 0)"
    using reported_facts(1) by (simp add: owed_def announced_def reported_def)
  moreover have "\<forall>j \<ge> 0. HealthCache_Get (op_cache (eager j)) web = web_eps" using eager_cache by blast
  moreover have "\<forall>j \<ge> 0. \<not> op_skips mem_kube web (eager j)" "\<exists>i0. \<forall>j \<ge> i0. \<not> op_fails mem_kube web (eager j)"
    by (simp_all add: eager_no_failure)
  ultimately show ?thesis
    using announced_health_published [OF mem_operator.operator_parts_axioms eager.fair eager.start] by blast
qed

end
