(* ===== verification/Concurrent_Claims.thy ===== *)
theory Concurrent_Claims
  imports Operator_Env
begin

text \<open>
  Claims under concurrency. A run of \<^verbatim>\<open>ReconcileFrontends\<close> is cut at its calls on the API, and any number of runs, as of
  several operators without leader election, interleave over caches that may be old, while users create, edit and delete
  frontends. The API is the locale \<open>versioned_store\<close>: a status update is refused unless it carries the stored resource
  version. It is met by a store that counts versions. Shown: the steps in a row are \<^verbatim>\<open>ReconcileFrontends\<close>, and claims are
  exclusive and permanent.
\<close>

section \<open>A claiming run in single steps\<close>

text \<open>
  Where a run of \<^verbatim>\<open>ReconcileFrontends\<close> is: about to list the frontends, or in its loop, with the slice it listed, the next
  port and the elements that are left. Every call on the API is a step of its own.
\<close>

datatype claimer =
  Resting
  | Listing GlobalLoadBalancer
  | Claiming GlobalLoadBalancer "Frontend list" int32 "Frontend list"

fun claimer_step :: "'w kube \<Rightarrow> GlobalLoadBalancerReconciler \<Rightarrow> claimer \<Rightarrow> 'w \<Rightarrow> (claimer + unit result) \<times> 'w" where
  "claimer_step k r Resting w = (Inl Resting, w)"
| "claimer_step k r (Listing lb) w =
     (case getFrontends k lb False w of
        (Inl f, w') \<Rightarrow> (Inr (Inl f), w')
      | (Inr fes, w') \<Rightarrow> (Inl (Claiming lb fes
          (if length fes > 0 then GetNextPort fes (glbr_StartingPort r) else glbr_StartingPort r) fes), w'))"
| "claimer_step k r (Claiming lb fes nextPort []) w = (Inr (Inr ()), w)"
| "claimer_step k r (Claiming lb fes nextPort (fe # rest)) w =
     (let (fe', updated) = assign_frontend lb nextPort fe
      in if updated
         then (case UpdateFrontendStatus k fe' w of
                 (Inl (Panic p), w') \<Rightarrow> (Inr (Inl (Panic p)), w')
               | (Inl (Err e), w') \<Rightarrow> (Inl (Claiming lb fes nextPort rest), w')
               | (Inr _, w') \<Rightarrow> (Inl (Claiming lb fes (GetNextPort fes (glbr_StartingPort r)) rest), w'))
         else (Inl (Claiming lb fes (GetNextPort fes (glbr_StartingPort r)) rest), w))"

fun held :: "claimer \<Rightarrow> Frontend list" where
  "held (Claiming lb fes nextPort rest) = rest"
| "held _ = []"

fun claimer_stage :: "claimer \<Rightarrow> nat" where
  "claimer_stage (Listing lb) = 1"
| "claimer_stage _ = 0"

lemma claimer_step_less:
  "claimer_step k r c w = (Inl c', w') \<Longrightarrow> c \<noteq> Resting \<Longrightarrow>
    claimer_stage c' < claimer_stage c \<or> claimer_stage c' = claimer_stage c \<and> length (held c') < length (held c)"
  by (cases "(k, r, c, w)" rule: claimer_step.cases)
    (auto simp: Let_def split: prod.splits sum.splits fault.splits if_splits)

text \<open>All steps in a row.\<close>

function claimer_run :: "'w kube \<Rightarrow> GlobalLoadBalancerReconciler \<Rightarrow> claimer \<Rightarrow> ('w, unit) go" where
  "claimer_run k r c w =
     (if c = Resting then (Inr (), w)
      else case claimer_step k r c w of
             (Inl c', w') \<Rightarrow> claimer_run k r c' w'
           | (Inr res, w') \<Rightarrow> (res, w'))"
  by pat_completeness auto
termination
  by (relation "measures [\<lambda>(k, r, c, w). claimer_stage c, \<lambda>(k, r, c, w). length (held c)]")
    (auto dest: claimer_step_less [OF sym])

declare claimer_run.simps [simp del]

lemma claimer_run_loop:
  "claimer_run k r (Claiming lb fes nextPort rest) w = ReconcileFrontends_loop k lb (glbr_StartingPort r) fes nextPort rest w"
proof (induction rest arbitrary: nextPort w)
  case Nil
  show ?case by (subst claimer_run.simps) simp
next
  case (Cons fe rest)
  then show ?case
    by (subst claimer_run.simps) (auto simp: Let_def split: prod.splits sum.splits fault.splits)
qed

text \<open>
  The steps of a claiming run are \<^verbatim>\<open>ReconcileFrontends\<close>: one after the other they give its result and its world, on
  every branch, failed updates and panics included.
\<close>

theorem claimer_runs_ReconcileFrontends: "claimer_run k r (Listing lb) = ReconcileFrontends k r lb"
proof
  show "claimer_run k r (Listing lb) w = ReconcileFrontends k r lb w" for w
    by (subst claimer_run.simps)
      (simp add: claimer_run_loop ReconcileFrontends_def go_bind_def Let_def split: prod.splits sum.splits)
qed

section \<open>Concurrent claims\<close>

text \<open>
  Claiming runs side by side: of several operators, since leader election is off by default, for any load balancers.
  \<open>cs_won\<close> records, for the statement only, which load balancer was told by the API server that its status update of
  which object (name and UID) succeeded.
\<close>

type_synonym win = "NamespacedName \<times> string \<times> LoadBalancerReference"

record 'w claims =
  cs_runs :: "nat \<Rightarrow> claimer"
  cs_world :: 'w
  cs_won :: "win list"

fun told :: "'w kube \<Rightarrow> claimer \<Rightarrow> 'w \<Rightarrow> win list" where
  "told k (Claiming lb fes nextPort (fe # rest)) w =
     (let (fe', updated) = assign_frontend lb nextPort fe
      in if updated
         then (case (UpdateFrontendStatus k fe' w, fe_Owner fe') of
                 ((Inr _, _), Some ref) \<Rightarrow> [(fe_key fe, fe_UID fe, ref)]
               | _ \<Rightarrow> [])
         else [])"
| "told k _ w = []"

datatype claims_label = Begins nat GlobalLoadBalancer | Runs nat | Outside

inductive claims_step ::
  "'w kube \<Rightarrow> GlobalLoadBalancerReconciler \<Rightarrow> ('w \<Rightarrow> 'w \<Rightarrow> bool) \<Rightarrow> claims_label \<Rightarrow> 'w claims \<Rightarrow> 'w claims \<Rightarrow> bool"
  for k r users where
  begins: "cs_runs s i = Resting \<Longrightarrow> claims_step k r users (Begins i lb) s (s\<lparr>cs_runs := (cs_runs s)(i := Listing lb)\<rparr>)"
| goes_on: "cs_runs s i \<noteq> Resting \<Longrightarrow> claimer_step k r (cs_runs s i) (cs_world s) = (Inl c, w) \<Longrightarrow>
    claims_step k r users (Runs i) s
      (s\<lparr>cs_runs := (cs_runs s)(i := c), cs_world := w, cs_won := told k (cs_runs s i) (cs_world s) @ cs_won s\<rparr>)"
| ends: "claimer_step k r (cs_runs s i) (cs_world s) = (Inr res, w) \<Longrightarrow>
    claims_step k r users (Runs i) s (s\<lparr>cs_runs := (cs_runs s)(i := Resting), cs_world := w\<rparr>)"
| users: "users (cs_world s) w \<Longrightarrow> claims_step k r users Outside s (s\<lparr>cs_world := w\<rparr>)"

abbreviation claims_steps :: "'w kube \<Rightarrow> GlobalLoadBalancerReconciler \<Rightarrow> ('w \<Rightarrow> 'w \<Rightarrow> bool) \<Rightarrow> 'w claims \<Rightarrow> 'w claims \<Rightarrow> bool" where
  "claims_steps k r users \<equiv> (\<lambda>s t. \<exists>a. claims_step k r users a s t)\<^sup>*\<^sup>*"

inductive_cases claims_begins: "claims_step k r users (Begins i lb) s t"
inductive_cases claims_runs: "claims_step k r users (Runs i) s t"
inductive_cases claims_outside: "claims_step k r users Outside s t"

text \<open>
  What is documented of resource versions and UIDs: a version identifies one state of an object. Reads come from a cache
  that may be old, but holds states the object once had; an update of the status is refused unless it carries the
  version that is stored, and writes the status and a new version only. A call that fails may have been carried
  out. \<open>history\<close> is the states the objects have had so far, \<open>gone\<close> the UIDs of the deleted ones.
\<close>

locale versioned_store =
  fixes k :: "'w kube"
    and stored :: "'w \<Rightarrow> NamespacedName \<rightharpoonup> Frontend"
    and gone :: "'w \<Rightarrow> string set"
    and history :: "'w \<Rightarrow> Frontend set"
    and world_ok :: "'w \<Rightarrow> bool"
  assumes stored_history: "world_ok w \<Longrightarrow> stored w n = Some fe \<Longrightarrow> fe \<in> history w"
    and version_identifies: "world_ok w \<Longrightarrow> fe \<in> history w \<Longrightarrow> fe' \<in> history w \<Longrightarrow> fe_key fe = fe_key fe' \<Longrightarrow>
      fe_version fe = fe_version fe' \<Longrightarrow> fe = fe'"
    and stored_key: "world_ok w \<Longrightarrow> stored w n = Some fe \<Longrightarrow> fe_key fe = n"
    and alive: "world_ok w \<Longrightarrow> stored w n = Some fe \<Longrightarrow> fe_UID fe \<notin> gone w"
    and list_reads: "world_ok w \<Longrightarrow> ListFrontends k opts w = (res, w') \<Longrightarrow>
      world_ok w' \<and> stored w' = stored w \<and> gone w' = gone w \<and> history w' = history w
      \<and> (\<forall>l. res = Inr l \<longrightarrow> set (fel_Items l) \<subseteq> history w)"
    and update_checks: "world_ok w \<Longrightarrow> UpdateFrontendStatus k fe w = (upd, w') \<Longrightarrow>
      world_ok w' \<and> gone w' = gone w \<and> history w \<subseteq> history w'
      \<and> (status_written (stored w) fe (stored w') \<or> stored w' = stored w \<and> (\<exists>f. upd = Inl f))"
begin

text \<open>A write that is let through starts from the stored state, so it can only add to it.\<close>

lemma write_adds:
  assumes "world_ok w" and "fe \<in> history w" and "status_written (stored w) (fst (assign_frontend lb p fe)) (stored w')"
  shows "stored w (fe_key fe) = Some fe
    \<and> (\<exists>v. stored w' = (stored w)(fe_key fe \<mapsto> with_version v (fe\<lparr>fe_Status := fe_Status (fst (assign_frontend lb p fe))\<rparr>)))"
proof -
  obtain old v where old: "stored w (fe_key fe) = Some old" "fe_version old = fe_version fe"
    "stored w' = (stored w)(fe_key fe \<mapsto> with_version v (old\<lparr>fe_Status := fe_Status (fst (assign_frontend lb p fe))\<rparr>))"
    using assms(3) by (auto simp: status_written_def)
  then have "old = fe" using version_identifies [OF assms(1) stored_history [OF assms(1) old(1)] assms(2)] stored_key [OF assms(1) old(1)] by simp
  with old show ?thesis by blast
qed

lemma unchanged_claims: "stored w' = stored w \<Longrightarrow> gone w' = gone w \<Longrightarrow> claims_kept stored gone w w'"
  by (auto simp: claims_kept_def claim_kept_refl)

lemma write_keeps_claims:
  assumes "world_ok w" and "fe \<in> history w" and "UpdateFrontendStatus k (fst (assign_frontend lb p fe)) w = (upd, w')"
  shows "claims_kept stored gone w w'"
    and "upd = Inr x \<Longrightarrow> \<exists>new. stored w' (fe_key fe) = Some new \<and> fe_UID new = fe_UID fe
      \<and> fe_Owner new = fe_Owner (fst (assign_frontend lb p fe))"
proof -
  note checks = update_checks [OF assms(1,3)]
  show "claims_kept stored gone w w'"
  proof (cases "stored w' = stored w")
    case True
    then show ?thesis using checks by (simp add: unchanged_claims)
  next
    case False
    with checks write_adds [OF assms(1,2)] obtain v where v: "stored w (fe_key fe) = Some fe"
      "stored w' = (stored w)(fe_key fe \<mapsto> with_version v (fe\<lparr>fe_Status := fe_Status (fst (assign_frontend lb p fe))\<rparr>))" by blast
    then have "\<exists>new. stored w' n = Some new \<and> claim_kept old new" if "stored w n = Some old" for n old
      using that by (cases "n = fe_key fe") (simp_all add: assign_keeps claim_kept_refl)
    then show ?thesis using checks by (auto simp: claims_kept_def)
  qed
  show "\<exists>new. stored w' (fe_key fe) = Some new \<and> fe_UID new = fe_UID fe
      \<and> fe_Owner new = fe_Owner (fst (assign_frontend lb p fe))" if "upd = Inr x"
  proof -
    from that checks write_adds [OF assms(1,2)] have "\<exists>v. stored w' = (stored w)(fe_key fe \<mapsto>
        with_version v (fe\<lparr>fe_Status := fe_Status (fst (assign_frontend lb p fe))\<rparr>))" by blast
    then show ?thesis by auto
  qed
qed

end

text \<open>
  Users and other programs may create, edit and delete frontends, but do not undo claims. What holds in every state:
  what a run holds was once stored, a win is stored as the owner as long as its object is, and the wins of one object
  are of one load balancer.
\<close>

definition win_stored :: "('w \<Rightarrow> NamespacedName \<rightharpoonup> Frontend) \<Rightarrow> 'w \<Rightarrow> win \<Rightarrow> bool" where
  "win_stored stored w = (\<lambda>(n, uid, ref). \<exists>fe. stored w n = Some fe \<and> fe_UID fe = uid \<and> fe_Owner fe = Some ref)"

definition claims_inv ::
  "('w \<Rightarrow> NamespacedName \<rightharpoonup> Frontend) \<Rightarrow> ('w \<Rightarrow> string set) \<Rightarrow> ('w \<Rightarrow> Frontend set) \<Rightarrow> ('w \<Rightarrow> bool) \<Rightarrow> 'w claims \<Rightarrow> bool" where
  "claims_inv stored gone history world_ok s \<longleftrightarrow> world_ok (cs_world s) \<and> (\<forall>i. set (held (cs_runs s i)) \<subseteq> history (cs_world s))
     \<and> (\<forall>(n, uid, ref) \<in> set (cs_won s). uid \<in> gone (cs_world s) \<or> win_stored stored (cs_world s) (n, uid, ref))
     \<and> (\<forall>n uid ref ref'. (n, uid, ref) \<in> set (cs_won s) \<longrightarrow> (n, uid, ref') \<in> set (cs_won s) \<longrightarrow> ref = ref')"

locale claiming = versioned_store k stored gone history world_ok
  for k :: "'w kube"
    and stored :: "'w \<Rightarrow> NamespacedName \<rightharpoonup> Frontend"
    and gone :: "'w \<Rightarrow> string set"
    and history :: "'w \<Rightarrow> Frontend set"
    and world_ok :: "'w \<Rightarrow> bool" +
  fixes users :: "'w \<Rightarrow> 'w \<Rightarrow> bool"
  assumes users_keep: "world_ok w \<Longrightarrow> users w w' \<Longrightarrow> world_ok w' \<and> history w \<subseteq> history w' \<and> claims_kept stored gone w w'"
begin

lemma getFrontends_history:
  assumes "world_ok w" and "getFrontends k lb onlyOwned w = (res, w')"
  shows "world_ok w' \<and> stored w' = stored w \<and> gone w' = gone w \<and> history w' = history w \<and> (\<forall>fes. res = Inr fes \<longrightarrow> set fes \<subseteq> history w)"
  using assms list_reads [OF assms(1)]
  by (auto simp: getFrontends_run split: sum.splits prod.splits; blast)

lemma claimer_step_keeps:
  assumes "world_ok w" and "set (held c) \<subseteq> history w" and "claimer_step k r c w = (out, w')"
  shows "world_ok w' \<and> history w \<subseteq> history w' \<and> claims_kept stored gone w w'
    \<and> (\<forall>c'. out = Inl c' \<longrightarrow> set (held c') \<subseteq> history w') \<and> (\<forall>x \<in> set (told k c w). win_stored stored w' x)"
proof (cases "(k, r, c, w)" rule: claimer_step.cases)
  case (2 k' r' lb w0)
  obtain res v where get: "getFrontends k lb False w = (res, v)" by fastforce
  from getFrontends_history [OF assms(1) this] show ?thesis
    using 2 assms(3) get by (cases res) (auto simp: unchanged_claims)
next
  case (4 k' r' lb fes p fe rest w0)
  show ?thesis
  proof (cases "needs_write fe")
    case False
    then have "snd (assign_frontend lb p fe) = False" by simp
    then show ?thesis using 4 assms by (auto simp: Let_def case_prod_beta claims.rel_refl)
  next
    case True
    then obtain fe' where upd: "assign_frontend lb p fe = (fe', True)" by (metis assign_updated prod.collapse)
    obtain res v where call: "UpdateFrontendStatus k fe' w = (res, v)" by fastforce
    have step: "claimer_step k r c w = (case res of Inl (Panic x) \<Rightarrow> Inr (Inl (Panic x)) | Inl (Err e) \<Rightarrow> Inl (Claiming lb fes p rest)
        | Inr _ \<Rightarrow> Inl (Claiming lb fes (GetNextPort fes (glbr_StartingPort r)) rest), v)"
      "told k c w = (case (res, fe_Owner fe') of (Inr _, Some ref) \<Rightarrow> [(fe_key fe, fe_UID fe, ref)] | _ \<Rightarrow> [])"
      using 4 call upd by (auto split: sum.splits fault.splits)
    have fe: "fe \<in> history w" and rest: "set rest \<subseteq> history w" using 4 assms(2) by auto
    note written = write_keeps_claims [OF assms(1) fe, of lb p res v, unfolded upd fst_conv, OF call]
    have v: "w' = v" using assms(3) step(1) by simp
    have "held c' = rest" if "out = Inl c'" for c'
      using that assms(3) step(1) by (auto split: sum.splits fault.splits)
    moreover have "win_stored stored v x" if "x \<in> set (told k c w)" for x
      using that step(2) written(2) by (auto simp: win_stored_def split: sum.splits option.splits)
    ultimately show ?thesis using rest update_checks [OF assms(1) call] written(1) v by auto
  qed
qed (use assms in \<open>auto simp: claims.rel_refl\<close>)

text \<open>A win stays stored while its object is not deleted.\<close>

lemma win_kept:
  assumes "claims_kept stored gone w w'" and "uid \<in> gone w \<or> win_stored stored w (n, uid, ref)"
  shows "uid \<in> gone w' \<or> win_stored stored w' (n, uid, ref)"
  using assms unfolding claims_kept_def claim_kept_def win_stored_def by fastforce

lemma new_wins:
  assumes "claims_inv stored gone history world_ok s" and "world_ok w" and "claims_kept stored gone (cs_world s) w"
    and "\<forall>x \<in> set new. win_stored stored w x" and "won = new @ cs_won s"
  shows "(\<forall>(n, uid, ref) \<in> set won. uid \<in> gone w \<or> win_stored stored w (n, uid, ref))
    \<and> (\<forall>n uid ref ref'. (n, uid, ref) \<in> set won \<longrightarrow> (n, uid, ref') \<in> set won \<longrightarrow> ref = ref')"
proof -
  have old: "uid \<in> gone w \<or> win_stored stored w (n, uid, ref)" if "(n, uid, ref) \<in> set (cs_won s)" for n uid ref
    using assms(1) that win_kept [OF assms(3)] by (fastforce simp: claims_inv_def)
  have fresh: "ref = ref'" if "(n, uid, ref) \<in> set new" "(n, uid, ref') \<in> set won" for n uid ref ref'
  proof -
    have here: "win_stored stored w (n, uid, ref)" using assms(4) that(1) by blast
    then have "uid \<notin> gone w" using alive [OF assms(2)] by (auto simp: win_stored_def)
    then have "win_stored stored w (n, uid, ref')" using that(2) old assms(4,5) by auto
    with here show ?thesis by (auto simp: win_stored_def)
  qed
  have "ref = ref'" if "(n, uid, ref) \<in> set won" "(n, uid, ref') \<in> set won" for n uid ref ref'
  proof (cases "(n, uid, ref) \<in> set new \<or> (n, uid, ref') \<in> set new")
    case True
    then show ?thesis using fresh that by metis
  next
    case False
    then show ?thesis using that assms(1,5) by (auto simp: claims_inv_def)
  qed
  moreover have "uid \<in> gone w \<or> win_stored stored w (n, uid, ref)" if "(n, uid, ref) \<in> set won" for n uid ref
    using that old [of n uid ref] assms(4,5) by auto
  ultimately show ?thesis by blast
qed

lemma claims_step_keeps:
  assumes "claims_inv stored gone history world_ok s" and "claims_step k r users a s t"
  shows "claims_inv stored gone history world_ok t \<and> claims_kept stored gone (cs_world s) (cs_world t) \<and> set (cs_won s) \<subseteq> set (cs_won t)"
proof -
  have ok: "world_ok (cs_world s)" and held: "\<And>i. set (held (cs_runs s i)) \<subseteq> history (cs_world s)"
    using assms(1) by (auto simp: claims_inv_def)
  have keeps: ?thesis
    if world: "world_ok (cs_world t)" "history (cs_world s) \<subseteq> history (cs_world t)" "claims_kept stored gone (cs_world s) (cs_world t)"
      and runs: "\<And>i. cs_runs t i = cs_runs s i \<or> set (held (cs_runs t i)) \<subseteq> history (cs_world t)"
      and won: "cs_won t = new @ cs_won s" "\<forall>x \<in> set new. win_stored stored (cs_world t) x" for new
  proof -
    have "set (held (cs_runs t i)) \<subseteq> history (cs_world t)" for i using runs [of i] held [of i] world(2) by auto
    then show ?thesis using world won(1) new_wins [OF assms(1) world(1,3) won(2,1)] unfolding claims_inv_def by simp
  qed
  from assms(2) show ?thesis
  proof cases
    case (begins i lb)
    then show ?thesis using ok by (intro keeps [of "[]"]) (simp_all add: claims.rel_refl)
  next
    case (goes_on i c w)
    then show ?thesis using claimer_step_keeps [OF ok held goes_on(4)]
      by (intro keeps [of "told k (cs_runs s i) (cs_world s)"]) simp_all
  next
    case (ends i res w)
    then show ?thesis using claimer_step_keeps [OF ok held ends(3)] by (intro keeps [of "[]"]) simp_all
  next
    case (users w)
    then show ?thesis using users_keep [OF ok users(3)] by (intro keeps [of "[]"]) simp_all
  qed
qed

lemma claims_run_keeps:
  assumes "claims_steps k r users s t" and "claims_inv stored gone history world_ok s"
  shows "claims_inv stored gone history world_ok t \<and> claims_kept stored gone (cs_world s) (cs_world t) \<and> set (cs_won s) \<subseteq> set (cs_won t)"
  using assms(1)
proof (induction rule: rtranclp_induct)
  case base
  show ?case using assms(2) by (simp add: claims.rel_refl)
next
  case (step t u)
  then obtain a where a: "claims_step k r users a t u" by blast
  from step.IH have "claims_inv stored gone history world_ok t" by (rule conjunct1)
  note u = claims_step_keeps [OF this a]
  then have "claims_kept stored gone (cs_world s) (cs_world u)"
    using step.IH claims.rel_trans [of stored gone "cs_world s" "cs_world t" "cs_world u"] by simp
  with u step.IH show ?case by auto
qed

end

text \<open>
  C6: concurrent claims are exclusive. Let any number of claiming runs, of one operator or of several, for any load
  balancers, interleave at every single call, each with frontends read from a cache however old, while users
  create, edit and delete frontends without undoing claims. Then every frontend keeps its owner and its port once they
  are stored, until it is deleted; whoever was told that an update succeeded finds its load balancer stored as the owner
  for as long as the object exists; and no two load balancers are ever told so for the same object.
\<close>

theorem claims_exclusive:
  assumes "claiming k stored gone history world_ok users" and "world_ok (cs_world s0)" and "\<forall>i. cs_runs s0 i = Resting" and "cs_won s0 = []"
    and "claims_steps k r users s0 s" and "claims_steps k r users s t"
  shows "(\<forall>n old. stored (cs_world s) n = Some old \<longrightarrow> fe_UID old \<in> gone (cs_world t)
        \<or> (\<exists>new. stored (cs_world t) n = Some new \<and> fe_UID new = fe_UID old
            \<and> (fe_Owner old \<noteq> None \<longrightarrow> fe_Owner new = fe_Owner old) \<and> (fe_Port old \<noteq> None \<longrightarrow> fe_Port new = fe_Port old)))
    \<and> (\<forall>n uid ref. (n, uid, ref) \<in> set (cs_won s) \<longrightarrow> uid \<in> gone (cs_world t)
        \<or> (\<exists>fe. stored (cs_world t) n = Some fe \<and> fe_UID fe = uid \<and> fe_Owner fe = Some ref))
    \<and> (\<forall>n uid ref ref'. (n, uid, ref) \<in> set (cs_won t) \<and> (n, uid, ref') \<in> set (cs_won t) \<longrightarrow> ref = ref')"
proof -
  have "claims_inv stored gone history world_ok s0" using assms(2-4) by (simp add: claims_inv_def)
  then have s: "claims_inv stored gone history world_ok s" using claiming.claims_run_keeps [OF assms(1,5)] by blast
  note t = claiming.claims_run_keeps [OF assms(1,6) s]
  have inv: "claims_inv stored gone history world_ok t" and kept: "claims_kept stored gone (cs_world s) (cs_world t)"
    and won: "set (cs_won s) \<subseteq> set (cs_won t)" using t by auto
  have "uid \<in> gone (cs_world t) \<or> win_stored stored (cs_world t) (n, uid, ref)" if "(n, uid, ref) \<in> set (cs_won s)" for n uid ref
    using inv won that by (fastforce simp: claims_inv_def)
  moreover have "ref = ref'" if "(n, uid, ref) \<in> set (cs_won t)" "(n, uid, ref') \<in> set (cs_won t)" for n uid ref ref'
    using inv that unfolding claims_inv_def by blast
  ultimately show ?thesis using kept unfolding claims_kept_def claim_kept_def win_stored_def by auto
qed

section \<open>A store with resource versions\<close>

text \<open>
  An API server that counts versions, with a cache in front of its reads that catches up from time to time. New objects
  get a UID that was never used. The other calls are not served.
\<close>

record versioned =
  vs_objects :: "Frontend list"
  vs_cache :: "Frontend list"
  vs_history :: "Frontend list"
  vs_gone :: "string list"
  vs_clock :: nat

abbreviation vs_stored :: "versioned \<Rightarrow> NamespacedName \<rightharpoonup> Frontend" where
  "vs_stored w \<equiv> lookup fe_key (vs_objects w)"

definition vs_put :: "Frontend \<Rightarrow> versioned \<Rightarrow> versioned" where
  "vs_put new w = w\<lparr>vs_objects := store fe_key new (vs_objects w), vs_history := new # vs_history w, vs_clock := Suc (vs_clock w)\<rparr>"

definition vs_list :: "ListOptions \<Rightarrow> (versioned, FrontendList) go" where
  "vs_list opts = (\<lambda>w. (Inr \<lparr>fel_TypeMeta = zero_TypeMeta, fel_ListMeta = zero_ListMeta,
     fel_Items = filter (\<lambda>fe. mem_chosen opts (fe_ObjectMeta fe)) (vs_cache w)\<rparr>, w))"

definition vs_update :: "Frontend \<Rightarrow> (versioned, Frontend) go" where
  "vs_update fe = (\<lambda>w.
     case vs_stored w (fe_key fe) of
       None \<Rightarrow> (Inl (Err (NotFoundErr (fe_Name fe))), w)
     | Some old \<Rightarrow>
         if fe_version old \<noteq> fe_version fe then (Inl (Err (OtherErr ''the object has been modified'')), w)
         else let new = with_version (show_nat (vs_clock w)) (old\<lparr>fe_Status := fe_Status fe\<rparr>) in (Inr new, vs_put new w))"

abbreviation unserved :: "('w, 'a) go" where
  "unserved \<equiv> go_fail (OtherErr ''not served'')"

definition versioned_kube :: "versioned kube" where
  "versioned_kube =
     \<lparr>IsNotFound = mem_not_found, IgnoreNotFound = IgnoreNotFound mem_kube, LabelSelectorAsSelector = mem_selector,
      NewRequirement = mem_requirement, SetControllerReference = mem_controller,
      GetLoadBalancer = (\<lambda>_. unserved), GetFrontend = (\<lambda>_. unserved),
      ListFrontends = vs_list, ListBackends = (\<lambda>_. unserved), UpdateFrontendStatus = vs_update,
      CreateOrUpdateStatefulSet = (\<lambda>_ _. unserved),
      CreateOrUpdateConfigMap = (\<lambda>_ _. unserved),
      CreateOrUpdateService = (\<lambda>_ _. unserved),
      CreateOrUpdateEndpointSlice = (\<lambda>_ _. unserved),
      CacheGetPeer = (\<lambda>_. unserved), CreatePeer = (\<lambda>_. unserved),
      UpdatePeerStatus = (\<lambda>_. unserved)\<rparr>"

lemma versioned_kube_sel:
  "LabelSelectorAsSelector versioned_kube = mem_selector" "ListFrontends versioned_kube = vs_list"
  "UpdateFrontendStatus versioned_kube = vs_update"
  by (simp_all add: versioned_kube_def)

text \<open>What happens beside the claiming runs: the cache catches up, and users create, edit and delete frontends.\<close>

definition vs_identity :: "nat \<Rightarrow> Frontend \<Rightarrow> Frontend" where
  "vs_identity c fe = with_version (show_nat c) (fe\<lparr>fe_ObjectMeta := (fe_ObjectMeta fe)\<lparr>om_UID := show_nat c\<rparr>\<rparr>)"

inductive vs_users :: "versioned \<Rightarrow> versioned \<Rightarrow> bool" where
  catches_up: "vs_users w (w\<lparr>vs_cache := vs_objects w\<rparr>)"
| created: "vs_stored w (fe_key fe) = None \<Longrightarrow> vs_users w (vs_put (vs_identity (vs_clock w) fe) w)"
| edited: "vs_stored w n = Some old \<Longrightarrow> vs_users w (vs_put (with_version (show_nat (vs_clock w)) (old\<lparr>fe_Spec := spec\<rparr>)) w)"
| deleted: "vs_stored w n = Some old \<Longrightarrow>
    vs_users w (w\<lparr>vs_objects := filter (\<lambda>fe. fe_key fe \<noteq> n) (vs_objects w), vs_gone := fe_UID old # vs_gone w\<rparr>)"

definition vs_ok :: "versioned \<Rightarrow> bool" where
  "vs_ok w \<longleftrightarrow> set (vs_objects w) \<union> set (vs_cache w) \<subseteq> set (vs_history w) \<and> set (vs_gone w) \<subseteq> fe_UID ` set (vs_history w)
     \<and> (\<forall>fe \<in> set (vs_history w). \<exists>c < vs_clock w. fe_version fe = show_nat c)
     \<and> (\<forall>fe \<in> set (vs_history w). \<exists>c < vs_clock w. fe_UID fe = show_nat c)
     \<and> (\<forall>fe \<in> set (vs_history w). \<forall>fe' \<in> set (vs_history w). fe_key fe = fe_key fe' \<and> fe_version fe = fe_version fe' \<longrightarrow> fe = fe')
     \<and> (\<forall>n fe. vs_stored w n = Some fe \<longrightarrow> fe_UID fe \<notin> set (vs_gone w))
     \<and> (\<forall>n m fe fe'. vs_stored w n = Some fe \<longrightarrow> vs_stored w m = Some fe' \<longrightarrow> fe_UID fe = fe_UID fe' \<longrightarrow> n = m)"

lemma show_nat_eq: "show_nat m = show_nat n \<longleftrightarrow> m = n"
  using show_nat_inj by blast

lemma vs_identity_sel [simp]:
  "fe_version (vs_identity c fe) = show_nat c" "fe_UID (vs_identity c fe) = show_nat c" "fe_key (vs_identity c fe) = fe_key fe"
  "fe_Status (vs_identity c fe) = fe_Status fe"
  by (simp_all add: vs_identity_def meta_key_def)

lemma vs_put_stored: "vs_stored (vs_put new w) = (vs_stored w)(fe_key new \<mapsto> new)"
  by (auto simp: vs_put_def lookup_store fun_eq_iff)

lemma vs_put_ok:
  assumes "vs_ok w" and "fe_version new = show_nat (vs_clock w)"
    and "vs_stored w (fe_key new) = Some old \<and> fe_UID new = fe_UID old \<or> fe_UID new = show_nat (vs_clock w)"
  shows "vs_ok (vs_put new w)"
proof -
  have stored: "fe \<in> set (vs_history w)" if "vs_stored w n = Some fe" for n fe
    using assms(1) lookup_key [OF that] by (auto simp: vs_ok_def)
  have versions: "\<forall>fe \<in> set (vs_history w). fe_version fe \<noteq> fe_version new"
    using assms(1,2) by (auto simp: vs_ok_def show_nat_eq)
  have fresh: "\<forall>fe \<in> set (vs_history w). fe_UID fe \<noteq> show_nat (vs_clock w)"
    using assms(1) by (auto simp: vs_ok_def show_nat_eq)
  have other: "n = fe_key new" if "vs_stored w n = Some fe" "fe_UID fe = fe_UID new" for n fe
    using assms(1,3) that stored [OF that(1)] fresh unfolding vs_ok_def by metis
  have "fe_UID new \<notin> set (vs_gone w)" using assms(1,3) fresh unfolding vs_ok_def by fastforce
  moreover have "\<exists>c < Suc (vs_clock w). fe_UID new = show_nat c"
    using assms(1,3) stored [of "fe_key new" old] unfolding vs_ok_def by (metis lessI less_SucI)
  moreover have "\<forall>fe \<in> set (new # vs_history w). \<forall>fe' \<in> set (new # vs_history w). fe_key fe = fe_key fe' \<and> fe_version fe = fe_version fe' \<longrightarrow> fe = fe'"
    using assms(1) versions unfolding vs_ok_def by (metis set_ConsD)
  moreover have "set (store fe_key new (vs_objects w)) \<union> set (vs_cache w) \<subseteq> set (new # vs_history w)"
    using assms(1) by (auto simp: vs_ok_def store_def)
  ultimately show ?thesis
    using assms(1,2) other unfolding vs_ok_def vs_put_stored
    by (auto simp: vs_put_def less_Suc_eq)
qed

lemma vs_update_law:
  assumes "vs_ok w" and "vs_update fe w = (upd, w')"
  shows "vs_ok w' \<and> vs_gone w' = vs_gone w \<and> set (vs_history w) \<subseteq> set (vs_history w')
    \<and> (status_written (vs_stored w) fe (vs_stored w') \<or> vs_stored w' = vs_stored w \<and> (\<exists>f. upd = Inl f))"
proof (cases "vs_stored w (fe_key fe)")
  case None
  then show ?thesis using assms by (auto simp: vs_update_def)
next
  case (Some old)
  let ?new = "with_version (show_nat (vs_clock w)) (old\<lparr>fe_Status := fe_Status fe\<rparr>)"
  have key: "fe_key ?new = fe_key fe" using lookup_key [OF Some] by simp
  show ?thesis
  proof (cases "fe_version old = fe_version fe")
    case True
    then have w': "w' = vs_put ?new w" using assms(2) Some by (simp add: vs_update_def Let_def)
    have "vs_ok w'" unfolding w' using Some key by (intro vs_put_ok [OF assms(1), of _ old]) simp_all
    moreover have "status_written (vs_stored w) fe (vs_stored w')"
      using Some True key by (auto simp: status_written_def w' vs_put_stored simp del: with_version_sel)
    ultimately show ?thesis by (auto simp: w' vs_put_def)
  qed (use assms Some in \<open>auto simp: vs_update_def\<close>)
qed

lemma vs_users_law:
  assumes "vs_users w w'" and "vs_ok w"
  shows "vs_ok w' \<and> set (vs_history w) \<subseteq> set (vs_history w') \<and> claims_kept vs_stored (\<lambda>w. set (vs_gone w)) w w'"
  using assms
proof cases
  case catches_up
  then show ?thesis using assms(2) by (auto simp: vs_ok_def claims_kept_def claim_kept_refl)
next
  case (created fe)
  have "vs_ok w'" unfolding created(1) by (rule vs_put_ok [OF assms(2)]) simp_all
  then show ?thesis using created
    by (auto simp: vs_put_stored claims_kept_def claim_kept_refl) (auto simp: vs_put_def)
next
  case (edited n old spec)
  have key: "fe_key old = n" using lookup_key [OF edited(2)] by simp
  have "vs_ok w'" unfolding edited(1) using edited(2) key by (intro vs_put_ok [OF assms(2), of _ old]) simp_all
  then show ?thesis using edited key
    by (auto simp: vs_put_stored claims_kept_def claim_kept_refl claim_kept_def) (auto simp: vs_put_def)
next
  case (deleted n old)
  have objs: "vs_stored w' = (vs_stored w)(n := None)"
    using store_deletes [of fe_key n "vs_objects w"] deleted(1) by (auto simp: fun_eq_iff)
  have "old \<in> set (vs_history w)" using assms(2) lookup_key [OF deleted(2)] by (auto simp: vs_ok_def)
  then have "vs_ok w'" using assms(2) deleted unfolding vs_ok_def objs by (auto split: if_splits)
  then show ?thesis using deleted objs by (auto simp: claims_kept_def claim_kept_refl)
qed

interpretation versions: claiming versioned_kube vs_stored "\<lambda>w. set (vs_gone w)" "\<lambda>w. set (vs_history w)" vs_ok vs_users
proof unfold_locales
  fix w w' :: versioned and fe upd n opts res
  assume ok: "vs_ok w"
  show "vs_stored w n = Some fe \<Longrightarrow> fe \<in> set (vs_history w)" "vs_stored w n = Some fe \<Longrightarrow> fe_key fe = n"
    "vs_stored w n = Some fe \<Longrightarrow> fe_UID fe \<notin> set (vs_gone w)"
    using ok lookup_key [of fe_key "vs_objects w" n fe] by (auto simp: vs_ok_def)
  show "fe = fe'" if "fe \<in> set (vs_history w)" "fe' \<in> set (vs_history w)" "fe_key fe = fe_key fe'" "fe_version fe = fe_version fe'" for fe'
    using ok that unfolding vs_ok_def by blast
  show "vs_ok w' \<and> vs_stored w' = vs_stored w \<and> set (vs_gone w') = set (vs_gone w) \<and> set (vs_history w') = set (vs_history w)
      \<and> (\<forall>l. res = Inr l \<longrightarrow> set (fel_Items l) \<subseteq> set (vs_history w))"
    if "ListFrontends versioned_kube opts w = (res, w')"
    using that ok by (auto simp: versioned_kube_sel vs_list_def vs_ok_def)
  show "vs_ok w' \<and> set (vs_gone w') = set (vs_gone w) \<and> set (vs_history w) \<subseteq> set (vs_history w')
      \<and> (status_written (vs_stored w) fe (vs_stored w') \<or> vs_stored w' = vs_stored w \<and> (\<exists>f. upd = Inl f))"
    if "UpdateFrontendStatus versioned_kube fe w = (upd, w')"
    using that vs_update_law [OF ok] by (simp add: versioned_kube_sel)
  show "vs_ok w' \<and> set (vs_history w) \<subseteq> set (vs_history w') \<and> claims_kept vs_stored (\<lambda>w. set (vs_gone w)) w w'" if "vs_users w w'"
    using vs_users_law [OF that ok] .
qed

text \<open>Two load balancers race for one frontend: both have read it unclaimed, the second to write is refused.\<close>

definition unclaimed :: Frontend where
  "unclaimed = vs_identity 0 (sample_frontend ''web'' None None)"

definition rival :: GlobalLoadBalancer where
  "rival = (sample_lb 1)\<lparr>lb_ObjectMeta := named_meta ''rival'' ''glb''\<rparr>"

definition race :: "versioned claims" where
  "race = \<lparr>cs_runs = (\<lambda>_. Resting), cs_world = \<lparr>vs_objects = [unclaimed], vs_cache = [unclaimed], vs_history = [unclaimed], vs_gone = [], vs_clock = 1\<rparr>, cs_won = []\<rparr>"

lemma race_ok: "vs_ok (cs_world race)"
  by (auto simp: race_def vs_ok_def unclaimed_def dest!: lookup_key)

lemma race_reads:
  assumes "lb \<in> {sample_lb 1, rival}"
  shows "claimer_step versioned_kube sample_reconciler (Listing lb) (cs_world race) = (Inl (Claiming lb [unclaimed] 10240 [unclaimed]), cs_world race)"
proof -
  have "LabelSelectorAsSelector versioned_kube (lbs_FrontendSelector (lb_Spec lb)) = Inr (\<lambda>_. True)"
    using assms by (auto simp: versioned_kube_sel mem_selector_def rival_def sample_lb_def)
  then have "getFrontends versioned_kube lb False (cs_world race) = (Inr [unclaimed], cs_world race)"
    by (simp add: getFrontends_run versioned_kube_sel vs_list_def mem_chosen_def race_def eligible_def)
      (simp add: unclaimed_def)
  moreover have "GetNextPort [unclaimed] 10240 = 10240" by (simp add: GetNextPort_def unclaimed_def)
  ultimately show ?thesis by (simp add: sample_reconciler_def)
qed

lemma race_writes:
  fixes w
  defines "w \<equiv> snd (vs_update (fst (assign_frontend (sample_lb 1) 10240 unclaimed)) (cs_world race))"
  shows "\<exists>p. claimer_step versioned_kube sample_reconciler (Claiming (sample_lb 1) [unclaimed] 10240 [unclaimed]) (cs_world race) =
      (Inl (Claiming (sample_lb 1) [unclaimed] p []), w)"
    and "told versioned_kube (Claiming (sample_lb 1) [unclaimed] 10240 [unclaimed]) (cs_world race) = [(NN ''glb'' ''web'', show_nat 0, \<lparr>lbr_Name = ''lb'', lbr_Namespace = ''glb''\<rparr>)]"
    and "claimer_step versioned_kube sample_reconciler (Claiming rival [unclaimed] 10240 [unclaimed]) w = (Inl (Claiming rival [unclaimed] 10240 []), w)"
    and "told versioned_kube (Claiming rival [unclaimed] 10240 [unclaimed]) w = []" and "vs_gone w = []"
proof -
  have un: "fe_Status unclaimed = \<lparr>fest_Conditions = [], fest_Port = None, fest_LoadBalancer = None\<rparr>" "fe_key unclaimed = NN ''glb'' ''web''"
    "fe_version unclaimed = show_nat 0" "fe_UID unclaimed = show_nat 0"
    by (simp_all add: unclaimed_def)
  have lb: "lb_Name (sample_lb 1) = ''lb''" "lb_Namespace (sample_lb 1) = ''glb''" by simp_all
  have fst: "fst (assign_frontend lb 10240 unclaimed) = unclaimed\<lparr>fe_Status := \<lparr>fest_Conditions = [], fest_Port = Some 10240,
      fest_LoadBalancer = Some \<lparr>lbr_Name = lb_Name lb, lbr_Namespace = lb_Namespace lb\<rparr>\<rparr>\<rparr>"
    "assign_frontend lb 10240 unclaimed = (fst (assign_frontend lb 10240 unclaimed), True)" for lb
    by (simp_all add: assign_frontend_def un)
  obtain new where up: "vs_update (fst (assign_frontend (sample_lb 1) 10240 unclaimed)) (cs_world race) = (Inr new, w)" "vs_objects w = [new]"
    "fe_version new = show_nat 1" "fe_key new = NN ''glb'' ''web''" "vs_gone w = []"
    by (simp add: w_def vs_update_def vs_put_def race_def lookup_def store_def fst(1) un Let_def)
  have no: "vs_update (fst (assign_frontend rival 10240 unclaimed)) w = (Inl (Err (OtherErr ''the object has been modified'')), w)"
    using up by (simp add: vs_update_def lookup_def fst(1) un show_nat_eq)
  show "\<exists>p. claimer_step versioned_kube sample_reconciler (Claiming (sample_lb 1) [unclaimed] 10240 [unclaimed]) (cs_world race) =
      (Inl (Claiming (sample_lb 1) [unclaimed] p []), w)"
    by (subst claimer_step.simps, subst fst(2)) (simp add: versioned_kube_sel up(1))
  show "told versioned_kube (Claiming (sample_lb 1) [unclaimed] 10240 [unclaimed]) (cs_world race) = [(NN ''glb'' ''web'', show_nat 0, \<lparr>lbr_Name = ''lb'', lbr_Namespace = ''glb''\<rparr>)]"
    by (subst told.simps, subst fst(2)) (simp add: versioned_kube_sel up(1), simp add: fst(1) un lb)
  show "claimer_step versioned_kube sample_reconciler (Claiming rival [unclaimed] 10240 [unclaimed]) w = (Inl (Claiming rival [unclaimed] 10240 []), w)"
    by (subst claimer_step.simps, subst fst(2)) (simp add: versioned_kube_sel no)
  show "vs_gone w = []" by (rule up(5))
  show "told versioned_kube (Claiming rival [unclaimed] 10240 [unclaimed]) w = []"
    by (subst told.simps, subst fst(2)) (simp add: versioned_kube_sel no)
qed

abbreviation two :: "claimer \<Rightarrow> claimer \<Rightarrow> 'w \<Rightarrow> win list \<Rightarrow> 'w claims" where
  "two c d w won \<equiv> \<lparr>cs_runs = (\<lambda>_. Resting)(0 := c, 1 := d), cs_world = w, cs_won = won\<rparr>"

lemma two_begin:
  "claims_step k r users (Begins 0 lb) (two Resting d w won) (two (Listing lb) d w won)"
  "claims_step k r users (Begins 1 lb) (two c Resting w won) (two c (Listing lb) w won)"
  using begins [of "two Resting d w won" 0 k r users lb] begins [of "two c Resting w won" 1 k r users lb]
  by (simp_all add: fun_upd_twist)

lemma two_step:
  "claimer_step k r c w = (Inl c', w') \<Longrightarrow> c \<noteq> Resting \<Longrightarrow> claims_step k r users (Runs 0) (two c d w won) (two c' d w' (told k c w @ won))"
  "claimer_step k r d w = (Inl d', w') \<Longrightarrow> d \<noteq> Resting \<Longrightarrow> claims_step k r users (Runs 1) (two c d w won) (two c d' w' (told k d w @ won))"
  using goes_on [of "two c d w won" 0 k r c' w' users] goes_on [of "two c d w won" 1 k r d' w' users]
  by (simp_all add: fun_upd_twist)

theorem claims_exclusive_witness:
  "\<exists>t fe. claims_steps versioned_kube sample_reconciler vs_users race t \<and> cs_runs t 1 = Claiming rival [unclaimed] 10240 []
     \<and> vs_stored (cs_world t) (NN ''glb'' ''web'') = Some fe \<and> fe_Owner fe = Some \<lparr>lbr_Name = ''lb'', lbr_Namespace = ''glb''\<rparr>"
proof -
  let ?k = versioned_kube and ?r = sample_reconciler
  let ?do = "claims_step ?k ?r vs_users" and ?step = "\<lambda>s t. \<exists>a. claims_step ?k ?r vs_users a s t"
  let ?lb = "sample_lb 1" and ?w = "cs_world race" and ?won = "[(NN ''glb'' ''web'', show_nat 0, \<lparr>lbr_Name = ''lb'', lbr_Namespace = ''glb''\<rparr>)]"
  let ?c = "\<lambda>lb. Claiming lb [unclaimed] 10240 [unclaimed]"
  obtain w p where wr: "claimer_step ?k ?r (?c ?lb) ?w = (Inl (Claiming ?lb [unclaimed] p []), w)" "told ?k (?c ?lb) ?w = ?won"
    "claimer_step ?k ?r (?c rival) w = (Inl (Claiming rival [unclaimed] 10240 []), w)" "told ?k (?c rival) w = []"
    "vs_gone w = []"
    using race_writes by blast
  have race: "race = two Resting Resting ?w []" by (simp add: race_def fun_eq_iff)
  have s1: "?do (Begins 0 ?lb) (two Resting Resting ?w []) (two (Listing ?lb) Resting ?w [])" by (rule two_begin)
  have s2: "?do (Begins 1 rival) (two (Listing ?lb) Resting ?w []) (two (Listing ?lb) (Listing rival) ?w [])" by (rule two_begin)
  have s3: "?do (Runs 0) (two (Listing ?lb) (Listing rival) ?w []) (two (?c ?lb) (Listing rival) ?w [])"
    using two_step(1) [OF race_reads [of ?lb], of vs_users "Listing rival" "[]"] by simp
  have s4: "?do (Runs 1) (two (?c ?lb) (Listing rival) ?w []) (two (?c ?lb) (?c rival) ?w [])"
    using two_step(2) [OF race_reads [of rival], of vs_users "?c ?lb" "[]"] by simp
  have s5: "?do (Runs 0) (two (?c ?lb) (?c rival) ?w []) (two (Claiming ?lb [unclaimed] p []) (?c rival) w ?won)"
    using two_step(1) [OF wr(1), of vs_users "?c rival" "[]"] by (simp add: wr(2) del: told.simps)
  have "?step\<^sup>*\<^sup>* (two Resting Resting ?w []) (two (Claiming ?lb [unclaimed] p []) (?c rival) w ?won)"
    using s1 s2 s3 s4 s5 by (blast intro: converse_rtranclp_into_rtranclp [where r = ?step])
  then have s: "?step\<^sup>*\<^sup>* race (two (Claiming ?lb [unclaimed] p []) (?c rival) w ?won)" by (simp only: race [symmetric])
  let ?t = "two (Claiming ?lb [unclaimed] p []) (Claiming rival [unclaimed] 10240 []) w ?won"
  have "?do (Runs 1) (two (Claiming ?lb [unclaimed] p []) (?c rival) w ?won) ?t"
    using two_step(2) [OF wr(3), of vs_users "Claiming ?lb [unclaimed] p []" ?won] by (simp add: wr(4) del: told.simps)
  then have t: "?step\<^sup>*\<^sup>* (two (Claiming ?lb [unclaimed] p []) (?c rival) w ?won) ?t" by blast
  have ok: "vs_ok ?w" by (rule race_ok)
  have start: "\<forall>i. cs_runs race i = Resting" "cs_won race = []" by (simp_all add: race_def)
  from claims_exclusive [OF versions.claiming_axioms ok start s t]
  have "\<exists>fe. vs_stored (cs_world ?t) (NN ''glb'' ''web'') = Some fe \<and> fe_Owner fe = Some \<lparr>lbr_Name = ''lb'', lbr_Namespace = ''glb''\<rparr>" by (auto simp: wr(5))
  moreover have "?step\<^sup>*\<^sup>* race ?t" using s t by (rule rtranclp_trans)
  moreover have "cs_runs ?t 1 = Claiming rival [unclaimed] 10240 []" by simp
  ultimately show ?thesis by blast
qed

end
