(* ===== verification/Claim_Liveness.thy ===== *)
theory Claim_Liveness
  imports Concurrent_Claims Fair_Runs
begin

text \<open>
  Claims come about: on every fair interleaving of claiming runs, a frontend that a load balancer selects and that users
  leave alone has an owner and a port in the end. The reason is that a status update is refused only when somebody else
  has written the object first, and every write of a claiming run claims it. A run that keeps reconciling shows that the
  hypotheses can be met, even with a cache that is never brought up to date.
\<close>

section \<open>What a step does to one frontend\<close>

text \<open>
  What the API has to do for a claim to come about: the object is listed for the selector as it is stored, an update
  that carries its stored version is accepted, and no update panics. Nothing is asked about updates of other objects.
\<close>

definition served :: "'w kube \<Rightarrow> selector \<Rightarrow> Frontend \<Rightarrow> 'w \<Rightarrow> bool" where
  "served k sel fe w \<longleftrightarrow>
     (\<exists>l. fst (ListFrontends k \<lparr>lo_LabelSelector = Some sel, lo_Namespace = None\<rparr> w) = Inr l \<and> fe \<in> set (fel_Items l))
     \<and> (\<forall>x. fe_key x = fe_key fe \<and> fe_version x = fe_version fe \<longrightarrow> (\<exists>y. fst (UpdateFrontendStatus k x w) = Inr y))
     \<and> (\<forall>x p. fst (UpdateFrontendStatus k x w) \<noteq> Inl (Panic p))"

text \<open>What a step may make of one frontend: it writes the owner and the port that were missing.\<close>

definition claimed_from :: "Frontend \<Rightarrow> Frontend \<Rightarrow> bool" where
  "claimed_from old new \<longleftrightarrow> (\<exists>lb p v. new = with_version v (old\<lparr>fe_Status := fe_Status (fst (assign_frontend lb p old))\<rparr>))"

lemma claimed_from_facts:
  assumes "claimed_from old new"
  shows "claim_kept old new" and "fe_Owner new \<noteq> None" and "fe_Port new \<noteq> None"
  using assms assign_keeps by (auto simp: claimed_from_def assign_facts split: option.splits)

context claiming
begin

lemma update_object:
  assumes "world_ok w" and "fe \<in> history w" and "UpdateFrontendStatus k (fst (assign_frontend lb p fe)) w = (upd, w')"
  shows "gone w' = gone w" and "stored w' n = stored w n \<or> stored w n = Some fe \<and> fe_key fe = n \<and> (\<exists>new. stored w' n = Some new \<and> claimed_from fe new)"
    and "upd = Inr x \<Longrightarrow> \<exists>new. stored w' (fe_key fe) = Some new \<and> claimed_from fe new"
proof -
  note checks = update_checks [OF assms(1,3)]
  have written: "stored w (fe_key fe) = Some fe \<and> (\<exists>new. stored w' = (stored w)(fe_key fe \<mapsto> new) \<and> claimed_from fe new)"
    if "status_written (stored w) (fst (assign_frontend lb p fe)) (stored w')"
    using write_adds [OF assms(1,2) that] unfolding claimed_from_def by blast
  show "gone w' = gone w" using checks by blast
  show "stored w' n = stored w n \<or> stored w n = Some fe \<and> fe_key fe = n \<and> (\<exists>new. stored w' n = Some new \<and> claimed_from fe new)"
    using checks written by (cases "n = fe_key fe") auto
  show "upd = Inr x \<Longrightarrow> \<exists>new. stored w' (fe_key fe) = Some new \<and> claimed_from fe new"
    using checks written by auto
qed

lemma claimer_object:
  assumes "world_ok w" and "set (held c) \<subseteq> history w" and "claimer_step k r c w = (out, w')"
  shows "gone w' = gone w \<and> (stored w' n = stored w n \<or> (\<exists>old new. stored w n = Some old \<and> stored w' n = Some new \<and> claimed_from old new))"
proof (cases "(k, r, c, w)" rule: claimer_step.cases)
  case (2 k' r' lb w0)
  obtain res v where get: "getFrontends k lb False w = (res, v)" by fastforce
  from getFrontends_history [OF assms(1) this] show ?thesis
    using 2 assms(3) get by (cases res) auto
next
  case (4 k' r' lb fes p fe rest w0)
  obtain res v where call: "UpdateFrontendStatus k (fst (assign_frontend lb p fe)) w = (res, v)" by fastforce
  have "w' = (if needs_write fe then v else w)"
    using 4 assms(3) call by (auto simp: Let_def case_prod_beta split: sum.splits fault.splits if_splits)
  moreover have "fe \<in> history w" using 4 assms(2) by auto
  ultimately show ?thesis using update_object(1,2) [OF assms(1) _ call] by (metis (full_types))
qed (use assms in auto)

text \<open>A step that is not taken outside leaves an object as it is or claims it.\<close>

lemma step_object:
  assumes "claims_inv stored gone history world_ok s" and "claims_step k r users a s t" and "a \<noteq> Outside"
  shows "gone (cs_world t) = gone (cs_world s) \<and> (stored (cs_world t) n = stored (cs_world s) n
    \<or> (\<exists>old new. stored (cs_world s) n = Some old \<and> stored (cs_world t) n = Some new \<and> claimed_from old new))"
proof -
  have ok: "world_ok (cs_world s)" and held: "\<And>i. set (held (cs_runs s i)) \<subseteq> history (cs_world s)"
    using assms(1) by (auto simp: claims_inv_def)
  from assms(2,3) show ?thesis
    by cases (use claimer_object [OF ok held] in auto)
qed

text \<open>The run that has listed the frontend comes to it, and the write that it then sends is accepted.\<close>

lemma runs_shrink:
  assumes inv: "claims_inv stored gone history world_ok s" and step: "claims_step k r users (Runs i) s t"
    and fe: "fe \<in> set (held (cs_runs s i))" "served k sel fe (cs_world s)" "fe_Owner fe = None"
  shows "fe \<in> set (held (cs_runs t i)) \<and> length (held (cs_runs t i)) < length (held (cs_runs s i))
    \<or> (\<exists>new. stored (cs_world t) (fe_key fe) = Some new \<and> claimed_from fe new)"
proof -
  obtain lb fes p x rest where run: "cs_runs s i = Claiming lb fes p (x # rest)"
    using fe(1) by (cases "cs_runs s i"; cases "held (cs_runs s i)") auto
  have ok: "world_ok (cs_world s)" and x: "x \<in> history (cs_world s)" using inv run by (auto simp: claims_inv_def) (metis held.simps(1) insert_subset list.simps(15))
  obtain res v where call: "UpdateFrontendStatus k (fst (assign_frontend lb p x)) (cs_world s) = (res, v)" by fastforce
  have nopanic: "res \<noteq> Inl (Panic q)" for q using fe(2) call unfolding served_def by (metis fst_conv)
  have out: "\<exists>p'. claimer_step k r (cs_runs s i) (cs_world s) = (Inl (Claiming lb fes p' rest), if needs_write x then v else cs_world s)"
    using run call nopanic by (auto simp: Let_def case_prod_beta split: sum.splits fault.splits)
  then have t: "held (cs_runs t i) = rest" "cs_world t = (if needs_write x then v else cs_world s)"
    using step by (auto elim!: claims_runs)
  show ?thesis
  proof (cases "x = fe")
    case True
    then obtain y where "res = Inr y" using fe(2) call unfolding served_def by (metis assign_key fst_conv)
    then show ?thesis using update_object(3) [OF ok x call] t True fe(3) by (simp add: needs_write_def)
  next
    case False
    then show ?thesis using fe(1) run t by auto
  qed
qed

lemma runs_list:
  assumes "claims_step k r users (Runs i) s t" and "cs_runs s i = Listing lb" and "served k sel fe (cs_world s)" and "fe_Owner fe = None"
    and "LabelSelectorAsSelector k (lbs_FrontendSelector (lb_Spec lb)) = Inr sel"
  shows "fe \<in> set (held (cs_runs t i))"
proof -
  obtain l w where l: "ListFrontends k \<lparr>lo_LabelSelector = Some sel, lo_Namespace = None\<rparr> (cs_world s) = (Inr l, w)" "fe \<in> set (fel_Items l)"
    using assms(3) unfolding served_def by (metis prod.collapse)
  then have "getFrontends k lb False (cs_world s) = (Inr (filter (eligible lb False) (fel_Items l)), w)"
    using assms(5) by (simp add: getFrontends_run)
  moreover have "eligible lb False fe" using assms(4) by (simp add: eligible_def)
  ultimately show ?thesis using assms(1,2) l(2) by (auto elim!: claims_runs)
qed

lemma runs_enabled: "cs_runs s i \<noteq> Resting \<Longrightarrow> enabled (claims_step k r users) (Runs i) s"
  unfolding enabled_def using goes_on [of s i k r _ _ users] ends [of k r s i _ _ users]
  by (cases "claimer_step k r (cs_runs s i) (cs_world s)"; cases "fst (claimer_step k r (cs_runs s i) (cs_world s))") fastforce+

lemma other_run: "claims_step k r users a s t \<Longrightarrow> a \<noteq> Runs i \<Longrightarrow> cs_runs s i \<noteq> Resting \<Longrightarrow> cs_runs t i = cs_runs s i"
  by (erule claims_step.cases) auto

end

section \<open>The frontend is claimed\<close>

text \<open>
  A run in which the frontend is left alone from outside: users do not touch it, while they do anything else; the load balancer
  that selects it is reconciled again and again, and its run is scheduled. If the frontend never changes, the cache comes
  to show it and the API to accept updates of it.
\<close>

locale claiming_run = claiming +
  fixes r and ls :: "nat \<Rightarrow> claims_label" and \<sigma> :: "nat \<Rightarrow> 'a claims" and n fe i lb sel
  assumes run: "labelled_run (claims_step k r users) ls \<sigma>" and start: "claims_inv stored gone history world_ok (\<sigma> 0)"
    and unclaimed: "stored (cs_world (\<sigma> 0)) n = Some fe" "fe_Owner fe = None"
    and alone: "ls j = Outside \<Longrightarrow> stored (cs_world (\<sigma> (Suc j))) n = stored (cs_world (\<sigma> j)) n"
    and selects: "LabelSelectorAsSelector k (lbs_FrontendSelector (lb_Spec lb)) = Inr sel"
    and again: "\<exists>j \<ge> m. ls j = Begins i lb" and fair: "weakly_fair (claims_step k r users) ls \<sigma> (Runs i)"
    and settles: "(\<And>j. stored (cs_world (\<sigma> j)) n = Some fe) \<Longrightarrow> \<exists>m. \<forall>j \<ge> m. served k sel fe (cs_world (\<sigma> j))"
begin

lemma inv: "claims_inv stored gone history world_ok (\<sigma> j)"
  using start claims_step_keeps [OF _ labelled_runD [OF run]] by (induction j) blast+

lemma ok: "world_ok (cs_world (\<sigma> j))"
  using inv by (simp add: claims_inv_def)

lemma object_step: "stored (cs_world (\<sigma> (Suc j))) n = stored (cs_world (\<sigma> j)) n
    \<or> (\<exists>old new. stored (cs_world (\<sigma> j)) n = Some old \<and> stored (cs_world (\<sigma> (Suc j))) n = Some new \<and> claimed_from old new)"
  using step_object [OF inv labelled_runD [OF run]] alone by blast

text \<open>It does not stay as it is.\<close>

lemma run_comes:
  assumes "\<And>j. stored (cs_world (\<sigma> j)) n = Some fe"
  shows "\<exists>m j. m \<le> j \<and> fe \<in> set (held (cs_runs (\<sigma> j) i)) \<and> (\<forall>j \<ge> m. served k sel fe (cs_world (\<sigma> j)))"
proof -
  obtain m where m: "\<And>j. m \<le> j \<Longrightarrow> served k sel fe (cs_world (\<sigma> j))" using settles [OF assms] by blast
  obtain j where j: "m \<le> j" "ls j = Begins i lb" using again by blast
  have "\<exists>j' \<ge> Suc j. fe \<in> set (held (cs_runs (\<sigma> j') i))"
  proof (rule progress [where a = "Runs i" and \<mu> = "\<lambda>_. 0" and P = "\<lambda>j. cs_runs (\<sigma> j) i = Listing lb", OF _ _ _ fair])
    show "cs_runs (\<sigma> (Suc j)) i = Listing lb" using labelled_runD [OF run, of j] j(2) by (auto elim!: claims_begins)
    fix j'
    assume j': "Suc j \<le> j'" "cs_runs (\<sigma> j') i = Listing lb"
    have fe: "fe \<in> set (held (cs_runs (\<sigma> (Suc j')) i))" if "ls j' = Runs i"
      using runs_list [OF _ j'(2) _ unclaimed(2) selects, of r "\<sigma> (Suc j')"] labelled_runD [OF run, of j'] that m j(1) j'(1) by simp
    then show "cs_runs (\<sigma> (Suc j')) i = Listing lb \<and> 0 \<le> (0::nat) \<or> fe \<in> set (held (cs_runs (\<sigma> (Suc j')) i))"
      "ls j' = Runs i \<Longrightarrow> 0 < (0::nat) \<or> fe \<in> set (held (cs_runs (\<sigma> (Suc j')) i))"
      using other_run [OF labelled_runD [OF run, of j'], of i] j'(2) by auto
    show "enabled (claims_step k r users) (Runs i) (\<sigma> j')" using runs_enabled j'(2) by simp
  qed
  then show ?thesis using m j(1) by (meson Suc_leD order_trans)
qed

lemma object_changes: "\<exists>j. stored (cs_world (\<sigma> j)) n \<noteq> Some fe"
proof (rule ccontr)
  assume "\<not> ?thesis"
  then have same: "\<And>j. stored (cs_world (\<sigma> j)) n = Some fe" by blast
  from run_comes [OF this] obtain m j where j: "m \<le> j" "fe \<in> set (held (cs_runs (\<sigma> j) i))"
    and m: "\<And>j. m \<le> j \<Longrightarrow> served k sel fe (cs_world (\<sigma> j))" by blast
  have key: "fe_key fe = n" using stored_key [OF ok same] .
  have "\<exists>j' \<ge> j. False"
  proof (rule progress [where a = "Runs i" and \<mu> = "\<lambda>j. length (held (cs_runs (\<sigma> j) i))"
        and P = "\<lambda>j. fe \<in> set (held (cs_runs (\<sigma> j) i))", OF _ _ _ fair j(2)])
    fix j'
    assume j': "j \<le> j'" "fe \<in> set (held (cs_runs (\<sigma> j') i))"
    have "\<not> claimed_from fe fe" using claimed_from_facts(2) unclaimed(2) by blast
    then have shrinks: "fe \<in> set (held (cs_runs (\<sigma> (Suc j')) i)) \<and> length (held (cs_runs (\<sigma> (Suc j')) i)) < length (held (cs_runs (\<sigma> j') i))"
      if "ls j' = Runs i"
      using runs_shrink [OF inv _ j'(2) _ unclaimed(2), of r "\<sigma> (Suc j')" sel] labelled_runD [OF run, of j'] that m [of j'] j(1) j'(1) same key by auto
    have "cs_runs (\<sigma> j') i \<noteq> Resting" using j'(2) by auto
    then show "enabled (claims_step k r users) (Runs i) (\<sigma> j')"
      "fe \<in> set (held (cs_runs (\<sigma> (Suc j')) i)) \<and> length (held (cs_runs (\<sigma> (Suc j')) i)) \<le> length (held (cs_runs (\<sigma> j') i)) \<or> False"
      using runs_enabled shrinks other_run [OF labelled_runD [OF run, of j'], of i] j'(2) by (blast, cases "ls j' = Runs i", auto)
    show "ls j' = Runs i \<Longrightarrow> length (held (cs_runs (\<sigma> (Suc j')) i)) < length (held (cs_runs (\<sigma> j') i)) \<or> False"
      using shrinks by blast
  qed
  then show False by blast
qed

lemma object_claimed: "\<exists>j new. stored (cs_world (\<sigma> j)) n = Some new \<and> claimed_from fe new"
proof -
  obtain j where j: "stored (cs_world (\<sigma> j)) n \<noteq> Some fe" "\<And>j'. j' < j \<Longrightarrow> stored (cs_world (\<sigma> j')) n = Some fe"
    using exists_least_iff [of "\<lambda>j. stored (cs_world (\<sigma> j)) n \<noteq> Some fe"] object_changes by blast
  then obtain j' where "j = Suc j'" using unclaimed(1) by (cases j) auto
  then show ?thesis using j object_step [of j'] by auto
qed

lemma claim_stays:
  assumes "stored (cs_world (\<sigma> m)) n = Some new" and "m \<le> j"
  shows "\<exists>fe. stored (cs_world (\<sigma> j)) n = Some fe \<and> claim_kept new fe"
  using assms(2)
proof (induction rule: dec_induct)
  case base
  show ?case using assms(1) claim_kept_refl by blast
next
  case (step j)
  then show ?case using object_step [of j] claimed_from_facts(1) claim_kept_trans by fastforce
qed

end

text \<open>
  C7: a frontend that a load balancer selects is claimed in the end. Let operators claim concurrently as above, and let a frontend
  without an owner be left alone by users while they do anything else. If a load balancer that selects it is
  reconciled again and again by one of the operators (as the resync of its cache makes it), whose steps are scheduled fairly, and if the cache of that
  operator comes to show the frontend, should it stay as it is, and the API server to accept updates with its
  version, then from some time on the frontend has an owner and a port, which are never changed again. It may be another load
  balancer that gets there first; nobody is starved by conflicts, since whoever causes one has claimed the frontend.
\<close>

theorem frontend_claimed_eventually:
  assumes "claiming k stored gone history world_ok users"
    and "labelled_run (claims_step k r users) ls \<sigma>" and "world_ok (cs_world (\<sigma> 0))" and "\<forall>i. cs_runs (\<sigma> 0) i = Resting" and "cs_won (\<sigma> 0) = []"
    and "stored (cs_world (\<sigma> 0)) n = Some fe" and "fe_Owner fe = None"
    and "\<forall>j. ls j = Outside \<longrightarrow> stored (cs_world (\<sigma> (Suc j))) n = stored (cs_world (\<sigma> j)) n"
    and "LabelSelectorAsSelector k (lbs_FrontendSelector (lb_Spec lb)) = Inr sel"
    and "\<forall>m. \<exists>j \<ge> m. ls j = Begins i lb" and "weakly_fair (claims_step k r users) ls \<sigma> (Runs i)"
    and "(\<forall>j. stored (cs_world (\<sigma> j)) n = Some fe) \<longrightarrow> (\<exists>m. \<forall>j \<ge> m. served k sel fe (cs_world (\<sigma> j)))"
  shows "\<exists>m ref p. \<forall>j \<ge> m. \<exists>new. stored (cs_world (\<sigma> j)) n = Some new \<and> fe_UID new = fe_UID fe
    \<and> fe_Owner new = Some ref \<and> fe_Port new = Some p"
proof -
  have "claims_inv stored gone history world_ok (\<sigma> 0)" using assms(3-5) by (simp add: claims_inv_def)
  then have run: "claiming_run k stored gone history world_ok users r ls \<sigma> n fe i lb sel"
    by (intro claiming_run.intro claiming_run_axioms.intro) (use assms in blast)+
  obtain m new where m: "stored (cs_world (\<sigma> m)) n = Some new" "claimed_from fe new"
    using claiming_run.object_claimed [OF run] by blast
  then obtain ref p where new: "fe_Owner new = Some ref" "fe_Port new = Some p" "fe_UID new = fe_UID fe"
    using claimed_from_facts [OF m(2)] by (auto simp: claim_kept_def)
  have "\<exists>x. stored (cs_world (\<sigma> j)) n = Some x \<and> fe_UID x = fe_UID fe \<and> fe_Owner x = Some ref \<and> fe_Port x = Some p" if "m \<le> j" for j
    using claiming_run.claim_stays [OF run m(1) that] new by (auto simp: claim_kept_def)
  then show ?thesis by blast
qed

section \<open>One operator that keeps reconciling\<close>

text \<open>The run of number 0, for one load balancer, always takes the next step, and begins again when it has ended.\<close>

definition next_claim :: "GlobalLoadBalancer \<Rightarrow> 'w claims \<Rightarrow> claims_label" where
  "next_claim lb s = (if cs_runs s 0 = Resting then Begins 0 lb else Runs 0)"

definition claim_on :: "'w kube \<Rightarrow> GlobalLoadBalancerReconciler \<Rightarrow> GlobalLoadBalancer \<Rightarrow> 'w claims \<Rightarrow> 'w claims" where
  "claim_on k r lb s =
     (if cs_runs s 0 = Resting then s\<lparr>cs_runs := (cs_runs s)(0 := Listing lb)\<rparr>
      else case claimer_step k r (cs_runs s 0) (cs_world s) of
             (Inl c, w) \<Rightarrow> s\<lparr>cs_runs := (cs_runs s)(0 := c), cs_world := w, cs_won := told k (cs_runs s 0) (cs_world s) @ cs_won s\<rparr>
           | (Inr res, w) \<Rightarrow> s\<lparr>cs_runs := (cs_runs s)(0 := Resting), cs_world := w\<rparr>)"

lemma claim_on_step: "claims_step k r users (next_claim lb s) s (claim_on k r lb s)"
  using begins [of s 0 k r users lb] goes_on [of s 0 k r _ _ users] ends [of k r s 0 _ _ users]
  by (auto simp: next_claim_def claim_on_def split: prod.splits sum.splits)

abbreviation claim_run :: "'w kube \<Rightarrow> GlobalLoadBalancerReconciler \<Rightarrow> GlobalLoadBalancer \<Rightarrow> 'w claims \<Rightarrow> nat \<Rightarrow> 'w claims" where
  "claim_run k r lb s i \<equiv> (claim_on k r lb ^^ i) s"

text \<open>Every run ends, so it begins again and again, and its steps are taken.\<close>

lemma claim_rests: "\<exists>i. cs_runs (claim_run k r lb s i) 0 = Resting"
proof (induction s rule: wf_induct_rule [OF wf_measures, of "[\<lambda>s. claimer_stage (cs_runs s 0), \<lambda>s. length (held (cs_runs s 0))]"])
  case (1 s)
  show ?case
  proof (cases "cs_runs s 0 = Resting")
    case True
    then show ?thesis by (intro exI [of _ 0]) simp
  next
    case False
    obtain out w where out: "claimer_step k r (cs_runs s 0) (cs_world s) = (out, w)" by fastforce
    have "\<exists>i. cs_runs (claim_run k r lb (claim_on k r lb s) i) 0 = Resting"
    proof (cases out)
      case (Inl c)
      then have "cs_runs (claim_on k r lb s) 0 = c" using out False by (simp add: claim_on_def)
      then show ?thesis using 1 [of "claim_on k r lb s"] claimer_step_less [of k r "cs_runs s 0" "cs_world s" c w] Inl out False
        by (auto simp: in_measures)
    next
      case (Inr res)
      then show ?thesis using out False by (intro exI [of _ 0]) (simp add: claim_on_def)
    qed
    then obtain i where "cs_runs (claim_run k r lb s (Suc i)) 0 = Resting" by (auto simp: funpow_swap1)
    then show ?thesis by blast
  qed
qed

lemma claim_again:
  "\<exists>j \<ge> m. next_claim lb (claim_run k r lb s j) = Begins 0 lb" "\<exists>j \<ge> m. next_claim lb (claim_run k r lb s j) = Runs 0"
proof -
  obtain i where i: "cs_runs (claim_run k r lb s (i + m)) 0 = Resting" using claim_rests [of k r lb "claim_run k r lb s m"] by (auto simp: funpow_add)
  then have "next_claim lb (claim_run k r lb s (i + m)) = Begins 0 lb" by (simp add: next_claim_def)
  then show "\<exists>j \<ge> m. next_claim lb (claim_run k r lb s j) = Begins 0 lb" by (intro exI [of _ "i + m"]) simp
  have "next_claim lb (claim_run k r lb s (Suc (i + m))) = Runs 0" using i by (simp add: next_claim_def claim_on_def)
  then show "\<exists>j \<ge> m. next_claim lb (claim_run k r lb s j) = Runs 0" by (intro exI [of _ "Suc (i + m)"]) simp
qed

text \<open>On the store with versions, from the cache that shows the unclaimed frontend and is never brought up to date.\<close>

lemma vs_cache_step: "vs_cache (snd (claimer_step versioned_kube r c w)) = vs_cache w"
proof (cases "(versioned_kube, r, c, w)" rule: claimer_step.cases)
  case (2 k r' lb w0)
  then show ?thesis by (auto simp: getFrontends_run versioned_kube_sel vs_list_def split: sum.splits)
next
  case (4 k r' lb fes p fe rest w0)
  have "vs_cache (snd (vs_update x w)) = vs_cache w" for x
    by (simp add: vs_update_def vs_put_def Let_def split: option.splits)
  with 4 show ?thesis
    by (auto simp: Let_def case_prod_beta versioned_kube_sel split: sum.splits fault.splits if_splits)
qed auto

lemma stale_cache: "vs_cache (cs_world (claim_run versioned_kube r lb race i)) = [unclaimed]"
proof (induction i)
  case (Suc i)
  have "vs_cache (cs_world (claim_on versioned_kube r lb s)) = vs_cache (cs_world s)" for s
    using vs_cache_step [of r "cs_runs s 0" "cs_world s"] by (auto simp: claim_on_def split: prod.splits sum.splits)
  then show ?case using Suc by simp
qed (simp add: race_def)

lemma race_unclaimed: "vs_stored (cs_world race) (NN ''glb'' ''web'') = Some unclaimed" "fe_Owner unclaimed = None" "fe_UID unclaimed = show_nat 0"
  "fe_key unclaimed = NN ''glb'' ''web''"
  unfolding race_def by (simp_all add: lookup_def unclaimed_def)

lemma stale_served:
  assumes "vs_stored w (NN ''glb'' ''web'') = Some unclaimed" and "vs_cache w = [unclaimed]"
  shows "served versioned_kube (\<lambda>_. True) unclaimed w"
  using assms race_unclaimed by (auto simp: served_def versioned_kube_sel vs_list_def vs_update_def mem_chosen_def Let_def split: option.splits)

interpretation patient: claiming_run versioned_kube vs_stored "\<lambda>w. set (vs_gone w)" "\<lambda>w. set (vs_history w)" vs_ok vs_users
  sample_reconciler "\<lambda>i. next_claim (sample_lb 1) (claim_run versioned_kube sample_reconciler (sample_lb 1) race i)"
  "claim_run versioned_kube sample_reconciler (sample_lb 1) race" "NN ''glb'' ''web''" unclaimed 0 "sample_lb 1" "\<lambda>_. True"
proof unfold_locales
  let ?\<sigma> = "claim_run versioned_kube sample_reconciler (sample_lb 1) race" and ?ls = "\<lambda>i. next_claim (sample_lb 1) (claim_run versioned_kube sample_reconciler (sample_lb 1) race i)"
  show "labelled_run (claims_step versioned_kube sample_reconciler vs_users) ?ls ?\<sigma>"
    by (simp add: labelled_run_def claim_on_step)
  show "claims_inv vs_stored (\<lambda>w. set (vs_gone w)) (\<lambda>w. set (vs_history w)) vs_ok (?\<sigma> 0)"
    using race_ok by (simp add: claims_inv_def) (simp add: race_def)
  show "vs_stored (cs_world (?\<sigma> 0)) (NN ''glb'' ''web'') = Some unclaimed" "fe_Owner unclaimed = None" using race_unclaimed by simp_all
  show "vs_stored (cs_world (?\<sigma> (Suc j))) (NN ''glb'' ''web'') = vs_stored (cs_world (?\<sigma> j)) (NN ''glb'' ''web'')" if "?ls j = Outside" for j
    using that by (simp add: next_claim_def split: if_splits)
  show "LabelSelectorAsSelector versioned_kube (lbs_FrontendSelector (lb_Spec (sample_lb 1))) = Inr (\<lambda>_. True)"
    by (simp add: versioned_kube_sel mem_selector_def sample_lb_def)
  show "\<exists>j \<ge> m. ?ls j = Begins 0 (sample_lb 1)" for m by (rule claim_again)
  show "weakly_fair (claims_step versioned_kube sample_reconciler vs_users) ?ls ?\<sigma> (Runs 0)"
    unfolding weakly_fair_def using claim_again(2) by blast
  show "\<exists>m. \<forall>j \<ge> m. served versioned_kube (\<lambda>_. True) unclaimed (cs_world (?\<sigma> j))"
    if "\<And>j. vs_stored (cs_world (?\<sigma> j)) (NN ''glb'' ''web'') = Some unclaimed"
    using stale_served [OF that stale_cache] by blast
qed

theorem frontend_claimed_eventually_witness:
  "\<exists>m ref p. \<forall>j \<ge> m. \<exists>new. vs_stored (cs_world (claim_run versioned_kube sample_reconciler (sample_lb 1) race j)) (NN ''glb'' ''web'') = Some new
     \<and> fe_UID new = show_nat 0 \<and> fe_Owner new = Some ref \<and> fe_Port new = Some p"
proof -
  have rest: "\<forall>i. cs_runs (claim_run versioned_kube sample_reconciler (sample_lb 1) race 0) i = Resting"
    "cs_won (claim_run versioned_kube sample_reconciler (sample_lb 1) race 0) = []" by (simp_all add: race_def)
  have "\<exists>m ref p. \<forall>j \<ge> m. \<exists>new. vs_stored (cs_world (claim_run versioned_kube sample_reconciler (sample_lb 1) race j)) (NN ''glb'' ''web'') = Some new
     \<and> fe_UID new = fe_UID unclaimed \<and> fe_Owner new = Some ref \<and> fe_Port new = Some p"
    using patient.alone patient.again patient.settles
    by (intro frontend_claimed_eventually [OF versions.claiming_axioms patient.run patient.ok rest patient.unclaimed _ patient.selects _ patient.fair]) blast+
  then show ?thesis by (simp add: race_unclaimed)
qed

end
