(* ===== verification/Command_Line.thy ===== *)
theory Command_Line
  imports Mem_Cluster
begin

text \<open>
  The command line of \<^verbatim>\<open>cmd/main.go\<close>: the flags \<^verbatim>\<open>main\<close> registers, the part of Go's package \<^verbatim>\<open>flag\<close> that parses
  them, and the status the process ends with. The flags that libraries register beside them are the argument
  \<open>lib\<close>; their names differ from those of \<^verbatim>\<open>main\<close>, since registering a name twice panics.
\<close>

section \<open>Flags\<close>

text \<open>
  A flag has a value that is set from text: one of the variables of \<^verbatim>\<open>main\<close>, text or boolean, or one a library
  registered, of which only is known whether it is boolean and which error setting it gives.
\<close>

datatype flag_value =
  StringValue "string \<Rightarrow> Flags \<Rightarrow> Flags"
  | BoolValue "bool \<Rightarrow> Flags \<Rightarrow> Flags"
  | LibraryValue bool "string \<Rightarrow> goerror option"

definition ParseBool :: "string \<Rightarrow> bool option" where
  "ParseBool str =
     (if str \<in> {''1'', ''t'', ''T'', ''true'', ''TRUE'', ''True''} then Some True
      else if str \<in> {''0'', ''f'', ''F'', ''false'', ''FALSE'', ''False''} then Some False
      else None)"

fun IsBoolFlag :: "flag_value \<Rightarrow> bool" where
  "IsBoolFlag (StringValue _) = False"
| "IsBoolFlag (BoolValue _) = True"
| "IsBoolFlag (LibraryValue b _) = b"

fun Set_value :: "flag_value \<Rightarrow> string \<Rightarrow> Flags \<Rightarrow> goerror + Flags" where
  "Set_value (StringValue f) value flags = Inr (f value flags)"
| "Set_value (BoolValue f) value flags =
     (case ParseBool value of None \<Rightarrow> Inl (OtherErr ''parse error'') | Some b \<Rightarrow> Inr (f b flags))"
| "Set_value (LibraryValue b f) value flags =
     (case f value of Some e \<Rightarrow> Inl e | None \<Rightarrow> Inr flags)"

text \<open>The flags \<^verbatim>\<open>main\<close> registers, and those of the libraries (\<open>lib\<close>), among them the ones \<^verbatim>\<open>opts.BindFlags\<close> adds.\<close>

definition command_line :: "(string, flag_value) gomap \<Rightarrow> (string, flag_value) gomap" where
  "command_line lib =
     [(''metrics-bind-address'', StringValue (\<lambda>v fl. fl\<lparr>metricsAddr := v\<rparr>)),
      (''health-probe-bind-address'', StringValue (\<lambda>v fl. fl\<lparr>probeAddr := v\<rparr>)),
      (''leader-elect'', BoolValue (\<lambda>b fl. fl\<lparr>enableLeaderElection := b\<rparr>)),
      (''metrics-secure'', BoolValue (\<lambda>b fl. fl\<lparr>secureMetrics := b\<rparr>)),
      (''webhook-cert-path'', StringValue (\<lambda>v fl. fl\<lparr>webhookCertPath := v\<rparr>)),
      (''webhook-cert-name'', StringValue (\<lambda>v fl. fl\<lparr>webhookCertName := v\<rparr>)),
      (''webhook-cert-key'', StringValue (\<lambda>v fl. fl\<lparr>webhookCertKey := v\<rparr>)),
      (''metrics-cert-path'', StringValue (\<lambda>v fl. fl\<lparr>metricsCertPath := v\<rparr>)),
      (''metrics-cert-name'', StringValue (\<lambda>v fl. fl\<lparr>metricsCertName := v\<rparr>)),
      (''metrics-cert-key'', StringValue (\<lambda>v fl. fl\<lparr>metricsCertKey := v\<rparr>)),
      (''enable-http2'', BoolValue (\<lambda>b fl. fl\<lparr>enableHTTP2 := b\<rparr>))] @ lib"

section \<open>Parsing\<close>

datatype flag_error =
  ErrHelp | BadSyntax string | NotDefined string | NeedsArgument string | InvalidValue string string goerror

text \<open>The first \<^verbatim>\<open>=\<close> after the first character separates the name from a value.\<close>

definition cut_value :: "string \<Rightarrow> string \<times> string option" where
  "cut_value s = (let rest = dropWhile (\<lambda>c. c \<noteq> CHR ''='') (tl s)
     in (take 1 s @ takeWhile (\<lambda>c. c \<noteq> CHR ''='') (tl s), if rest = [] then None else Some (tl rest)))"

definition with_error :: "(goerror \<Rightarrow> flag_error) \<Rightarrow> goerror + 'a \<Rightarrow> flag_error + 'a" where
  "with_error f r = (case r of Inl e \<Rightarrow> Inl (f e) | Inr x \<Rightarrow> Inr x)"

text \<open>
  \<^verbatim>\<open>FlagSet.parseOne\<close>: the first argument, when it is a flag, with the next one as its value when it needs one and has
  none. The boolean of the result says whether a flag was seen.
\<close>

definition parse_flag ::
  "(string, flag_value) gomap \<Rightarrow> Flags \<Rightarrow> string \<Rightarrow> string list \<Rightarrow> flag_error + bool \<times> Flags \<times> string list" where
  "parse_flag formal flags name args =
     (let (name, value) = cut_value name in
      case gm_get formal name of
        None \<Rightarrow> if name = ''help'' \<or> name = ''h'' then Inl ErrHelp else Inl (NotDefined name)
      | Some flg \<Rightarrow>
          let set = (\<lambda>v args. map_sum id (\<lambda>fl. (True, fl, args)) (with_error (InvalidValue v name) (Set_value flg v flags))) in
          if IsBoolFlag flg then set (case value of Some v \<Rightarrow> v | None \<Rightarrow> ''true'') args
          else case value of
                 Some v \<Rightarrow> set v args
               | None \<Rightarrow> (case args of [] \<Rightarrow> Inl (NeedsArgument name) | v # args' \<Rightarrow> set v args'))"

definition parseOne ::
  "(string, flag_value) gomap \<Rightarrow> Flags \<Rightarrow> string list \<Rightarrow> flag_error + bool \<times> Flags \<times> string list" where
  "parseOne formal flags args =
     (case args of
        [] \<Rightarrow> Inr (False, flags, [])
      | s # args' \<Rightarrow>
          if length s < 2 \<or> s ! 0 \<noteq> CHR ''-'' then Inr (False, flags, args)
          else if s = ''--'' then Inr (False, flags, args')
          else let name = (if s ! 1 = CHR ''-'' then drop 2 s else drop 1 s)
               in if name = [] \<or> name ! 0 = CHR ''-'' \<or> name ! 0 = CHR ''='' then Inl (BadSyntax s)
                  else parse_flag formal flags name args')"

lemma parse_flag_shorter: "parse_flag formal flags name args = Inr (seen, flags', args') \<Longrightarrow> length args' \<le> length args"
  by (auto simp: parse_flag_def with_error_def Let_def split: prod.splits option.splits if_splits sum.splits list.splits)

lemma parseOne_shorter: "parseOne formal flags args = Inr (True, flags', args') \<Longrightarrow> length args' < length args"
  by (auto simp: parseOne_def Let_def dest!: parse_flag_shorter split: list.splits if_splits)

text \<open>\<^verbatim>\<open>FlagSet.Parse\<close>, whose loop ends because every flag seen consumes an argument.\<close>

function Parse :: "(string, flag_value) gomap \<Rightarrow> Flags \<Rightarrow> string list \<Rightarrow> flag_error + Flags \<times> string list" where
  "Parse formal flags args =
     (case parseOne formal flags args of
        Inl e \<Rightarrow> Inl e
      | Inr (seen, flags', args') \<Rightarrow> if seen then Parse formal flags' args' else Inr (flags', args'))"
  by pat_completeness auto
termination
  by (relation "measure (\<lambda>(formal, flags, args). length args)") (auto dest: parseOne_shorter)

declare Parse.simps [simp del]

text \<open>
  The process: \<^verbatim>\<open>flag.Parse\<close> of \<^verbatim>\<open>os.Args[1:]\<close> over the defaults, which leaves the process with status 0 after the help
  text and with 2 on any other error, then the rest of \<^verbatim>\<open>main\<close>, which leaves it with the status it exits with.
\<close>

definition run_operator ::
  "'w kube \<Rightarrow> (setup_call \<Rightarrow> goerror option) \<Rightarrow> (string \<Rightarrow> string option) \<Rightarrow> (string, flag_value) gomap
    \<Rightarrow> string list \<Rightarrow> nat + components" where
  "run_operator k outcome lookupEnv lib args =
     (case Parse (command_line lib) default_flags args of
        Inl ErrHelp \<Rightarrow> Inl 0
      | Inl _ \<Rightarrow> Inl 2
      | Inr (flags, _) \<Rightarrow> (case main k outcome lookupEnv flags of Inl (Exit status _ _) \<Rightarrow> Inl status | Inr co \<Rightarrow> Inr co))"

section \<open>What the arguments mean\<close>

text \<open>A setting of a flag, the ways to spell it, and its effect.\<close>

datatype setting = SetString string string | SetBool string bool

inductive spelled :: "setting \<Rightarrow> string list \<Rightarrow> bool" where
  joined: "d \<in> {''-'', ''--''} \<Longrightarrow> spelled (SetString n v) [d @ n @ ''='' @ v]"
| apart: "d \<in> {''-'', ''--''} \<Longrightarrow> spelled (SetString n v) [d @ n, v]"
| bool_value: "d \<in> {''-'', ''--''} \<Longrightarrow> ParseBool t = Some b \<Longrightarrow> spelled (SetBool n b) [d @ n @ ''='' @ t]"
| bool_bare: "d \<in> {''-'', ''--''} \<Longrightarrow> spelled (SetBool n True) [d @ n]"

fun apply_setting :: "Flags \<Rightarrow> setting \<Rightarrow> Flags option" where
  "apply_setting fl (SetString n v) = (case gm_get (command_line []) n of Some (StringValue f) \<Rightarrow> Some (f v fl) | _ \<Rightarrow> None)"
| "apply_setting fl (SetBool n b) = (case gm_get (command_line []) n of Some (BoolValue f) \<Rightarrow> Some (f b fl) | _ \<Rightarrow> None)"

fun apply_settings :: "Flags \<Rightarrow> setting list \<Rightarrow> Flags option" where
  "apply_settings fl [] = Some fl"
| "apply_settings fl (s # ss) = (case apply_setting fl s of None \<Rightarrow> None | Some fl' \<Rightarrow> apply_settings fl' ss)"

text \<open>Names of flags: not empty, and without the characters that are syntax.\<close>

definition flag_name :: "string \<Rightarrow> bool" where
  "flag_name n \<longleftrightarrow> n \<noteq> [] \<and> hd n \<noteq> CHR ''-'' \<and> CHR ''='' \<notin> set n"

lemma command_line_get: "gm_get (command_line []) n = Some v \<Longrightarrow> gm_get (command_line lib) n = Some v"
  by (simp add: command_line_def map_of.simps split: if_splits)

lemma command_line_name: "gm_get (command_line []) n = Some v \<Longrightarrow> flag_name n"
  by (auto simp: command_line_def map_of.simps flag_name_def split: if_splits)

lemma cut_value_joined: "flag_name n \<Longrightarrow> cut_value (n @ CHR ''='' # v) = (n, Some v)"
  by (cases n) (auto simp: cut_value_def flag_name_def Let_def takeWhile_append dropWhile_append)

lemma cut_value_bare: "flag_name n \<Longrightarrow> cut_value n = (n, None)"
  by (cases n) (auto simp: cut_value_def flag_name_def Let_def dropWhile_eq_Nil_conv intro!: takeWhile_eq_all_conv [THEN iffD2])

lemma parseOne_flag:
  assumes "flag_name n" and "d \<in> {''-'', ''--''}" and "t = [] \<or> hd t = CHR ''=''"
  shows "parseOne formal flags ((d @ n @ t) # args) = parse_flag formal flags (n @ t) args"
  using assms by (cases n) (auto simp: parseOne_def flag_name_def Let_def)

lemma apply_setting_String:
  assumes "apply_setting fl (SetString n v) = Some fl'"
  obtains f where "gm_get (command_line []) n = Some (StringValue f)" "fl' = f v fl"
  using assms by (simp split: option.splits flag_value.splits)

lemma apply_setting_Bool:
  assumes "apply_setting fl (SetBool n b) = Some fl'"
  obtains f where "gm_get (command_line []) n = Some (BoolValue f)" "fl' = f b fl"
  using assms by (simp split: option.splits flag_value.splits)

lemma ParseBool_true: "ParseBool ''true'' = Some True"
  by (simp add: ParseBool_def)

lemma parse_flag_values:
  assumes "flag_name n"
  shows "gm_get formal n = Some (StringValue f) \<Longrightarrow> parse_flag formal fl (n @ CHR ''='' # v) args = Inr (True, f v fl, args)"
    and "gm_get formal n = Some (StringValue f) \<Longrightarrow> parse_flag formal fl n (v # args) = Inr (True, f v fl, args)"
    and "gm_get formal n = Some (BoolValue f') \<Longrightarrow> ParseBool t = Some b \<Longrightarrow>
      parse_flag formal fl (n @ CHR ''='' # t) args = Inr (True, f' b fl, args)"
    and "gm_get formal n = Some (BoolValue f') \<Longrightarrow> parse_flag formal fl n args = Inr (True, f' True fl, args)"
  using assms by (simp_all add: parse_flag_def with_error_def cut_value_joined cut_value_bare ParseBool_true)

text \<open>A spelled setting is read as that setting, whatever follows.\<close>

lemma parseOne_spelled:
  assumes "spelled s args" and "apply_setting fl s = Some fl'"
  shows "parseOne (command_line lib) fl (args @ rest) = Inr (True, fl', rest)"
  using assms
proof (induction rule: spelled.induct)
  case (joined d n v)
  from joined.prems obtain f where f: "gm_get (command_line []) n = Some (StringValue f)" "fl' = f v fl" by (rule apply_setting_String)
  have "parseOne (command_line lib) fl ((d @ n @ ''='' @ v) # rest) = parse_flag (command_line lib) fl (n @ ''='' @ v) rest"
    by (rule parseOne_flag [OF command_line_name [OF f(1)] joined.hyps]) simp
  then show ?case using parse_flag_values(1) [OF command_line_name [OF f(1)] command_line_get [OF f(1)]] f(2) by simp
next
  case (apart d n v)
  from apart.prems obtain f where f: "gm_get (command_line []) n = Some (StringValue f)" "fl' = f v fl" by (rule apply_setting_String)
  have "parseOne (command_line lib) fl ((d @ n @ []) # v # rest) = parse_flag (command_line lib) fl (n @ []) (v # rest)"
    by (rule parseOne_flag [OF command_line_name [OF f(1)] apart.hyps]) simp
  then show ?case using parse_flag_values(2) [OF command_line_name [OF f(1)] command_line_get [OF f(1)]] f(2) by simp
next
  case (bool_value d t b n)
  from bool_value.prems obtain f where f: "gm_get (command_line []) n = Some (BoolValue f)" "fl' = f b fl" by (rule apply_setting_Bool)
  have "parseOne (command_line lib) fl ((d @ n @ ''='' @ t) # rest) = parse_flag (command_line lib) fl (n @ ''='' @ t) rest"
    by (rule parseOne_flag [OF command_line_name [OF f(1)] bool_value.hyps(1)]) simp
  then show ?case
    using parse_flag_values(3) [OF command_line_name [OF f(1)] command_line_get [OF f(1)] bool_value.hyps(2)] f(2) by simp
next
  case (bool_bare d n)
  from bool_bare.prems obtain f where f: "gm_get (command_line []) n = Some (BoolValue f)" "fl' = f True fl" by (rule apply_setting_Bool)
  have "parseOne (command_line lib) fl ((d @ n @ []) # rest) = parse_flag (command_line lib) fl (n @ []) rest"
    by (rule parseOne_flag [OF command_line_name [OF f(1)] bool_bare.hyps]) simp
  then show ?case using parse_flag_values(4) [OF command_line_name [OF f(1)] command_line_get [OF f(1)]] f(2) by simp
qed

lemma Parse_spelled:
  assumes "list_all2 spelled ss argss" and "apply_settings fl ss = Some fl'"
  shows "Parse (command_line lib) fl (concat argss @ rest) = Parse (command_line lib) fl' rest"
  using assms
proof (induction arbitrary: fl rule: list_all2_induct)
  case (Cons s ss args argss)
  then obtain fl1 where fl1: "apply_setting fl s = Some fl1" "apply_settings fl1 ss = Some fl'"
    by (auto split: option.splits)
  have "Parse (command_line lib) fl (args @ concat argss @ rest) = Parse (command_line lib) fl1 (concat argss @ rest)"
    by (subst Parse.simps) (simp add: parseOne_spelled [OF Cons(1) fl1(1)])
  then show ?case using Cons.IH [OF fl1(2)] by simp
qed simp

text \<open>What is not spelled as a setting: an unknown flag, a value that is missing, a boolean that is none.\<close>

lemma parse_flag_failures:
  assumes "flag_name n"
  shows "gm_get formal n = None \<Longrightarrow>
      parse_flag formal fl n args = Inl (if n = ''help'' \<or> n = ''h'' then ErrHelp else NotDefined n)"
    and "gm_get formal n = Some (StringValue f) \<Longrightarrow> parse_flag formal fl n [] = Inl (NeedsArgument n)"
    and "gm_get formal n = Some (BoolValue f') \<Longrightarrow> ParseBool t = None \<Longrightarrow>
      parse_flag formal fl (n @ CHR ''='' # t) args = Inl (InvalidValue t n (OtherErr ''parse error''))"
  using assms by (simp_all add: parse_flag_def with_error_def cut_value_joined cut_value_bare)

lemma Parse_fails: "parseOne formal fl args = Inl e \<Longrightarrow> Parse formal fl args = Inl e"
  by (subst Parse.simps) simp

lemma Parse_failures:
  assumes "flag_name n" and "d \<in> {''-'', ''--''}"
  shows "gm_get formal n = None \<Longrightarrow>
      Parse formal fl ((d @ n) # args) = Inl (if n = ''help'' \<or> n = ''h'' then ErrHelp else NotDefined n)"
    and "gm_get formal n = Some (StringValue f) \<Longrightarrow> Parse formal fl [d @ n] = Inl (NeedsArgument n)"
    and "gm_get formal n = Some (BoolValue f') \<Longrightarrow> ParseBool t = None \<Longrightarrow>
      Parse formal fl ((d @ n @ ''='' @ t) # args) = Inl (InvalidValue t n (OtherErr ''parse error''))"
  using parseOne_flag [OF assms, of "[]"] parseOne_flag [OF assms, of "''='' @ t"] parse_flag_failures [OF assms(1)]
  by (auto intro!: Parse_fails simp del: insert_iff)

lemma Parse_Nil: "Parse formal fl [] = Inr (fl, [])"
  by (subst Parse.simps) (simp add: parseOne_def)

section \<open>Properties\<close>

text \<open>The settings that give every variable its value.\<close>

definition settings_of :: "Flags \<Rightarrow> setting list" where
  "settings_of fl =
     [SetString ''metrics-bind-address'' (metricsAddr fl), SetString ''health-probe-bind-address'' (probeAddr fl),
      SetBool ''leader-elect'' (enableLeaderElection fl), SetBool ''metrics-secure'' (secureMetrics fl),
      SetString ''webhook-cert-path'' (webhookCertPath fl), SetString ''webhook-cert-name'' (webhookCertName fl),
      SetString ''webhook-cert-key'' (webhookCertKey fl), SetString ''metrics-cert-path'' (metricsCertPath fl),
      SetString ''metrics-cert-name'' (metricsCertName fl), SetString ''metrics-cert-key'' (metricsCertKey fl),
      SetBool ''enable-http2'' (enableHTTP2 fl)]"

lemma apply_settings_of: "apply_settings fl0 (settings_of fl) = Some fl"
  by (simp add: settings_of_def command_line_def)

text \<open>
  C36: the command line round trip: whichever way each of the eleven settings is spelled (one dash or two, the value
  behind \<^verbatim>\<open>=\<close> or as the next argument, a boolean bare or with any accepted text), and whatever the variables
  held before, parsing the arguments gives back exactly the flags they spell, and nothing is left over.
\<close>

theorem Parse_round_trip:
  assumes "list_all2 spelled (settings_of fl) argss"
  shows "Parse (command_line lib) fl0 (concat argss) = Inr (fl, [])"
  using Parse_spelled [OF assms apply_settings_of, of lib fl0 "[]"] by (simp add: Parse_Nil)

theorem Parse_round_trip_witness:
  "Parse (command_line []) default_flags
     [''--metrics-bind-address'', '':8443'', ''-health-probe-bind-address=:8081'', ''--leader-elect'', ''--metrics-secure=0'',
      ''-webhook-cert-path'', ''-x'', ''-webhook-cert-name=a=b'', ''-webhook-cert-key='', ''-metrics-cert-path='',
      ''-metrics-cert-name=c'', ''-metrics-cert-key=k'', ''--enable-http2=F'']
   = Inr (\<lparr>metricsAddr = '':8443'', probeAddr = '':8081'', enableLeaderElection = True, secureMetrics = False,
           webhookCertPath = ''-x'', webhookCertName = ''a=b'', webhookCertKey = '''', metricsCertPath = '''',
           metricsCertName = ''c'', metricsCertKey = ''k'', enableHTTP2 = False\<rparr>, [])"
  (is "Parse _ _ ?args = Inr (?fl, [])")
proof -
  let ?argss = "[[''--'' @ ''metrics-bind-address'', '':8443''], [''-'' @ ''health-probe-bind-address'' @ ''='' @ '':8081''],
    [''--'' @ ''leader-elect''], [''--'' @ ''metrics-secure'' @ ''='' @ ''0''], [''-'' @ ''webhook-cert-path'', ''-x''],
    [''-'' @ ''webhook-cert-name'' @ ''='' @ ''a=b''], [''-'' @ ''webhook-cert-key'' @ ''='' @ ''''],
    [''-'' @ ''metrics-cert-path'' @ ''='' @ ''''], [''-'' @ ''metrics-cert-name'' @ ''='' @ ''c''],
    [''-'' @ ''metrics-cert-key'' @ ''='' @ ''k''], [''--'' @ ''enable-http2'' @ ''='' @ ''F'']]"
  have "list_all2 spelled (settings_of ?fl) ?argss"
    unfolding settings_of_def Flags.select_convs list_all2_Cons list_all2_Nil
    by (intro conjI spelled.intros TrueI) (simp_all add: ParseBool_def)
  from Parse_round_trip [OF this, of "[]" default_flags] show ?thesis by simp
qed

text \<open>
  How the process ends: after any spelled settings, asking for help gives status 0; an unknown flag, a
  text flag without a value and a boolean flag with a text that is no boolean give status 2, before anything
  of the operator is built; otherwise what happens is what \<^verbatim>\<open>main\<close> does with the flags as spelled, in order, over
  the defaults.
\<close>

theorem operator_exit_codes:
  assumes "list_all2 spelled ss argss" and "apply_settings default_flags ss = Some fl" and "d \<in> {''-'', ''--''}"
  shows "(flag_name n \<and> gm_get (command_line lib) n = None \<longrightarrow>
      run_operator k outcome env lib (concat argss @ (d @ n) # rest) = Inl (if n = ''help'' \<or> n = ''h'' then 0 else 2))
    \<and> (gm_get (command_line []) n = Some (StringValue f) \<longrightarrow> run_operator k outcome env lib (concat argss @ [d @ n]) = Inl 2)
    \<and> (gm_get (command_line []) n = Some (BoolValue g) \<and> ParseBool t = None \<longrightarrow>
      run_operator k outcome env lib (concat argss @ (d @ n @ ''='' @ t) # rest) = Inl 2)
    \<and> run_operator k outcome env lib (concat argss) = (case main k outcome env fl of Inl (Exit status _ _) \<Rightarrow> Inl status | Inr co \<Rightarrow> Inr co)"
proof (intro conjI impI)
  note run = run_operator_def Parse_spelled [OF assms(1,2)]
  show "run_operator k outcome env lib (concat argss @ (d @ n) # rest) = Inl (if n = ''help'' \<or> n = ''h'' then 0 else 2)"
    if "flag_name n \<and> gm_get (command_line lib) n = None"
    using Parse_failures(1) [of n d "command_line lib"] that assms(3) by (simp add: run del: insert_iff)
  show "run_operator k outcome env lib (concat argss @ [d @ n]) = Inl 2"
    if "gm_get (command_line []) n = Some (StringValue f)"
    using Parse_failures(2) [OF command_line_name [OF that] assms(3) command_line_get [OF that]] by (simp add: run)
  show "run_operator k outcome env lib (concat argss @ (d @ n @ ''='' @ t) # rest) = Inl 2"
    if "gm_get (command_line []) n = Some (BoolValue g) \<and> ParseBool t = None"
    using Parse_failures(3) [OF command_line_name assms(3) command_line_get] that by (simp add: run)
  show "run_operator k outcome env lib (concat argss) = (case main k outcome env fl of Inl (Exit status _ _) \<Rightarrow> Inl status | Inr co \<Rightarrow> Inr co)"
    using Parse_spelled [OF assms(1,2), of lib "[]"] by (simp add: run_operator_def Parse_Nil)
qed

theorem operator_exit_codes_witness:
  "run_operator mem_kube (\<lambda>_. None) (\<lambda>_. None) [] [''--leader-elect'', ''--help''] = Inl 0
   \<and> run_operator mem_kube (\<lambda>_. None) (\<lambda>_. None) [] [''--leader-elect'', ''--replicas''] = Inl 2
   \<and> run_operator mem_kube (\<lambda>_. None) (\<lambda>_. None) [] [''--leader-elect''] = Inl 1"
proof -
  have ss: "list_all2 spelled [SetBool ''leader-elect'' True] [[''--'' @ ''leader-elect'']]"
    by (simp only: list_all2_Cons list_all2_Nil) (intro conjI spelled.intros TrueI refl, simp)
  have app: "apply_settings default_flags [SetBool ''leader-elect'' True] = Some (default_flags\<lparr>enableLeaderElection := True\<rparr>)"
    by (simp add: command_line_def)
  have d: "''--'' \<in> {''-'', ''--''}" by simp
  have n: "flag_name ''help'' \<and> gm_get (command_line []) ''help'' = None"
    "flag_name ''replicas'' \<and> gm_get (command_line []) ''replicas'' = None"
    by (simp_all add: flag_name_def command_line_def)
  note codes = operator_exit_codes [OF ss app d, where k = mem_kube and outcome = "\<lambda>_. None" and env = "\<lambda>_. None" and lib = "[]"]
  have "main mem_kube (\<lambda>_. None) (\<lambda>_. None) fl = Inl (Exit 1 ''Unable to get WATCH_NAMESPACE, the manager will watch and manage resources in all namespaces''
      (OtherErr (''WATCH_NAMESPACE'' @ '' must be set'')))" for fl
    unfolding main_def exit_bind_def or_exit_def getWatchNamespace_def by (simp only: option.case sum.case prod.case)
  then show ?thesis
    using codes [THEN conjunct1, THEN mp, OF n(1), of "[]"] codes [THEN conjunct1, THEN mp, OF n(2), of "[]"]
      codes [THEN conjunct2, THEN conjunct2, THEN conjunct2]
    by simp
qed

end
