(* ===== verification/Go_Heap.thy ===== *)
theory Go_Heap
  imports API_Types
begin

text \<open>
  The memory a Go program shares through pointers, slices and maps: a heap of cells that grows
  by allocation and is never compacted (the collector is invisible), with a computation that
  stops when an address does not hold a cell of the type expected there. On top of it the three
  ways generated code copies a field (a pointer by \<^verbatim>\<open>new\<close>, a slice by \<^verbatim>\<open>make\<close> and a loop, a map by
  \<^verbatim>\<open>make\<close> and a \<^verbatim>\<open>range\<close>), the value such a field unfolds to, and the cells it reaches.

  The locale \<open>heap_view\<close> says what it is to be a value spread over cells, the locale \<open>deep_copy\<close>
  what a copying function promises; the lemmas \<open>deep_copy_*\<close> show that the promise is kept by
  every combination of fields, so that a type's copy is verified from its fields' copies.
\<close>

named_theorems heap_run
named_theorems heap_views

section \<open>Cells and addresses\<close>

type_synonym addr = nat
type_synonym ptr = "addr option"

text \<open>A slice header: its array, the offset of its first element and its length. A nil slice is \<^const>\<open>None\<close>.\<close>

datatype slice = Slice addr nat nat

type_synonym 'c heap = "'c list"

text \<open>\<^const>\<open>None\<close>: an address outside the heap or a cell of another type, which Go's types exclude.\<close>

type_synonym ('c, 'a) heap_op = "'c heap \<Rightarrow> ('a \<times> 'c heap) option"

definition hreturn :: "'a \<Rightarrow> ('c, 'a) heap_op" where
  "hreturn x = (\<lambda>h. Some (x, h))"

definition hbind :: "('c, 'a) heap_op \<Rightarrow> ('a \<Rightarrow> ('c, 'b) heap_op) \<Rightarrow> ('c, 'b) heap_op" where
  "hbind m f = (\<lambda>h. case m h of None \<Rightarrow> None | Some (x, h') \<Rightarrow> f x h')"

definition peek :: "('c \<Rightarrow> 'a option) \<Rightarrow> 'c heap \<Rightarrow> addr \<Rightarrow> 'a option" where
  "peek un h a = (if a < length h then un (h ! a) else None)"

definition load :: "('c \<Rightarrow> 'a option) \<Rightarrow> addr \<Rightarrow> ('c, 'a) heap_op" where
  "load un a = (\<lambda>h. case peek un h a of None \<Rightarrow> None | Some x \<Rightarrow> Some (x, h))"

definition alloc :: "'c \<Rightarrow> ('c, addr) heap_op" where
  "alloc c = (\<lambda>h. Some (length h, h @ [c]))"

text \<open>Assignments through pointers after a copy was made, one after another.\<close>

fun writes :: "(addr \<times> 'c) list \<Rightarrow> 'c heap \<Rightarrow> 'c heap" where
  "writes [] h = h"
| "writes ((a, c) # ws) h = writes ws (h[a := c])"

lemma hreturn_run [heap_run, simp]: "hreturn x h = Some (x, h)"
  by (simp add: hreturn_def)

lemma hbind_run [heap_run]: "hbind m f h = (case m h of None \<Rightarrow> None | Some (x, h') \<Rightarrow> f x h')"
  by (simp add: hbind_def)

lemma hbind_Some [simp]: "m h = Some (x, h') \<Longrightarrow> hbind m f h = f x h'"
  by (simp add: hbind_def)

lemma hbind_assoc: "hbind (hbind m f) g = hbind m (\<lambda>x. hbind (f x) g)"
  by (rule ext) (simp add: hbind_def split: option.splits)

lemma hbind_hreturn [simp]: "hbind (hreturn x) f = f x"
  by (rule ext) (simp add: hbind_def)

lemma alloc_run [heap_run, simp]: "alloc c h = Some (length h, h @ [c])"
  by (simp add: alloc_def)

lemma load_run [heap_run]: "load un a h = map_option (\<lambda>x. (x, h)) (peek un h a)"
  by (simp add: load_def split: option.splits)

lemma peek_SomeD: "peek un h a = Some x \<Longrightarrow> a < length h \<and> un (h ! a) = Some x"
  by (simp add: peek_def split: if_splits)

lemma peek_agree: "a < length h \<Longrightarrow> a < length h' \<Longrightarrow> h' ! a = h ! a \<Longrightarrow> peek un h' a = peek un h a"
  by (simp add: peek_def)

lemma peek_new: "un c = Some x \<Longrightarrow> peek un (h @ c # t) (length h) = Some x"
  by (simp add: peek_def)

lemma writes_length [simp]: "length (writes ws h) = length h"
  by (induction ws arbitrary: h) auto

lemma writes_other: "a \<notin> fst ` set ws \<Longrightarrow> writes ws h ! a = h ! a"
  by (induction ws arbitrary: h) (auto simp: nth_list_update_neq)

section \<open>Values and the cells they occupy\<close>

text \<open>
  The value a field unfolds to (what \<^verbatim>\<open>reflect.DeepEqual\<close> compares, so that a nil slice or map is
  not an empty one), \<^const>\<open>None\<close> when it is not well-typed in the heap. A map unfolds to its entries
  in the order of their keys, whatever order it was filled in.
\<close>

definition view_val :: "'c heap \<Rightarrow> 'a \<Rightarrow> 'a option" where
  "view_val h x = Some x"

definition view_pair ::
  "('c heap \<Rightarrow> 'a \<Rightarrow> 'v option) \<Rightarrow> ('c heap \<Rightarrow> 'b \<Rightarrow> 'u option) \<Rightarrow> 'c heap \<Rightarrow> 'a \<times> 'b \<Rightarrow> ('v \<times> 'u) option" where
  "view_pair v1 v2 h p = (case v1 h (fst p) of None \<Rightarrow> None
     | Some x \<Rightarrow> (case v2 h (snd p) of None \<Rightarrow> None | Some y \<Rightarrow> Some (x, y)))"

definition view_ptr ::
  "('c \<Rightarrow> 'a option) \<Rightarrow> ('c heap \<Rightarrow> 'a \<Rightarrow> 'v option) \<Rightarrow> 'c heap \<Rightarrow> ptr \<Rightarrow> 'v option option" where
  "view_ptr un v h p = (case p of None \<Rightarrow> Some None
     | Some a \<Rightarrow> (case peek un h a of None \<Rightarrow> None | Some x \<Rightarrow> map_option Some (v h x)))"

fun view_list :: "('c heap \<Rightarrow> 'a \<Rightarrow> 'v option) \<Rightarrow> 'c heap \<Rightarrow> 'a list \<Rightarrow> 'v list option" where
  "view_list v h [] = Some []"
| "view_list v h (x # xs) = (case v h x of None \<Rightarrow> None
     | Some y \<Rightarrow> (case view_list v h xs of None \<Rightarrow> None | Some ys \<Rightarrow> Some (y # ys)))"

definition window :: "nat \<Rightarrow> nat \<Rightarrow> 'a list \<Rightarrow> 'a list option" where
  "window off n xs = (if off + n \<le> length xs then Some (take n (drop off xs)) else None)"

definition view_slice ::
  "('c \<Rightarrow> 'a list option) \<Rightarrow> ('c heap \<Rightarrow> 'a \<Rightarrow> 'v option) \<Rightarrow> 'c heap \<Rightarrow> slice option \<Rightarrow> 'v list option option" where
  "view_slice un v h s = (case s of None \<Rightarrow> Some None
     | Some (Slice a off n) \<Rightarrow> (case peek un h a of None \<Rightarrow> None
         | Some xs \<Rightarrow> (case window off n xs of None \<Rightarrow> None
             | Some ys \<Rightarrow> map_option Some (view_list v h ys))))"

definition view_map ::
  "('c \<Rightarrow> ('k :: linorder, 'e) gomap option) \<Rightarrow> 'c heap \<Rightarrow> ptr \<Rightarrow> ('k, 'e) gomap option option" where
  "view_map un h p = (case p of None \<Rightarrow> Some None
     | Some a \<Rightarrow> (case peek un h a of None \<Rightarrow> None
         | Some m \<Rightarrow> if gm_wf m then Some (Some (sort_key fst m)) else None))"

text \<open>The addresses a field reaches.\<close>

definition foot_val :: "'c heap \<Rightarrow> 'a \<Rightarrow> addr set" where
  "foot_val h x = {}"

definition foot_pair ::
  "('c heap \<Rightarrow> 'a \<Rightarrow> addr set) \<Rightarrow> ('c heap \<Rightarrow> 'b \<Rightarrow> addr set) \<Rightarrow> 'c heap \<Rightarrow> 'a \<times> 'b \<Rightarrow> addr set" where
  "foot_pair f1 f2 h p = f1 h (fst p) \<union> f2 h (snd p)"

definition foot_ptr :: "('c \<Rightarrow> 'a option) \<Rightarrow> ('c heap \<Rightarrow> 'a \<Rightarrow> addr set) \<Rightarrow> 'c heap \<Rightarrow> ptr \<Rightarrow> addr set" where
  "foot_ptr un f h p = (case p of None \<Rightarrow> {}
     | Some a \<Rightarrow> insert a (case peek un h a of None \<Rightarrow> {} | Some x \<Rightarrow> f h x))"

fun foot_list :: "('c heap \<Rightarrow> 'a \<Rightarrow> addr set) \<Rightarrow> 'c heap \<Rightarrow> 'a list \<Rightarrow> addr set" where
  "foot_list f h [] = {}"
| "foot_list f h (x # xs) = f h x \<union> foot_list f h xs"

definition foot_slice ::
  "('c \<Rightarrow> 'a list option) \<Rightarrow> ('c heap \<Rightarrow> 'a \<Rightarrow> addr set) \<Rightarrow> 'c heap \<Rightarrow> slice option \<Rightarrow> addr set" where
  "foot_slice un f h s = (case s of None \<Rightarrow> {}
     | Some (Slice a off n) \<Rightarrow> insert a (case peek un h a of None \<Rightarrow> {}
         | Some xs \<Rightarrow> (case window off n xs of None \<Rightarrow> {} | Some ys \<Rightarrow> foot_list f h ys)))"

definition foot_map :: "'c heap \<Rightarrow> ptr \<Rightarrow> addr set" where
  "foot_map h p = (case p of None \<Rightarrow> {} | Some a \<Rightarrow> {a})"

lemmas [heap_views] = view_val_def view_pair_def view_ptr_def view_slice_def view_map_def window_def
  foot_val_def foot_pair_def foot_ptr_def foot_slice_def foot_map_def peek_def

section \<open>Copying a field\<close>

definition copy_val :: "'a \<Rightarrow> ('c, 'a) heap_op" where
  "copy_val x = hreturn x"

definition copy_pair ::
  "('a \<Rightarrow> ('c, 'a) heap_op) \<Rightarrow> ('b \<Rightarrow> ('c, 'b) heap_op) \<Rightarrow> 'a \<times> 'b \<Rightarrow> ('c, 'a \<times> 'b) heap_op" where
  "copy_pair c1 c2 p = hbind (c1 (fst p)) (\<lambda>x. hbind (c2 (snd p)) (\<lambda>y. hreturn (x, y)))"

text \<open>\<^verbatim>\<open>if *in != nil { *out = new(T); (**in).DeepCopyInto(*out) }\<close>, with \<open>copy_val\<close> for \<^verbatim>\<open>**out = **in\<close>.\<close>

definition copy_ptr ::
  "('c \<Rightarrow> 'a option) \<Rightarrow> ('a \<Rightarrow> 'c) \<Rightarrow> ('a \<Rightarrow> ('c, 'a) heap_op) \<Rightarrow> ptr \<Rightarrow> ('c, ptr) heap_op" where
  "copy_ptr un mk cp p = (case p of None \<Rightarrow> hreturn None
     | Some a \<Rightarrow> hbind (load un a) (\<lambda>x. hbind (cp x) (\<lambda>y. hbind (alloc (mk y)) (\<lambda>b. hreturn (Some b)))))"

fun copy_list :: "('a \<Rightarrow> ('c, 'a) heap_op) \<Rightarrow> 'a list \<Rightarrow> ('c, 'a list) heap_op" where
  "copy_list cp [] = hreturn []"
| "copy_list cp (x # xs) = hbind (cp x) (\<lambda>y. hbind (copy_list cp xs) (\<lambda>ys. hreturn (y # ys)))"

text \<open>\<^verbatim>\<open>if *in != nil { *out = make([]T, len(*in)); for i := range *in { (*in)[i].DeepCopyInto(&(*out)[i]) } }\<close>.\<close>

definition copy_slice ::
  "('c \<Rightarrow> 'a list option) \<Rightarrow> ('a list \<Rightarrow> 'c) \<Rightarrow> ('a \<Rightarrow> ('c, 'a) heap_op) \<Rightarrow> slice option \<Rightarrow> ('c, slice option) heap_op" where
  "copy_slice un mk cp s = (case s of None \<Rightarrow> hreturn None
     | Some (Slice a off n) \<Rightarrow> hbind (load (\<lambda>c. Option.bind (un c) (window off n)) a) (\<lambda>xs.
         hbind (copy_list cp xs) (\<lambda>ys. hbind (alloc (mk ys)) (\<lambda>b. hreturn (Some (Slice b 0 n))))))"

text \<open>\<^verbatim>\<open>if *in != nil { *out = make(map[K]V, len(*in)); for key, val := range *in { (*out)[key] = val } }\<close>.\<close>

definition copy_entries :: "('k, 'e) gomap \<Rightarrow> ('k, 'e) gomap" where
  "copy_entries m = foldl (\<lambda>out (key, val). gm_put key val out) [] m"

definition copy_map ::
  "('c \<Rightarrow> ('k, 'e) gomap option) \<Rightarrow> (('k, 'e) gomap \<Rightarrow> 'c) \<Rightarrow> (('k \<times> 'e) list \<Rightarrow> ('k \<times> 'e) list)
     \<Rightarrow> ptr \<Rightarrow> ('c, ptr) heap_op" where
  "copy_map un mk ord p = (case p of None \<Rightarrow> hreturn None
     | Some a \<Rightarrow> hbind (load un a) (\<lambda>m. hbind (alloc (mk (copy_entries (ord m)))) (\<lambda>b. hreturn (Some b))))"

text \<open>Filling a map from distinct entries gives the entries.\<close>

lemma copy_entries_append:
  "distinct (map fst (m @ es)) \<Longrightarrow> foldl (\<lambda>out (key, val). gm_put key val out) m es = m @ es"
proof (induction es arbitrary: m)
  case (Cons e es)
  obtain k v where e: "e = (k, v)" by (cases e)
  have "k \<notin> fst ` set m" using Cons.prems e by auto
  then have "gm_put k v m = m @ [(k, v)]" by (induction m) auto
  with Cons.IH [of "m @ [(k, v)]"] Cons.prems e show ?case by simp
qed simp

lemma copy_entries_wf: "gm_wf m \<Longrightarrow> copy_entries m = m"
  using copy_entries_append [of "[]" m] by (simp add: copy_entries_def gm_wf_def)

lemma sort_entries_order:
  assumes "range_order ord" and "gm_wf m"
  shows "gm_wf (ord m)" and "sort_key fst (ord m) = sort_key fst m"
proof -
  have ms: "mset (ord m) = mset m" using assms(1) by (rule range_order_mset)
  show wf: "gm_wf (ord m)" by (rule map_of_mset_eq(1) [OF assms(2) ms])
  then have "inj_on fst (set (ord m))" by (simp add: gm_wf_def distinct_map)
  then show "sort_key fst (ord m) = sort_key fst m"
    by (intro sort_key_inj_key_eq) (simp_all add: ms)
qed

section \<open>Values that depend only on the cells they occupy\<close>

definition agree_on :: "addr set \<Rightarrow> 'c heap \<Rightarrow> 'c heap \<Rightarrow> bool" where
  "agree_on A h h' \<longleftrightarrow> (\<forall>a \<in> A. a < length h' \<and> h' ! a = h ! a)"

lemma agree_on_Un [simp]: "agree_on (A \<union> B) h h' \<longleftrightarrow> agree_on A h h' \<and> agree_on B h h'"
  by (auto simp: agree_on_def)

lemma agree_on_insert [simp]: "agree_on (insert a A) h h' \<longleftrightarrow> a < length h' \<and> h' ! a = h ! a \<and> agree_on A h h'"
  by (auto simp: agree_on_def)

lemma agree_on_empty [simp]: "agree_on {} h h'"
  by (simp add: agree_on_def)

lemma agree_on_append: "A \<subseteq> {..<length h} \<Longrightarrow> agree_on A h (h @ new)"
  by (auto simp: agree_on_def nth_append)

lemma agree_on_writes: "A \<subseteq> {..<length h} \<Longrightarrow> A \<inter> fst ` set ws = {} \<Longrightarrow> agree_on A h (writes ws h)"
  by (force simp: agree_on_def intro: writes_other)

locale heap_view =
  fixes view :: "'c heap \<Rightarrow> 'r \<Rightarrow> 'v option" and foot :: "'c heap \<Rightarrow> 'r \<Rightarrow> addr set"
  assumes foot_alloc: "view h r = Some v \<Longrightarrow> foot h r \<subseteq> {..<length h}"
    and view_local: "view h r = Some v \<Longrightarrow> agree_on (foot h r) h h' \<Longrightarrow> view h' r = Some v \<and> foot h' r = foot h r"
begin

lemma view_append: "view h r = Some v \<Longrightarrow> view (h @ new) r = Some v"
  using view_local [OF _ agree_on_append [OF foot_alloc]] by simp

lemma foot_append: "view h r = Some v \<Longrightarrow> foot (h @ new) r = foot h r"
  using view_local [OF _ agree_on_append [OF foot_alloc]] by simp

text \<open>Writes to cells a value does not occupy do not change it.\<close>

lemma view_writes:
  assumes v: "view h r = Some v" and "foot h r \<inter> fst ` set ws = {}"
  shows "view (writes ws h) r = Some v"
  using view_local [OF v agree_on_writes [OF foot_alloc [OF v] assms(2)]] by simp

end

text \<open>
  What a copy promises, with \<open>ok h c\<close> saying that the cell \<open>c\<close> is well-typed in \<open>h\<close>: on a
  well-typed value it returns; it only allocates; every cell it allocates is well-typed; its
  result unfolds to the same value; and it reaches none of the cells that existed before.
\<close>

locale deep_copy = heap_view view foot
  for view :: "'c heap \<Rightarrow> 'r \<Rightarrow> 'v option" and foot :: "'c heap \<Rightarrow> 'r \<Rightarrow> addr set" +
  fixes ok :: "'c heap \<Rightarrow> 'c \<Rightarrow> bool" and copy :: "'r \<Rightarrow> ('c, 'r) heap_op"
  assumes ok_append: "ok h c \<Longrightarrow> ok (h @ new) c"
    and copies: "view h r = Some v \<Longrightarrow>
      \<exists>r' new. copy r h = Some (r', h @ new) \<and> view (h @ new) r' = Some v
        \<and> foot (h @ new) r' \<subseteq> {length h..} \<and> (\<forall>c \<in> set new. ok (h @ new) c)"
begin

lemma copiesE:
  assumes "view h r = Some v"
  obtains r' new where "copy r h = Some (r', h @ new)" and "view (h @ new) r' = Some v"
    and "foot (h @ new) r' \<subseteq> {length h..}" and "\<forall>c \<in> set new. ok (h @ new) c"
  using copies [OF assms] by blast

text \<open>The copy and its original share no cell, so a write through one is not seen through the other.\<close>

lemma copies_apart:
  assumes v: "view h r = Some v" and c: "copy r h = Some (r', h')"
  shows "view h' r = Some v" and "view h' r' = Some v" and "foot h' r \<inter> foot h' r' = {}"
    and "\<exists>new. h' = h @ new"
proof -
  obtain s new where s: "copy r h = Some (s, h @ new)" "view (h @ new) s = Some v"
    "foot (h @ new) s \<subseteq> {length h..}" by (rule copiesE [OF v])
  with c have eq: "r' = s" "h' = h @ new" by simp_all
  show "view h' r = Some v" using v by (simp add: eq view_append)
  show "view h' r' = Some v" using s by (simp add: eq)
  show "foot h' r \<inter> foot h' r' = {}"
    using s(3) foot_alloc [OF v] by (fastforce simp: eq foot_append [OF v])
  show "\<exists>new. h' = h @ new" using eq by blast
qed

lemma copies_isolated:
  assumes v: "view h r = Some v" and c: "copy r h = Some (r', h')"
  shows "fst ` set ws \<subseteq> foot h' r' \<Longrightarrow> view (writes ws h') r = Some v"
    and "fst ` set ws \<subseteq> foot h' r \<Longrightarrow> view (writes ws h') r' = Some v"
  using copies_apart [OF v c] by (blast intro: view_writes)+

lemma copies_typed:
  assumes "view h r = Some v" and "copy r h = Some (r', h')" and "\<forall>c \<in> set h. ok h c"
  shows "\<forall>c \<in> set h'. ok h' c"
  using assms copies [of h r v] ok_append by fastforce

end

section \<open>Fields are values over their cells\<close>

lemma view_pair_Some: "view_pair v1 v2 h p = Some w \<longleftrightarrow>
    v1 h (fst p) = Some (fst w) \<and> v2 h (snd p) = Some (snd w)"
  by (cases w) (auto simp: view_pair_def split: option.splits)

lemma view_ptr_Some: "view_ptr un v h p = Some w \<longleftrightarrow> (case p of None \<Rightarrow> w = None
    | Some a \<Rightarrow> \<exists>x y. a < length h \<and> un (h ! a) = Some x \<and> v h x = Some y \<and> w = Some y)"
  by (auto simp: view_ptr_def peek_def split: option.splits)

lemma view_list_Cons_Some: "view_list v h (x # xs) = Some ys \<longleftrightarrow>
    (\<exists>z zs. v h x = Some z \<and> view_list v h xs = Some zs \<and> ys = z # zs)"
  by (auto split: option.splits)

lemma view_list_length: "view_list v h xs = Some ys \<Longrightarrow> length ys = length xs"
  by (induction xs arbitrary: ys) (auto split: option.splits)

lemma view_slice_Some: "view_slice un v h s = Some w \<longleftrightarrow> (case s of None \<Rightarrow> w = None
    | Some (Slice a off n) \<Rightarrow> \<exists>xs ys zs. a < length h \<and> un (h ! a) = Some xs \<and> window off n xs = Some ys
        \<and> view_list v h ys = Some zs \<and> w = Some zs)"
  by (auto simp: view_slice_def peek_def split: option.splits slice.splits)

lemma heap_view_val: "heap_view view_val foot_val"
  by unfold_locales (simp_all add: view_val_def foot_val_def)

lemma heap_view_pair:
  assumes 1: "heap_view v1 f1" and 2: "heap_view v2 f2"
  shows "heap_view (view_pair v1 v2) (foot_pair f1 f2)"
proof
  fix h h' p w
  assume "view_pair v1 v2 h p = Some w"
  then have w: "v1 h (fst p) = Some (fst w)" "v2 h (snd p) = Some (snd w)"
    by (simp_all add: view_pair_Some)
  show "foot_pair f1 f2 h p \<subseteq> {..<length h}"
    using heap_view.foot_alloc [OF 1 w(1)] heap_view.foot_alloc [OF 2 w(2)] by (simp add: foot_pair_def)
  assume "agree_on (foot_pair f1 f2 h p) h h'"
  then have "agree_on (f1 h (fst p)) h h'" "agree_on (f2 h (snd p)) h h'"
    by (simp_all add: foot_pair_def)
  then show "view_pair v1 v2 h' p = Some w \<and> foot_pair f1 f2 h' p = foot_pair f1 f2 h p"
    using heap_view.view_local [OF 1 w(1)] heap_view.view_local [OF 2 w(2)]
    by (simp add: view_pair_Some foot_pair_def)
qed

lemma heap_view_list:
  assumes vf: "heap_view v f"
  shows "heap_view (view_list v) (foot_list f)"
proof
  fix h h' xs ys
  assume vs: "view_list v h xs = Some ys"
  then show "foot_list f h xs \<subseteq> {..<length h}"
    by (induction xs arbitrary: ys)
      (auto simp: view_list_Cons_Some simp del: view_list.simps(2) dest!: heap_view.foot_alloc [OF vf])
  assume "agree_on (foot_list f h xs) h h'"
  with vs show "view_list v h' xs = Some ys \<and> foot_list f h' xs = foot_list f h xs"
  proof (induction xs arbitrary: ys)
    case (Cons x xs)
    then obtain z zs where z: "v h x = Some z" "view_list v h xs = Some zs" "ys = z # zs"
      by (auto simp: view_list_Cons_Some simp del: view_list.simps(2))
    then show ?case using Cons.IH [OF z(2)] Cons.prems(2) heap_view.view_local [OF vf z(1), of h'] by simp
  qed simp
qed

lemma heap_view_ptr:
  assumes vf: "heap_view v f"
  shows "heap_view (view_ptr un v) (foot_ptr un f)"
proof
  fix h h' p w
  assume vp: "view_ptr un v h p = Some w"
  show "foot_ptr un f h p \<subseteq> {..<length h}"
    using vp by (auto simp: view_ptr_Some foot_ptr_def peek_def split: option.splits dest!: heap_view.foot_alloc [OF vf])
  assume ag: "agree_on (foot_ptr un f h p) h h'"
  show "view_ptr un v h' p = Some w \<and> foot_ptr un f h' p = foot_ptr un f h p"
  proof (cases p)
    case (Some a)
    with vp obtain x y where x: "a < length h" "un (h ! a) = Some x" "v h x = Some y" "w = Some y"
      by (auto simp: view_ptr_Some)
    then show ?thesis using Some ag heap_view.view_local [OF vf x(3), of h']
      by (simp add: view_ptr_def foot_ptr_def peek_def)
  qed (use vp in \<open>simp add: view_ptr_def foot_ptr_def\<close>)
qed

lemma heap_view_slice:
  assumes vf: "heap_view v f"
  shows "heap_view (view_slice un v) (foot_slice un f)"
proof
  note l = heap_view_list [OF vf]
  fix h h' s w
  assume vs: "view_slice un v h s = Some w"
  show "foot_slice un f h s \<subseteq> {..<length h}"
    using vs by (auto simp: view_slice_Some foot_slice_def peek_def split: option.splits slice.splits
      dest!: heap_view.foot_alloc [OF l])
  assume ag: "agree_on (foot_slice un f h s) h h'"
  show "view_slice un v h' s = Some w \<and> foot_slice un f h' s = foot_slice un f h s"
  proof (cases s)
    case (Some sl)
    obtain a off n where sl: "sl = Slice a off n" by (cases sl)
    with vs Some obtain xs ys zs where x: "a < length h" "un (h ! a) = Some xs" "window off n xs = Some ys"
        "view_list v h ys = Some zs" "w = Some zs"
      by (auto simp: view_slice_Some)
    then show ?thesis using Some sl ag heap_view.view_local [OF l x(4), of h']
      by (simp add: view_slice_def foot_slice_def peek_def)
  qed (use vs in \<open>simp add: view_slice_def foot_slice_def\<close>)
qed

lemma heap_view_map: "heap_view (view_map un) foot_map"
  by unfold_locales
    (auto simp: view_map_def foot_map_def peek_def split: option.splits if_splits)

text \<open>A struct is the tuple of its fields.\<close>

lemma heap_view_struct: "heap_view v f \<Longrightarrow> heap_view (\<lambda>h i. v h (tup i)) (\<lambda>h i. f h (tup i))"
  unfolding heap_view_def by blast

section \<open>Copies of fields make copies of structs\<close>

text \<open>\<open>cell_law ok\<close>: a well-typed cell stays so when the heap grows.\<close>

definition cell_law :: "('c heap \<Rightarrow> 'c \<Rightarrow> bool) \<Rightarrow> bool" where
  "cell_law ok \<longleftrightarrow> (\<forall>h c new. ok h c \<longrightarrow> ok (h @ new) c)"

lemma cell_lawD: "cell_law ok \<Longrightarrow> ok h c \<Longrightarrow> ok (h @ new) c"
  by (simp add: cell_law_def)

lemma deep_copyI:
  assumes "heap_view view foot" and "cell_law ok"
    and "\<And>h r v. view h r = Some v \<Longrightarrow>
      \<exists>r' new. copy r h = Some (r', h @ new) \<and> view (h @ new) r' = Some v
        \<and> foot (h @ new) r' \<subseteq> {length h..} \<and> (\<forall>c \<in> set new. ok (h @ new) c)"
  shows "deep_copy view foot ok copy"
  using assms by (intro deep_copy.intro deep_copy_axioms.intro) (auto dest: cell_lawD)

lemma deep_copy_val: "cell_law ok \<Longrightarrow> deep_copy view_val foot_val ok copy_val"
  by (rule deep_copyI [OF heap_view_val]) (simp_all add: copy_val_def view_val_def foot_val_def)

text \<open>Two copies in a row: the first result is still there, still apart, and the new cells stay well-typed.\<close>

lemma deep_copy_pair:
  assumes 1: "deep_copy v1 f1 ok c1" and 2: "deep_copy v2 f2 ok c2"
  shows "deep_copy (view_pair v1 v2) (foot_pair f1 f2) ok (copy_pair c1 c2)"
proof (rule deep_copyI)
  note hv = deep_copy.axioms(1)
  show "heap_view (view_pair v1 v2) (foot_pair f1 f2)"
    by (rule heap_view_pair [OF hv [OF 1] hv [OF 2]])
  show law: "cell_law ok" using deep_copy.ok_append [OF 1] by (auto simp: cell_law_def)
  fix h p w
  assume "view_pair v1 v2 h p = Some w"
  then have w: "v1 h (fst p) = Some (fst w)" "v2 h (snd p) = Some (snd w)"
    by (simp_all add: view_pair_Some)
  obtain x n1 where x: "c1 (fst p) h = Some (x, h @ n1)" "v1 (h @ n1) x = Some (fst w)"
      "f1 (h @ n1) x \<subseteq> {length h..}" "\<forall>c \<in> set n1. ok (h @ n1) c"
    by (rule deep_copy.copiesE [OF 1 w(1)])
  note keep = heap_view.view_append [OF hv [OF 2] w(2), of n1]
  obtain y n2 where y: "c2 (snd p) (h @ n1) = Some (y, (h @ n1) @ n2)" "v2 ((h @ n1) @ n2) y = Some (snd w)"
      "f2 ((h @ n1) @ n2) y \<subseteq> {length (h @ n1)..}" "\<forall>c \<in> set n2. ok ((h @ n1) @ n2) c"
    by (rule deep_copy.copiesE [OF 2 keep])
  have "view_pair v1 v2 ((h @ n1) @ n2) (x, y) = Some w"
    using heap_view.view_append [OF hv [OF 1] x(2), of n2] y(2) by (simp add: view_pair_Some)
  moreover have "foot_pair f1 f2 ((h @ n1) @ n2) (x, y) \<subseteq> {length h..}"
    using heap_view.foot_append [OF hv [OF 1] x(2), of n2] x(3) y(3) by (fastforce simp: foot_pair_def)
  moreover have "\<forall>c \<in> set (n1 @ n2). ok ((h @ n1) @ n2) c"
    using cell_lawD [OF law, of "h @ n1" _ n2] x(4) y(4) by auto
  ultimately show "\<exists>r' new. copy_pair c1 c2 p h = Some (r', h @ new) \<and> view_pair v1 v2 (h @ new) r' = Some w
      \<and> foot_pair f1 f2 (h @ new) r' \<subseteq> {length h..} \<and> (\<forall>c \<in> set new. ok (h @ new) c)"
    using x(1) y(1) by (intro exI [of _ "(x, y)"] exI [of _ "n1 @ n2"]) (simp add: copy_pair_def)
qed

text \<open>
  A struct type whose function replaces fields of the bitwise copy \<^verbatim>\<open>*out = *in\<close>: with \<open>tup\<close> its
  tuple of fields and \<open>upd\<close> the replacement, the function is a copy when that of the tuple is.
\<close>

lemma deep_copy_struct:
  assumes cp: "deep_copy v f ok cp" and upd: "\<And>i t. tup (upd i t) = t"
    and fn: "\<And>i. copy i = hbind (cp (tup i)) (\<lambda>t. hreturn (upd i t))"
  shows "deep_copy (\<lambda>h i. v h (tup i)) (\<lambda>h i. f h (tup i)) ok copy"
proof (rule deep_copyI)
  show "heap_view (\<lambda>h i. v h (tup i)) (\<lambda>h i. f h (tup i))"
    by (rule heap_view_struct [OF deep_copy.axioms(1) [OF cp]])
  show "cell_law ok" using deep_copy.ok_append [OF cp] by (auto simp: cell_law_def)
  fix h i w
  assume "v h (tup i) = Some w"
  from deep_copy.copiesE [OF cp this] obtain t new where t: "cp (tup i) h = Some (t, h @ new)"
    "v (h @ new) t = Some w" "f (h @ new) t \<subseteq> {length h..}" "\<forall>c \<in> set new. ok (h @ new) c" by blast
  then show "\<exists>r' new. copy i h = Some (r', h @ new) \<and> v (h @ new) (tup r') = Some w
      \<and> f (h @ new) (tup r') \<subseteq> {length h..} \<and> (\<forall>c \<in> set new. ok (h @ new) c)"
    by (intro exI [of _ "upd i t"] exI [of _ new]) (simp add: fn upd)
qed

lemma deep_copy_list:
  assumes cp: "deep_copy v f ok cp"
  shows "deep_copy (view_list v) (foot_list f) ok (copy_list cp)"
proof (rule deep_copyI)
  show "heap_view (view_list v) (foot_list f)"
    by (rule heap_view_list [OF deep_copy.axioms(1) [OF cp]])
  show law: "cell_law ok" using deep_copy.ok_append [OF cp] by (auto simp: cell_law_def)
  fix h xs ys
  assume "view_list v h xs = Some ys"
  then show "\<exists>r' new. copy_list cp xs h = Some (r', h @ new) \<and> view_list v (h @ new) r' = Some ys
      \<and> foot_list f (h @ new) r' \<subseteq> {length h..} \<and> (\<forall>c \<in> set new. ok (h @ new) c)"
  proof (induction xs arbitrary: h ys)
    case (Cons x xs)
    note hv = deep_copy.axioms(1) [OF cp]
    from Cons.prems obtain z zs where z: "v h x = Some z" "view_list v h xs = Some zs" "ys = z # zs"
      by (auto simp: view_list_Cons_Some simp del: view_list.simps(2))
    obtain x' n1 where x: "cp x h = Some (x', h @ n1)" "v (h @ n1) x' = Some z"
        "f (h @ n1) x' \<subseteq> {length h..}" "\<forall>c \<in> set n1. ok (h @ n1) c"
      by (rule deep_copy.copiesE [OF cp z(1)])
    note keep = heap_view.view_append [OF heap_view_list [OF hv] z(2), of n1]
    from Cons.IH [OF keep] obtain xs' n2 where xs: "copy_list cp xs (h @ n1) = Some (xs', (h @ n1) @ n2)"
        "view_list v ((h @ n1) @ n2) xs' = Some zs" "foot_list f ((h @ n1) @ n2) xs' \<subseteq> {length (h @ n1)..}"
        "\<forall>c \<in> set n2. ok ((h @ n1) @ n2) c" by blast
    have "view_list v ((h @ n1) @ n2) (x' # xs') = Some ys"
      using heap_view.view_append [OF hv x(2), of n2] xs(2) z(3) by simp
    moreover have "foot_list f ((h @ n1) @ n2) (x' # xs') \<subseteq> {length h..}"
      using heap_view.foot_append [OF hv x(2), of n2] x(3) xs(3) by fastforce
    moreover have "\<forall>c \<in> set (n1 @ n2). ok ((h @ n1) @ n2) c"
      using cell_lawD [OF law, of "h @ n1" _ n2] x(4) xs(4) by auto
    ultimately show ?case
      using x(1) xs(1) by (intro exI [of _ "x' # xs'"] exI [of _ "n1 @ n2"]) simp
  qed simp
qed

text \<open>Storing a copy in a new cell and pointing to it.\<close>

lemma deep_copy_ptr:
  assumes cp: "deep_copy v f ok cp" and un: "\<And>x. un (mk x) = Some x"
    and ok: "\<And>h x w. v h x = Some w \<Longrightarrow> ok h (mk x)"
  shows "deep_copy (view_ptr un v) (foot_ptr un f) ok (copy_ptr un mk cp)"
proof (rule deep_copyI)
  note hv = deep_copy.axioms(1) [OF cp]
  show "heap_view (view_ptr un v) (foot_ptr un f)" by (rule heap_view_ptr [OF hv])
  show law: "cell_law ok" using deep_copy.ok_append [OF cp] by (auto simp: cell_law_def)
  fix h p w
  assume vp: "view_ptr un v h p = Some w"
  show "\<exists>r' new. copy_ptr un mk cp p h = Some (r', h @ new) \<and> view_ptr un v (h @ new) r' = Some w
      \<and> foot_ptr un f (h @ new) r' \<subseteq> {length h..} \<and> (\<forall>c \<in> set new. ok (h @ new) c)"
  proof (cases p)
    case (Some a)
    with vp obtain x y where x: "a < length h" "un (h ! a) = Some x" "v h x = Some y" "w = Some y"
      by (auto simp: view_ptr_Some)
    obtain x' n where c: "cp x h = Some (x', h @ n)" "v (h @ n) x' = Some y"
        "f (h @ n) x' \<subseteq> {length h..}" "\<forall>c \<in> set n. ok (h @ n) c"
      by (rule deep_copy.copiesE [OF cp x(3)])
    have at: "peek un ((h @ n) @ [mk x']) (length (h @ n)) = Some x'" by (simp add: peek_def un)
    have v': "v ((h @ n) @ [mk x']) x' = Some y" "f ((h @ n) @ [mk x']) x' = f (h @ n) x'"
      using heap_view.view_append [OF hv c(2)] heap_view.foot_append [OF hv c(2)] by blast+
    have "copy_ptr un mk cp p h = Some (Some (length (h @ n)), (h @ n) @ [mk x'])"
      using Some x c(1) by (simp add: copy_ptr_def load_run peek_def)
    moreover have "view_ptr un v ((h @ n) @ [mk x']) (Some (length (h @ n))) = Some w"
      unfolding view_ptr_def using at v'(1) x(4) by simp
    moreover have "foot_ptr un f ((h @ n) @ [mk x']) (Some (length (h @ n))) \<subseteq> {length h..}"
      unfolding foot_ptr_def using at v'(2) c(3) by simp
    moreover have "\<forall>c \<in> set (n @ [mk x']). ok ((h @ n) @ [mk x']) c"
      using cell_lawD [OF law, of "h @ n" _ "[mk x']"] c(4) ok [OF v'(1)] by auto
    ultimately show ?thesis by (metis append.assoc)
  qed (use vp in \<open>simp add: copy_ptr_def view_ptr_def foot_ptr_def\<close>)
qed

lemma deep_copy_slice:
  assumes cp: "deep_copy v f ok cp" and un: "\<And>x. un (mk x) = Some x"
    and ok: "\<And>h xs w. view_list v h xs = Some w \<Longrightarrow> ok h (mk xs)"
  shows "deep_copy (view_slice un v) (foot_slice un f) ok (copy_slice un mk cp)"
proof (rule deep_copyI)
  note l = deep_copy_list [OF cp]
  note hv = deep_copy.axioms(1) [OF l]
  show "heap_view (view_slice un v) (foot_slice un f)"
    by (rule heap_view_slice [OF deep_copy.axioms(1) [OF cp]])
  show law: "cell_law ok" using deep_copy.ok_append [OF cp] by (auto simp: cell_law_def)
  fix h s w
  assume vs: "view_slice un v h s = Some w"
  show "\<exists>r' new. copy_slice un mk cp s h = Some (r', h @ new) \<and> view_slice un v (h @ new) r' = Some w
      \<and> foot_slice un f (h @ new) r' \<subseteq> {length h..} \<and> (\<forall>c \<in> set new. ok (h @ new) c)"
  proof (cases s)
    case (Some sl)
    obtain a off m where sl: "sl = Slice a off m" by (cases sl)
    with vs Some obtain xs ys zs where x: "a < length h" "un (h ! a) = Some xs" "window off m xs = Some ys"
        "view_list v h ys = Some zs" "w = Some zs"
      by (auto simp: view_slice_Some)
    obtain ys' n where c: "copy_list cp ys h = Some (ys', h @ n)" "view_list v (h @ n) ys' = Some zs"
        "foot_list f (h @ n) ys' \<subseteq> {length h..}" "\<forall>c \<in> set n. ok (h @ n) c"
      by (rule deep_copy.copiesE [OF l x(4)])
    let ?h = "(h @ n) @ [mk ys']" and ?s = "Some (Slice (length (h @ n)) 0 m)"
    have at: "peek un ?h (length (h @ n)) = Some ys'" by (simp add: peek_def un)
    have len: "length ys' = m"
      using x(3,4) c(2) by (auto simp: window_def split: if_splits dest!: view_list_length)
    have v': "view_list v ?h ys' = Some zs" "foot_list f ?h ys' = foot_list f (h @ n) ys'"
      using heap_view.view_append [OF hv c(2)] heap_view.foot_append [OF hv c(2)] by blast+
    have "copy_slice un mk cp s h = Some (?s, ?h)"
      using Some sl x c(1) by (simp add: copy_slice_def load_run peek_def)
    moreover have "view_slice un v ?h ?s = Some w"
      unfolding view_slice_def using at v'(1) x(5) len by (simp add: window_def)
    moreover have "foot_slice un f ?h ?s \<subseteq> {length h..}"
      unfolding foot_slice_def using at v'(2) c(3) len by (simp add: window_def)
    moreover have "\<forall>c \<in> set (n @ [mk ys']). ok ?h c"
      using cell_lawD [OF law, of "h @ n" _ "[mk ys']"] c(4) ok [OF v'(1)] by auto
    ultimately show ?thesis by (metis append.assoc)
  qed (use vs in \<open>simp add: copy_slice_def view_slice_def foot_slice_def\<close>)
qed

lemma deep_copy_map:
  assumes "cell_law ok" and ord: "range_order ord" and un: "\<And>m. un (mk m) = Some m"
    and ok: "\<And>h m. gm_wf m \<Longrightarrow> ok h (mk m)"
  shows "deep_copy (view_map un) foot_map ok (copy_map un mk ord)"
proof (rule deep_copyI [OF heap_view_map assms(1)])
  fix h p w
  assume vp: "view_map un h p = Some w"
  show "\<exists>r' new. copy_map un mk ord p h = Some (r', h @ new) \<and> view_map un (h @ new) r' = Some w
      \<and> foot_map (h @ new) r' \<subseteq> {length h..} \<and> (\<forall>c \<in> set new. ok (h @ new) c)"
  proof (cases p)
    case (Some a)
    with vp obtain m where m: "peek un h a = Some m" "gm_wf m" "w = Some (sort_key fst m)"
      by (auto simp: view_map_def split: option.splits if_splits)
    note so = sort_entries_order [OF ord m(2)]
    have "copy_map un mk ord p h = Some (Some (length h), h @ [mk (ord m)])"
      using Some m(1) by (simp add: copy_map_def load_run copy_entries_wf [OF so(1)])
    moreover have "view_map un (h @ [mk (ord m)]) (Some (length h)) = Some w"
      using so m(3) by (simp add: view_map_def peek_new [of un _ "ord m"] un)
    ultimately show ?thesis using ok [OF so(1)]
      by (intro exI [of _ "Some (length h)"] exI [of _ "[mk (ord m)]"]) (simp add: foot_map_def)
  qed (use vp in \<open>simp add: copy_map_def view_map_def foot_map_def\<close>)
qed

end
