(* ===== verification/Deep_Copy_Types.thy ===== *)
theory Deep_Copy_Types
  imports Go_Heap
begin

text \<open>
  The structs of \<^verbatim>\<open>api/v1alpha1\<close> as they lie in memory, with addresses where \<open>API_Types\<close> has
  values: the cells of the heap, the value a struct unfolds to, the cells it reaches, and
  when a heap is well-typed.
\<close>

section \<open>The structs as they lie in memory\<close>

text \<open>The fields of the Go structs, with addresses where the source has pointers, slices and maps.\<close>

record rObjectMeta =
  rom_Name :: string
  rom_Namespace :: string
  rom_UID :: string
  rom_ResourceVersion :: string
  rom_CreationTimestamp :: "int option"
  rom_Labels :: ptr
  rom_Annotations :: ptr
  rom_OwnerReferences :: "slice option"
  rom_Finalizers :: "slice option"

record rLabelSelectorRequirement =
  rlsr_Key :: string
  rlsr_Operator :: string
  rlsr_Values :: "slice option"

record rLabelSelector =
  rls_MatchLabels :: ptr
  rls_MatchExpressions :: "slice option"

record rBackendSpec =
  rbes_Host :: string
  rbes_Strategy :: ptr
  rbes_StickySessions :: ptr
  rbes_Servers :: "slice option"

record rBackendStatus =
  rbest_Conditions :: "slice option"

record rBackend =
  rbe_TypeMeta :: TypeMeta
  rbe_ObjectMeta :: rObjectMeta
  rbe_Spec :: rBackendSpec
  rbe_Status :: rBackendStatus

record rBackendList =
  rbel_TypeMeta :: TypeMeta
  rbel_ListMeta :: ListMeta
  rbel_Items :: "slice option"

record rFrontendServiceSpec =
  rfss_IPAddress :: ptr
  rfss_Port :: int32
  rfss_Annotations :: ptr

record rFrontendSpec =
  rfes_Service :: ptr
  rfes_BackendSelector :: rLabelSelector

record rFrontendStatus =
  rfest_Conditions :: "slice option"
  rfest_Port :: ptr
  rfest_LoadBalancer :: ptr

record rFrontend =
  rfe_TypeMeta :: TypeMeta
  rfe_ObjectMeta :: rObjectMeta
  rfe_Spec :: rFrontendSpec
  rfe_Status :: rFrontendStatus

record rFrontendList =
  rfel_TypeMeta :: TypeMeta
  rfel_ListMeta :: ListMeta
  rfel_Items :: "slice option"

record rGlobalLoadBalancerSpec =
  rlbs_Replicas :: int32
  rlbs_Image :: string
  rlbs_Peers :: ptr
  rlbs_FrontendSelector :: rLabelSelector

record rGlobalLoadBalancerStatus =
  rlbst_Conditions :: "slice option"

record rGlobalLoadBalancer =
  rlb_TypeMeta :: TypeMeta
  rlb_ObjectMeta :: rObjectMeta
  rlb_Spec :: rGlobalLoadBalancerSpec
  rlb_Status :: rGlobalLoadBalancerStatus

record rGlobalLoadBalancerList =
  rlbl_TypeMeta :: TypeMeta
  rlbl_ListMeta :: ListMeta
  rlbl_Items :: "slice option"

record rPeerStatus =
  rpst_PeerName :: string
  rpst_LocalIP :: string
  rpst_RemoteIP :: string
  rpst_Conditions :: "slice option"

record rPeer =
  rpeer_TypeMeta :: TypeMeta
  rpeer_ObjectMeta :: rObjectMeta
  rpeer_Status :: rPeerStatus

record rPeerList =
  rpl_TypeMeta :: TypeMeta
  rpl_ListMeta :: ListMeta
  rpl_Items :: "slice option"

text \<open>What one allocation holds: a variable of a basic type, a map, the array of a slice, or a struct.\<close>

datatype gcell =
    CString string
  | CBool bool
  | CInt32 int32
  | CStringMap "(string, string) gomap"
  | CStrings "string list"
  | COwnerReferences "OwnerReference list"
  | CRequirements "rLabelSelectorRequirement list"
  | CConditions "Condition list"
  | CServers "ptr list"
  | CBackends "rBackend list"
  | CFrontends "rFrontend list"
  | CGlobalLoadBalancers "rGlobalLoadBalancer list"
  | CPeers "rPeer list"
  | CBackend rBackend
  | CBackendList rBackendList
  | CBackendServerSpec BackendServerSpec
  | CBackendSpec rBackendSpec
  | CBackendStatus rBackendStatus
  | CFrontend rFrontend
  | CFrontendList rFrontendList
  | CFrontendServiceSpec rFrontendServiceSpec
  | CFrontendSpec rFrontendSpec
  | CFrontendStatus rFrontendStatus
  | CGlobalLoadBalancer rGlobalLoadBalancer
  | CGlobalLoadBalancerFrontendStatus GlobalLoadBalancerFrontendStatus
  | CGlobalLoadBalancerList rGlobalLoadBalancerList
  | CGlobalLoadBalancerSpec rGlobalLoadBalancerSpec
  | CGlobalLoadBalancerStatus rGlobalLoadBalancerStatus
  | CLoadBalancerReference LoadBalancerReference
  | CPeer rPeer
  | CPeerList rPeerList
  | CPeerStatus rPeerStatus
  | CPeersSpec PeersSpec

text \<open>The content of a cell expected to be of a certain kind.\<close>

definition as_String :: "gcell \<Rightarrow> string option" where
  "as_String c = (case c of CString x \<Rightarrow> Some x | _ \<Rightarrow> None)"

definition as_Bool :: "gcell \<Rightarrow> bool option" where
  "as_Bool c = (case c of CBool x \<Rightarrow> Some x | _ \<Rightarrow> None)"

definition as_Int32 :: "gcell \<Rightarrow> int32 option" where
  "as_Int32 c = (case c of CInt32 x \<Rightarrow> Some x | _ \<Rightarrow> None)"

definition as_StringMap :: "gcell \<Rightarrow> (string, string) gomap option" where
  "as_StringMap c = (case c of CStringMap x \<Rightarrow> Some x | _ \<Rightarrow> None)"

definition as_Strings :: "gcell \<Rightarrow> string list option" where
  "as_Strings c = (case c of CStrings x \<Rightarrow> Some x | _ \<Rightarrow> None)"

definition as_OwnerReferences :: "gcell \<Rightarrow> OwnerReference list option" where
  "as_OwnerReferences c = (case c of COwnerReferences x \<Rightarrow> Some x | _ \<Rightarrow> None)"

definition as_Requirements :: "gcell \<Rightarrow> rLabelSelectorRequirement list option" where
  "as_Requirements c = (case c of CRequirements x \<Rightarrow> Some x | _ \<Rightarrow> None)"

definition as_Conditions :: "gcell \<Rightarrow> Condition list option" where
  "as_Conditions c = (case c of CConditions x \<Rightarrow> Some x | _ \<Rightarrow> None)"

definition as_Servers :: "gcell \<Rightarrow> ptr list option" where
  "as_Servers c = (case c of CServers x \<Rightarrow> Some x | _ \<Rightarrow> None)"

definition as_Backends :: "gcell \<Rightarrow> rBackend list option" where
  "as_Backends c = (case c of CBackends x \<Rightarrow> Some x | _ \<Rightarrow> None)"

definition as_Frontends :: "gcell \<Rightarrow> rFrontend list option" where
  "as_Frontends c = (case c of CFrontends x \<Rightarrow> Some x | _ \<Rightarrow> None)"

definition as_GlobalLoadBalancers :: "gcell \<Rightarrow> rGlobalLoadBalancer list option" where
  "as_GlobalLoadBalancers c = (case c of CGlobalLoadBalancers x \<Rightarrow> Some x | _ \<Rightarrow> None)"

definition as_Peers :: "gcell \<Rightarrow> rPeer list option" where
  "as_Peers c = (case c of CPeers x \<Rightarrow> Some x | _ \<Rightarrow> None)"

definition as_Backend :: "gcell \<Rightarrow> rBackend option" where
  "as_Backend c = (case c of CBackend x \<Rightarrow> Some x | _ \<Rightarrow> None)"

definition as_BackendList :: "gcell \<Rightarrow> rBackendList option" where
  "as_BackendList c = (case c of CBackendList x \<Rightarrow> Some x | _ \<Rightarrow> None)"

definition as_BackendServerSpec :: "gcell \<Rightarrow> BackendServerSpec option" where
  "as_BackendServerSpec c = (case c of CBackendServerSpec x \<Rightarrow> Some x | _ \<Rightarrow> None)"

definition as_BackendSpec :: "gcell \<Rightarrow> rBackendSpec option" where
  "as_BackendSpec c = (case c of CBackendSpec x \<Rightarrow> Some x | _ \<Rightarrow> None)"

definition as_BackendStatus :: "gcell \<Rightarrow> rBackendStatus option" where
  "as_BackendStatus c = (case c of CBackendStatus x \<Rightarrow> Some x | _ \<Rightarrow> None)"

definition as_Frontend :: "gcell \<Rightarrow> rFrontend option" where
  "as_Frontend c = (case c of CFrontend x \<Rightarrow> Some x | _ \<Rightarrow> None)"

definition as_FrontendList :: "gcell \<Rightarrow> rFrontendList option" where
  "as_FrontendList c = (case c of CFrontendList x \<Rightarrow> Some x | _ \<Rightarrow> None)"

definition as_FrontendServiceSpec :: "gcell \<Rightarrow> rFrontendServiceSpec option" where
  "as_FrontendServiceSpec c = (case c of CFrontendServiceSpec x \<Rightarrow> Some x | _ \<Rightarrow> None)"

definition as_FrontendSpec :: "gcell \<Rightarrow> rFrontendSpec option" where
  "as_FrontendSpec c = (case c of CFrontendSpec x \<Rightarrow> Some x | _ \<Rightarrow> None)"

definition as_FrontendStatus :: "gcell \<Rightarrow> rFrontendStatus option" where
  "as_FrontendStatus c = (case c of CFrontendStatus x \<Rightarrow> Some x | _ \<Rightarrow> None)"

definition as_GlobalLoadBalancer :: "gcell \<Rightarrow> rGlobalLoadBalancer option" where
  "as_GlobalLoadBalancer c = (case c of CGlobalLoadBalancer x \<Rightarrow> Some x | _ \<Rightarrow> None)"

definition as_GlobalLoadBalancerFrontendStatus :: "gcell \<Rightarrow> GlobalLoadBalancerFrontendStatus option" where
  "as_GlobalLoadBalancerFrontendStatus c = (case c of CGlobalLoadBalancerFrontendStatus x \<Rightarrow> Some x | _ \<Rightarrow> None)"

definition as_GlobalLoadBalancerList :: "gcell \<Rightarrow> rGlobalLoadBalancerList option" where
  "as_GlobalLoadBalancerList c = (case c of CGlobalLoadBalancerList x \<Rightarrow> Some x | _ \<Rightarrow> None)"

definition as_GlobalLoadBalancerSpec :: "gcell \<Rightarrow> rGlobalLoadBalancerSpec option" where
  "as_GlobalLoadBalancerSpec c = (case c of CGlobalLoadBalancerSpec x \<Rightarrow> Some x | _ \<Rightarrow> None)"

definition as_GlobalLoadBalancerStatus :: "gcell \<Rightarrow> rGlobalLoadBalancerStatus option" where
  "as_GlobalLoadBalancerStatus c = (case c of CGlobalLoadBalancerStatus x \<Rightarrow> Some x | _ \<Rightarrow> None)"

definition as_LoadBalancerReference :: "gcell \<Rightarrow> LoadBalancerReference option" where
  "as_LoadBalancerReference c = (case c of CLoadBalancerReference x \<Rightarrow> Some x | _ \<Rightarrow> None)"

definition as_Peer :: "gcell \<Rightarrow> rPeer option" where
  "as_Peer c = (case c of CPeer x \<Rightarrow> Some x | _ \<Rightarrow> None)"

definition as_PeerList :: "gcell \<Rightarrow> rPeerList option" where
  "as_PeerList c = (case c of CPeerList x \<Rightarrow> Some x | _ \<Rightarrow> None)"

definition as_PeerStatus :: "gcell \<Rightarrow> rPeerStatus option" where
  "as_PeerStatus c = (case c of CPeerStatus x \<Rightarrow> Some x | _ \<Rightarrow> None)"

definition as_PeersSpec :: "gcell \<Rightarrow> PeersSpec option" where
  "as_PeersSpec c = (case c of CPeersSpec x \<Rightarrow> Some x | _ \<Rightarrow> None)"

lemmas as_defs = as_String_def as_Bool_def as_Int32_def as_StringMap_def as_Strings_def as_OwnerReferences_def
  as_Requirements_def as_Conditions_def as_Servers_def as_Backends_def as_Frontends_def
  as_GlobalLoadBalancers_def as_Peers_def as_Backend_def as_BackendList_def as_BackendServerSpec_def
  as_BackendSpec_def as_BackendStatus_def as_Frontend_def as_FrontendList_def as_FrontendServiceSpec_def
  as_FrontendSpec_def as_FrontendStatus_def as_GlobalLoadBalancer_def
  as_GlobalLoadBalancerFrontendStatus_def as_GlobalLoadBalancerList_def as_GlobalLoadBalancerSpec_def
  as_GlobalLoadBalancerStatus_def as_LoadBalancerReference_def as_Peer_def as_PeerList_def
  as_PeerStatus_def as_PeersSpec_def

section \<open>The value of a struct and the cells it occupies\<close>

text \<open>
  The value is the tuple of the fields' values, in the order of the fields; \<open>T_parts h x\<close> is
  \<^const>\<open>None\<close> when \<open>x\<close> is not well-typed in \<open>h\<close>.
\<close>

type_synonym pObjectMeta = "string \<times> string \<times> string \<times> string \<times> int option \<times> (string, string)
  gomap option \<times> (string, string) gomap option \<times> OwnerReference list option \<times>
  string list option"
type_synonym pLabelSelectorRequirement = "string \<times> string \<times> string list option"
type_synonym pLabelSelector = "(string, string) gomap option \<times> pLabelSelectorRequirement list option"
type_synonym pBackendSpec = "string \<times> string option \<times> bool option \<times> BackendServerSpec option list option"
type_synonym pBackendStatus = "Condition list option"
type_synonym pBackend = "TypeMeta \<times> pObjectMeta \<times> pBackendSpec \<times> pBackendStatus"
type_synonym pBackendList = "TypeMeta \<times> ListMeta \<times> pBackend list option"
type_synonym pFrontendServiceSpec = "string option \<times> int32 \<times> (string, string) gomap option"
type_synonym pFrontendSpec = "pFrontendServiceSpec option \<times> pLabelSelector"
type_synonym pFrontendStatus = "Condition list option \<times> int32 option \<times> LoadBalancerReference option"
type_synonym pFrontend = "TypeMeta \<times> pObjectMeta \<times> pFrontendSpec \<times> pFrontendStatus"
type_synonym pFrontendList = "TypeMeta \<times> ListMeta \<times> pFrontend list option"
type_synonym pGlobalLoadBalancerSpec = "int32 \<times> string \<times> PeersSpec option \<times> pLabelSelector"
type_synonym pGlobalLoadBalancerStatus = "Condition list option"
type_synonym pGlobalLoadBalancer = "TypeMeta \<times> pObjectMeta \<times> pGlobalLoadBalancerSpec \<times> pGlobalLoadBalancerStatus"
type_synonym pGlobalLoadBalancerList = "TypeMeta \<times> ListMeta \<times> pGlobalLoadBalancer list option"
type_synonym pPeerStatus = "string \<times> string \<times> string \<times> Condition list option"
type_synonym pPeer = "TypeMeta \<times> pObjectMeta \<times> pPeerStatus"
type_synonym pPeerList = "TypeMeta \<times> ListMeta \<times> pPeer list option"

definition ObjectMeta_fields where
  "ObjectMeta_fields x = (rom_Name x, rom_Namespace x, rom_UID x, rom_ResourceVersion x, rom_CreationTimestamp x,
     rom_Labels x, rom_Annotations x, rom_OwnerReferences x, rom_Finalizers x)"

definition ObjectMeta_parts :: "gcell heap \<Rightarrow> rObjectMeta \<Rightarrow> pObjectMeta option" where
  "ObjectMeta_parts h x =
     view_pair view_val (view_pair view_val (view_pair view_val (view_pair view_val (view_pair view_val
     (view_pair (view_map as_StringMap) (view_pair (view_map as_StringMap) (view_pair (view_slice
     as_OwnerReferences view_val) (view_slice as_Strings view_val)))))))) h (ObjectMeta_fields x)"

definition ObjectMeta_foot :: "gcell heap \<Rightarrow> rObjectMeta \<Rightarrow> addr set" where
  "ObjectMeta_foot h x =
     foot_pair foot_val (foot_pair foot_val (foot_pair foot_val (foot_pair foot_val (foot_pair foot_val
     (foot_pair foot_map (foot_pair foot_map (foot_pair (foot_slice as_OwnerReferences foot_val)
     (foot_slice as_Strings foot_val)))))))) h (ObjectMeta_fields x)"

definition LabelSelectorRequirement_fields where
  "LabelSelectorRequirement_fields x = (rlsr_Key x, rlsr_Operator x, rlsr_Values x)"

definition LabelSelectorRequirement_parts :: "gcell heap \<Rightarrow> rLabelSelectorRequirement \<Rightarrow> pLabelSelectorRequirement option" where
  "LabelSelectorRequirement_parts h x =
     view_pair view_val (view_pair view_val (view_slice as_Strings view_val)) h (LabelSelectorRequirement_fields x)"

definition LabelSelectorRequirement_foot :: "gcell heap \<Rightarrow> rLabelSelectorRequirement \<Rightarrow> addr set" where
  "LabelSelectorRequirement_foot h x =
     foot_pair foot_val (foot_pair foot_val (foot_slice as_Strings foot_val)) h (LabelSelectorRequirement_fields x)"

definition LabelSelector_fields where
  "LabelSelector_fields x = (rls_MatchLabels x, rls_MatchExpressions x)"

definition LabelSelector_parts :: "gcell heap \<Rightarrow> rLabelSelector \<Rightarrow> pLabelSelector option" where
  "LabelSelector_parts h x =
     view_pair (view_map as_StringMap) (view_slice as_Requirements LabelSelectorRequirement_parts) h (LabelSelector_fields x)"

definition LabelSelector_foot :: "gcell heap \<Rightarrow> rLabelSelector \<Rightarrow> addr set" where
  "LabelSelector_foot h x =
     foot_pair foot_map (foot_slice as_Requirements LabelSelectorRequirement_foot) h (LabelSelector_fields x)"

definition BackendSpec_fields where
  "BackendSpec_fields x = (rbes_Host x, rbes_Strategy x, rbes_StickySessions x, rbes_Servers x)"

definition BackendSpec_parts :: "gcell heap \<Rightarrow> rBackendSpec \<Rightarrow> pBackendSpec option" where
  "BackendSpec_parts h x =
     view_pair view_val (view_pair (view_ptr as_String view_val) (view_pair (view_ptr as_Bool view_val)
     (view_slice as_Servers (view_ptr as_BackendServerSpec view_val)))) h (BackendSpec_fields x)"

definition BackendSpec_foot :: "gcell heap \<Rightarrow> rBackendSpec \<Rightarrow> addr set" where
  "BackendSpec_foot h x =
     foot_pair foot_val (foot_pair (foot_ptr as_String foot_val) (foot_pair (foot_ptr as_Bool foot_val)
     (foot_slice as_Servers (foot_ptr as_BackendServerSpec foot_val)))) h (BackendSpec_fields x)"

definition BackendStatus_fields where
  "BackendStatus_fields x = (rbest_Conditions x)"

definition BackendStatus_parts :: "gcell heap \<Rightarrow> rBackendStatus \<Rightarrow> pBackendStatus option" where
  "BackendStatus_parts h x =
     view_slice as_Conditions view_val h (BackendStatus_fields x)"

definition BackendStatus_foot :: "gcell heap \<Rightarrow> rBackendStatus \<Rightarrow> addr set" where
  "BackendStatus_foot h x =
     foot_slice as_Conditions foot_val h (BackendStatus_fields x)"

definition Backend_fields where
  "Backend_fields x = (rbe_TypeMeta x, rbe_ObjectMeta x, rbe_Spec x, rbe_Status x)"

definition Backend_parts :: "gcell heap \<Rightarrow> rBackend \<Rightarrow> pBackend option" where
  "Backend_parts h x =
     view_pair view_val (view_pair ObjectMeta_parts (view_pair BackendSpec_parts BackendStatus_parts)) h (Backend_fields x)"

definition Backend_foot :: "gcell heap \<Rightarrow> rBackend \<Rightarrow> addr set" where
  "Backend_foot h x =
     foot_pair foot_val (foot_pair ObjectMeta_foot (foot_pair BackendSpec_foot BackendStatus_foot)) h (Backend_fields x)"

definition BackendList_fields where
  "BackendList_fields x = (rbel_TypeMeta x, rbel_ListMeta x, rbel_Items x)"

definition BackendList_parts :: "gcell heap \<Rightarrow> rBackendList \<Rightarrow> pBackendList option" where
  "BackendList_parts h x =
     view_pair view_val (view_pair view_val (view_slice as_Backends Backend_parts)) h (BackendList_fields x)"

definition BackendList_foot :: "gcell heap \<Rightarrow> rBackendList \<Rightarrow> addr set" where
  "BackendList_foot h x =
     foot_pair foot_val (foot_pair foot_val (foot_slice as_Backends Backend_foot)) h (BackendList_fields x)"

definition FrontendServiceSpec_fields where
  "FrontendServiceSpec_fields x = (rfss_IPAddress x, rfss_Port x, rfss_Annotations x)"

definition FrontendServiceSpec_parts :: "gcell heap \<Rightarrow> rFrontendServiceSpec \<Rightarrow> pFrontendServiceSpec option" where
  "FrontendServiceSpec_parts h x =
     view_pair (view_ptr as_String view_val) (view_pair view_val (view_map as_StringMap)) h (FrontendServiceSpec_fields x)"

definition FrontendServiceSpec_foot :: "gcell heap \<Rightarrow> rFrontendServiceSpec \<Rightarrow> addr set" where
  "FrontendServiceSpec_foot h x =
     foot_pair (foot_ptr as_String foot_val) (foot_pair foot_val foot_map) h (FrontendServiceSpec_fields x)"

definition FrontendSpec_fields where
  "FrontendSpec_fields x = (rfes_Service x, rfes_BackendSelector x)"

definition FrontendSpec_parts :: "gcell heap \<Rightarrow> rFrontendSpec \<Rightarrow> pFrontendSpec option" where
  "FrontendSpec_parts h x =
     view_pair (view_ptr as_FrontendServiceSpec FrontendServiceSpec_parts) LabelSelector_parts h (FrontendSpec_fields x)"

definition FrontendSpec_foot :: "gcell heap \<Rightarrow> rFrontendSpec \<Rightarrow> addr set" where
  "FrontendSpec_foot h x =
     foot_pair (foot_ptr as_FrontendServiceSpec FrontendServiceSpec_foot) LabelSelector_foot h (FrontendSpec_fields x)"

definition FrontendStatus_fields where
  "FrontendStatus_fields x = (rfest_Conditions x, rfest_Port x, rfest_LoadBalancer x)"

definition FrontendStatus_parts :: "gcell heap \<Rightarrow> rFrontendStatus \<Rightarrow> pFrontendStatus option" where
  "FrontendStatus_parts h x =
     view_pair (view_slice as_Conditions view_val) (view_pair (view_ptr as_Int32 view_val) (view_ptr
     as_LoadBalancerReference view_val)) h (FrontendStatus_fields x)"

definition FrontendStatus_foot :: "gcell heap \<Rightarrow> rFrontendStatus \<Rightarrow> addr set" where
  "FrontendStatus_foot h x =
     foot_pair (foot_slice as_Conditions foot_val) (foot_pair (foot_ptr as_Int32 foot_val) (foot_ptr
     as_LoadBalancerReference foot_val)) h (FrontendStatus_fields x)"

definition Frontend_fields where
  "Frontend_fields x = (rfe_TypeMeta x, rfe_ObjectMeta x, rfe_Spec x, rfe_Status x)"

definition Frontend_parts :: "gcell heap \<Rightarrow> rFrontend \<Rightarrow> pFrontend option" where
  "Frontend_parts h x =
     view_pair view_val (view_pair ObjectMeta_parts (view_pair FrontendSpec_parts FrontendStatus_parts)) h (Frontend_fields x)"

definition Frontend_foot :: "gcell heap \<Rightarrow> rFrontend \<Rightarrow> addr set" where
  "Frontend_foot h x =
     foot_pair foot_val (foot_pair ObjectMeta_foot (foot_pair FrontendSpec_foot FrontendStatus_foot)) h (Frontend_fields x)"

definition FrontendList_fields where
  "FrontendList_fields x = (rfel_TypeMeta x, rfel_ListMeta x, rfel_Items x)"

definition FrontendList_parts :: "gcell heap \<Rightarrow> rFrontendList \<Rightarrow> pFrontendList option" where
  "FrontendList_parts h x =
     view_pair view_val (view_pair view_val (view_slice as_Frontends Frontend_parts)) h (FrontendList_fields x)"

definition FrontendList_foot :: "gcell heap \<Rightarrow> rFrontendList \<Rightarrow> addr set" where
  "FrontendList_foot h x =
     foot_pair foot_val (foot_pair foot_val (foot_slice as_Frontends Frontend_foot)) h (FrontendList_fields x)"

definition GlobalLoadBalancerSpec_fields where
  "GlobalLoadBalancerSpec_fields x = (rlbs_Replicas x, rlbs_Image x, rlbs_Peers x, rlbs_FrontendSelector x)"

definition GlobalLoadBalancerSpec_parts :: "gcell heap \<Rightarrow> rGlobalLoadBalancerSpec \<Rightarrow> pGlobalLoadBalancerSpec option" where
  "GlobalLoadBalancerSpec_parts h x =
     view_pair view_val (view_pair view_val (view_pair (view_ptr as_PeersSpec view_val)
     LabelSelector_parts)) h (GlobalLoadBalancerSpec_fields x)"

definition GlobalLoadBalancerSpec_foot :: "gcell heap \<Rightarrow> rGlobalLoadBalancerSpec \<Rightarrow> addr set" where
  "GlobalLoadBalancerSpec_foot h x =
     foot_pair foot_val (foot_pair foot_val (foot_pair (foot_ptr as_PeersSpec foot_val)
     LabelSelector_foot)) h (GlobalLoadBalancerSpec_fields x)"

definition GlobalLoadBalancerStatus_fields where
  "GlobalLoadBalancerStatus_fields x = (rlbst_Conditions x)"

definition GlobalLoadBalancerStatus_parts :: "gcell heap \<Rightarrow> rGlobalLoadBalancerStatus \<Rightarrow> pGlobalLoadBalancerStatus option" where
  "GlobalLoadBalancerStatus_parts h x =
     view_slice as_Conditions view_val h (GlobalLoadBalancerStatus_fields x)"

definition GlobalLoadBalancerStatus_foot :: "gcell heap \<Rightarrow> rGlobalLoadBalancerStatus \<Rightarrow> addr set" where
  "GlobalLoadBalancerStatus_foot h x =
     foot_slice as_Conditions foot_val h (GlobalLoadBalancerStatus_fields x)"

definition GlobalLoadBalancer_fields where
  "GlobalLoadBalancer_fields x = (rlb_TypeMeta x, rlb_ObjectMeta x, rlb_Spec x, rlb_Status x)"

definition GlobalLoadBalancer_parts :: "gcell heap \<Rightarrow> rGlobalLoadBalancer \<Rightarrow> pGlobalLoadBalancer option" where
  "GlobalLoadBalancer_parts h x =
     view_pair view_val (view_pair ObjectMeta_parts (view_pair GlobalLoadBalancerSpec_parts
     GlobalLoadBalancerStatus_parts)) h (GlobalLoadBalancer_fields x)"

definition GlobalLoadBalancer_foot :: "gcell heap \<Rightarrow> rGlobalLoadBalancer \<Rightarrow> addr set" where
  "GlobalLoadBalancer_foot h x =
     foot_pair foot_val (foot_pair ObjectMeta_foot (foot_pair GlobalLoadBalancerSpec_foot
     GlobalLoadBalancerStatus_foot)) h (GlobalLoadBalancer_fields x)"

definition GlobalLoadBalancerList_fields where
  "GlobalLoadBalancerList_fields x = (rlbl_TypeMeta x, rlbl_ListMeta x, rlbl_Items x)"

definition GlobalLoadBalancerList_parts :: "gcell heap \<Rightarrow> rGlobalLoadBalancerList \<Rightarrow> pGlobalLoadBalancerList option" where
  "GlobalLoadBalancerList_parts h x =
     view_pair view_val (view_pair view_val (view_slice as_GlobalLoadBalancers
     GlobalLoadBalancer_parts)) h (GlobalLoadBalancerList_fields x)"

definition GlobalLoadBalancerList_foot :: "gcell heap \<Rightarrow> rGlobalLoadBalancerList \<Rightarrow> addr set" where
  "GlobalLoadBalancerList_foot h x =
     foot_pair foot_val (foot_pair foot_val (foot_slice as_GlobalLoadBalancers GlobalLoadBalancer_foot)) h (GlobalLoadBalancerList_fields x)"

definition PeerStatus_fields where
  "PeerStatus_fields x = (rpst_PeerName x, rpst_LocalIP x, rpst_RemoteIP x, rpst_Conditions x)"

definition PeerStatus_parts :: "gcell heap \<Rightarrow> rPeerStatus \<Rightarrow> pPeerStatus option" where
  "PeerStatus_parts h x =
     view_pair view_val (view_pair view_val (view_pair view_val (view_slice as_Conditions view_val))) h (PeerStatus_fields x)"

definition PeerStatus_foot :: "gcell heap \<Rightarrow> rPeerStatus \<Rightarrow> addr set" where
  "PeerStatus_foot h x =
     foot_pair foot_val (foot_pair foot_val (foot_pair foot_val (foot_slice as_Conditions foot_val))) h (PeerStatus_fields x)"

definition Peer_fields where
  "Peer_fields x = (rpeer_TypeMeta x, rpeer_ObjectMeta x, rpeer_Status x)"

definition Peer_parts :: "gcell heap \<Rightarrow> rPeer \<Rightarrow> pPeer option" where
  "Peer_parts h x =
     view_pair view_val (view_pair ObjectMeta_parts PeerStatus_parts) h (Peer_fields x)"

definition Peer_foot :: "gcell heap \<Rightarrow> rPeer \<Rightarrow> addr set" where
  "Peer_foot h x =
     foot_pair foot_val (foot_pair ObjectMeta_foot PeerStatus_foot) h (Peer_fields x)"

definition PeerList_fields where
  "PeerList_fields x = (rpl_TypeMeta x, rpl_ListMeta x, rpl_Items x)"

definition PeerList_parts :: "gcell heap \<Rightarrow> rPeerList \<Rightarrow> pPeerList option" where
  "PeerList_parts h x =
     view_pair view_val (view_pair view_val (view_slice as_Peers Peer_parts)) h (PeerList_fields x)"

definition PeerList_foot :: "gcell heap \<Rightarrow> rPeerList \<Rightarrow> addr set" where
  "PeerList_foot h x =
     foot_pair foot_val (foot_pair foot_val (foot_slice as_Peers Peer_foot)) h (PeerList_fields x)"

lemmas fields_defs = ObjectMeta_fields_def LabelSelectorRequirement_fields_def LabelSelector_fields_def
  BackendSpec_fields_def BackendStatus_fields_def Backend_fields_def BackendList_fields_def
  FrontendServiceSpec_fields_def FrontendSpec_fields_def FrontendStatus_fields_def Frontend_fields_def
  FrontendList_fields_def GlobalLoadBalancerSpec_fields_def GlobalLoadBalancerStatus_fields_def
  GlobalLoadBalancer_fields_def GlobalLoadBalancerList_fields_def PeerStatus_fields_def Peer_fields_def
  PeerList_fields_def

lemmas parts_defs = ObjectMeta_parts_def ObjectMeta_foot_def LabelSelectorRequirement_parts_def
  LabelSelectorRequirement_foot_def LabelSelector_parts_def LabelSelector_foot_def BackendSpec_parts_def
  BackendSpec_foot_def BackendStatus_parts_def BackendStatus_foot_def Backend_parts_def Backend_foot_def
  BackendList_parts_def BackendList_foot_def FrontendServiceSpec_parts_def FrontendServiceSpec_foot_def
  FrontendSpec_parts_def FrontendSpec_foot_def FrontendStatus_parts_def FrontendStatus_foot_def
  Frontend_parts_def Frontend_foot_def FrontendList_parts_def FrontendList_foot_def
  GlobalLoadBalancerSpec_parts_def GlobalLoadBalancerSpec_foot_def GlobalLoadBalancerStatus_parts_def
  GlobalLoadBalancerStatus_foot_def GlobalLoadBalancer_parts_def GlobalLoadBalancer_foot_def
  GlobalLoadBalancerList_parts_def GlobalLoadBalancerList_foot_def PeerStatus_parts_def
  PeerStatus_foot_def Peer_parts_def Peer_foot_def PeerList_parts_def PeerList_foot_def

text \<open>Every struct is a value over the cells it reaches.\<close>

lemmas heap_view_fields = heap_view_val heap_view_pair heap_view_ptr heap_view_slice heap_view_map

lemma heap_view_ObjectMeta: "heap_view ObjectMeta_parts ObjectMeta_foot"
  unfolding ObjectMeta_parts_def [abs_def] ObjectMeta_foot_def [abs_def]
  by (rule heap_view_struct [where tup = ObjectMeta_fields]) (intro heap_view_fields)

lemma heap_view_LabelSelectorRequirement: "heap_view LabelSelectorRequirement_parts LabelSelectorRequirement_foot"
  unfolding LabelSelectorRequirement_parts_def [abs_def] LabelSelectorRequirement_foot_def [abs_def]
  by (rule heap_view_struct [where tup = LabelSelectorRequirement_fields]) (intro heap_view_fields)

lemma heap_view_LabelSelector: "heap_view LabelSelector_parts LabelSelector_foot"
  unfolding LabelSelector_parts_def [abs_def] LabelSelector_foot_def [abs_def]
  by (rule heap_view_struct [where tup = LabelSelector_fields]) (intro heap_view_fields heap_view_LabelSelectorRequirement)

lemma heap_view_BackendSpec: "heap_view BackendSpec_parts BackendSpec_foot"
  unfolding BackendSpec_parts_def [abs_def] BackendSpec_foot_def [abs_def]
  by (rule heap_view_struct [where tup = BackendSpec_fields]) (intro heap_view_fields)

lemma heap_view_BackendStatus: "heap_view BackendStatus_parts BackendStatus_foot"
  unfolding BackendStatus_parts_def [abs_def] BackendStatus_foot_def [abs_def]
  by (rule heap_view_struct [where tup = BackendStatus_fields]) (intro heap_view_fields)

lemma heap_view_Backend: "heap_view Backend_parts Backend_foot"
  unfolding Backend_parts_def [abs_def] Backend_foot_def [abs_def]
  by (rule heap_view_struct [where tup = Backend_fields]) (intro heap_view_fields heap_view_ObjectMeta heap_view_BackendSpec heap_view_BackendStatus)

lemma heap_view_BackendList: "heap_view BackendList_parts BackendList_foot"
  unfolding BackendList_parts_def [abs_def] BackendList_foot_def [abs_def]
  by (rule heap_view_struct [where tup = BackendList_fields]) (intro heap_view_fields heap_view_Backend)

lemma heap_view_FrontendServiceSpec: "heap_view FrontendServiceSpec_parts FrontendServiceSpec_foot"
  unfolding FrontendServiceSpec_parts_def [abs_def] FrontendServiceSpec_foot_def [abs_def]
  by (rule heap_view_struct [where tup = FrontendServiceSpec_fields]) (intro heap_view_fields)

lemma heap_view_FrontendSpec: "heap_view FrontendSpec_parts FrontendSpec_foot"
  unfolding FrontendSpec_parts_def [abs_def] FrontendSpec_foot_def [abs_def]
  by (rule heap_view_struct [where tup = FrontendSpec_fields]) (intro heap_view_fields heap_view_FrontendServiceSpec heap_view_LabelSelector)

lemma heap_view_FrontendStatus: "heap_view FrontendStatus_parts FrontendStatus_foot"
  unfolding FrontendStatus_parts_def [abs_def] FrontendStatus_foot_def [abs_def]
  by (rule heap_view_struct [where tup = FrontendStatus_fields]) (intro heap_view_fields)

lemma heap_view_Frontend: "heap_view Frontend_parts Frontend_foot"
  unfolding Frontend_parts_def [abs_def] Frontend_foot_def [abs_def]
  by (rule heap_view_struct [where tup = Frontend_fields]) (intro heap_view_fields heap_view_ObjectMeta heap_view_FrontendSpec heap_view_FrontendStatus)

lemma heap_view_FrontendList: "heap_view FrontendList_parts FrontendList_foot"
  unfolding FrontendList_parts_def [abs_def] FrontendList_foot_def [abs_def]
  by (rule heap_view_struct [where tup = FrontendList_fields]) (intro heap_view_fields heap_view_Frontend)

lemma heap_view_GlobalLoadBalancerSpec: "heap_view GlobalLoadBalancerSpec_parts GlobalLoadBalancerSpec_foot"
  unfolding GlobalLoadBalancerSpec_parts_def [abs_def] GlobalLoadBalancerSpec_foot_def [abs_def]
  by (rule heap_view_struct [where tup = GlobalLoadBalancerSpec_fields]) (intro heap_view_fields heap_view_LabelSelector)

lemma heap_view_GlobalLoadBalancerStatus: "heap_view GlobalLoadBalancerStatus_parts GlobalLoadBalancerStatus_foot"
  unfolding GlobalLoadBalancerStatus_parts_def [abs_def] GlobalLoadBalancerStatus_foot_def [abs_def]
  by (rule heap_view_struct [where tup = GlobalLoadBalancerStatus_fields]) (intro heap_view_fields)

lemma heap_view_GlobalLoadBalancer: "heap_view GlobalLoadBalancer_parts GlobalLoadBalancer_foot"
  unfolding GlobalLoadBalancer_parts_def [abs_def] GlobalLoadBalancer_foot_def [abs_def]
  by (rule heap_view_struct [where tup = GlobalLoadBalancer_fields]) (intro heap_view_fields heap_view_ObjectMeta heap_view_GlobalLoadBalancerSpec heap_view_GlobalLoadBalancerStatus)

lemma heap_view_GlobalLoadBalancerList: "heap_view GlobalLoadBalancerList_parts GlobalLoadBalancerList_foot"
  unfolding GlobalLoadBalancerList_parts_def [abs_def] GlobalLoadBalancerList_foot_def [abs_def]
  by (rule heap_view_struct [where tup = GlobalLoadBalancerList_fields]) (intro heap_view_fields heap_view_GlobalLoadBalancer)

lemma heap_view_PeerStatus: "heap_view PeerStatus_parts PeerStatus_foot"
  unfolding PeerStatus_parts_def [abs_def] PeerStatus_foot_def [abs_def]
  by (rule heap_view_struct [where tup = PeerStatus_fields]) (intro heap_view_fields)

lemma heap_view_Peer: "heap_view Peer_parts Peer_foot"
  unfolding Peer_parts_def [abs_def] Peer_foot_def [abs_def]
  by (rule heap_view_struct [where tup = Peer_fields]) (intro heap_view_fields heap_view_ObjectMeta heap_view_PeerStatus)

lemma heap_view_PeerList: "heap_view PeerList_parts PeerList_foot"
  unfolding PeerList_parts_def [abs_def] PeerList_foot_def [abs_def]
  by (rule heap_view_struct [where tup = PeerList_fields]) (intro heap_view_fields heap_view_Peer)

section \<open>Well-typed heaps\<close>

text \<open>A cell is well-typed when what it points to is there and of the types its fields declare.\<close>

fun wt_cell :: "gcell heap \<Rightarrow> gcell \<Rightarrow> bool" where
  "wt_cell h (CStringMap m) = gm_wf m"
| "wt_cell h (CRequirements xs) = (view_list LabelSelectorRequirement_parts h xs \<noteq> None)"
| "wt_cell h (CBackends xs) = (view_list Backend_parts h xs \<noteq> None)"
| "wt_cell h (CFrontends xs) = (view_list Frontend_parts h xs \<noteq> None)"
| "wt_cell h (CGlobalLoadBalancers xs) = (view_list GlobalLoadBalancer_parts h xs \<noteq> None)"
| "wt_cell h (CPeers xs) = (view_list Peer_parts h xs \<noteq> None)"
| "wt_cell h (CServers ps) = (view_list (view_ptr as_BackendServerSpec view_val) h ps \<noteq> None)"
| "wt_cell h (CBackend x) = (Backend_parts h x \<noteq> None)"
| "wt_cell h (CBackendList x) = (BackendList_parts h x \<noteq> None)"
| "wt_cell h (CBackendSpec x) = (BackendSpec_parts h x \<noteq> None)"
| "wt_cell h (CBackendStatus x) = (BackendStatus_parts h x \<noteq> None)"
| "wt_cell h (CFrontend x) = (Frontend_parts h x \<noteq> None)"
| "wt_cell h (CFrontendList x) = (FrontendList_parts h x \<noteq> None)"
| "wt_cell h (CFrontendServiceSpec x) = (FrontendServiceSpec_parts h x \<noteq> None)"
| "wt_cell h (CFrontendSpec x) = (FrontendSpec_parts h x \<noteq> None)"
| "wt_cell h (CFrontendStatus x) = (FrontendStatus_parts h x \<noteq> None)"
| "wt_cell h (CGlobalLoadBalancer x) = (GlobalLoadBalancer_parts h x \<noteq> None)"
| "wt_cell h (CGlobalLoadBalancerList x) = (GlobalLoadBalancerList_parts h x \<noteq> None)"
| "wt_cell h (CGlobalLoadBalancerSpec x) = (GlobalLoadBalancerSpec_parts h x \<noteq> None)"
| "wt_cell h (CGlobalLoadBalancerStatus x) = (GlobalLoadBalancerStatus_parts h x \<noteq> None)"
| "wt_cell h (CPeer x) = (Peer_parts h x \<noteq> None)"
| "wt_cell h (CPeerList x) = (PeerList_parts h x \<noteq> None)"
| "wt_cell h (CPeerStatus x) = (PeerStatus_parts h x \<noteq> None)"
| "wt_cell h _ = True"

definition wt_heap :: "gcell heap \<Rightarrow> bool" where
  "wt_heap h \<longleftrightarrow> list_all (wt_cell h) h"

lemmas struct_views = heap_view_ObjectMeta heap_view_LabelSelectorRequirement heap_view_LabelSelector heap_view_BackendSpec
  heap_view_BackendStatus heap_view_Backend heap_view_BackendList heap_view_FrontendServiceSpec
  heap_view_FrontendSpec heap_view_FrontendStatus heap_view_Frontend heap_view_FrontendList
  heap_view_GlobalLoadBalancerSpec heap_view_GlobalLoadBalancerStatus heap_view_GlobalLoadBalancer
  heap_view_GlobalLoadBalancerList heap_view_PeerStatus heap_view_Peer heap_view_PeerList

lemma cell_law_wt [simp]: "cell_law wt_cell"
  unfolding cell_law_def
proof (intro allI impI)
  fix h c new
  assume "wt_cell h c"
  then show "wt_cell (h @ new) c"
    by (cases c) (auto simp: struct_views [THEN heap_view.view_append]
      heap_view_list [THEN heap_view.view_append, OF heap_view_LabelSelectorRequirement]
      heap_view_list [THEN heap_view.view_append, OF heap_view_Backend]
      heap_view_list [THEN heap_view.view_append, OF heap_view_Frontend]
      heap_view_list [THEN heap_view.view_append, OF heap_view_GlobalLoadBalancer]
      heap_view_list [THEN heap_view.view_append, OF heap_view_Peer]
      heap_view_list [THEN heap_view.view_append, OF heap_view_ptr [OF heap_view_val]])
qed

end
