(* ===== verification/Deep_Copy.thy ===== *)
theory Deep_Copy
  imports Deep_Copy_Types
begin

text \<open>
  \<^verbatim>\<open>api/v1alpha1/zz_generated.deepcopy.go\<close>: the functions \<^verbatim>\<open>DeepCopyInto\<close>, \<^verbatim>\<open>DeepCopy\<close> and
  \<^verbatim>\<open>DeepCopyObject\<close> of the custom resources, and that each keeps the contract \<open>deep_copy\<close>. The
  copies of the embedded types of \<^verbatim>\<open>apimachinery\<close> are a parameter with the same contract. A function
  that writes to \<^verbatim>\<open>*out\<close> while it reads \<^verbatim>\<open>*in\<close> returns the final \<^verbatim>\<open>*out\<close> here: every caller passes a
  variable of its own as \<^verbatim>\<open>out\<close>, never the one behind \<^verbatim>\<open>in\<close>, so the two cannot be told apart, and nor can
  the moment at which the cell of a copy is allocated, before or after what it refers to.
\<close>

section \<open>The code\<close>

text \<open>
  What the generated functions call: the copies of the types of \<^verbatim>\<open>apimachinery\<close>, and the order the
  runtime visits the entries of a map in.
\<close>

record apimachinery =
  ObjectMeta_copy :: "rObjectMeta \<Rightarrow> (gcell, rObjectMeta) heap_op"
  ListMeta_copy :: "ListMeta \<Rightarrow> (gcell, ListMeta) heap_op"
  LabelSelector_copy :: "rLabelSelector \<Rightarrow> (gcell, rLabelSelector) heap_op"
  Condition_copy :: "Condition \<Rightarrow> (gcell, Condition) heap_op"
  entry_order :: "(string \<times> string) list \<Rightarrow> (string \<times> string) list"

text \<open>
  \<^verbatim>\<open>DeepCopyInto\<close> as a function of \<^verbatim>\<open>*in\<close> that returns what it leaves in \<^verbatim>\<open>*out\<close>: the bitwise copy
  \<^verbatim>\<open>*out = *in\<close> with the fields the code goes on to assign. \<^verbatim>\<open>DeepCopy\<close> takes and returns a pointer.
\<close>

definition BackendServerSpec_DeepCopyInto :: "BackendServerSpec \<Rightarrow> (gcell, BackendServerSpec) heap_op" where
  "BackendServerSpec_DeepCopyInto x = hreturn x"

definition BackendServerSpec_DeepCopy :: "ptr \<Rightarrow> (gcell, ptr) heap_op" where
  "BackendServerSpec_DeepCopy = copy_ptr as_BackendServerSpec CBackendServerSpec BackendServerSpec_DeepCopyInto"

definition GlobalLoadBalancerFrontendStatus_DeepCopyInto :: "GlobalLoadBalancerFrontendStatus \<Rightarrow> (gcell, GlobalLoadBalancerFrontendStatus) heap_op" where
  "GlobalLoadBalancerFrontendStatus_DeepCopyInto x = hreturn x"

definition GlobalLoadBalancerFrontendStatus_DeepCopy :: "ptr \<Rightarrow> (gcell, ptr) heap_op" where
  "GlobalLoadBalancerFrontendStatus_DeepCopy = copy_ptr as_GlobalLoadBalancerFrontendStatus CGlobalLoadBalancerFrontendStatus GlobalLoadBalancerFrontendStatus_DeepCopyInto"

definition LoadBalancerReference_DeepCopyInto :: "LoadBalancerReference \<Rightarrow> (gcell, LoadBalancerReference) heap_op" where
  "LoadBalancerReference_DeepCopyInto x = hreturn x"

definition LoadBalancerReference_DeepCopy :: "ptr \<Rightarrow> (gcell, ptr) heap_op" where
  "LoadBalancerReference_DeepCopy = copy_ptr as_LoadBalancerReference CLoadBalancerReference LoadBalancerReference_DeepCopyInto"

definition PeersSpec_DeepCopyInto :: "PeersSpec \<Rightarrow> (gcell, PeersSpec) heap_op" where
  "PeersSpec_DeepCopyInto x = hreturn x"

definition PeersSpec_DeepCopy :: "ptr \<Rightarrow> (gcell, ptr) heap_op" where
  "PeersSpec_DeepCopy = copy_ptr as_PeersSpec CPeersSpec PeersSpec_DeepCopyInto"

definition BackendSpec_DeepCopyInto :: "rBackendSpec \<Rightarrow> (gcell, rBackendSpec) heap_op" where
  "BackendSpec_DeepCopyInto x =
     hbind (copy_ptr as_String CString copy_val (rbes_Strategy x)) (\<lambda>strategy.
     hbind (copy_ptr as_Bool CBool copy_val (rbes_StickySessions x)) (\<lambda>stickySessions.
     hbind (copy_slice as_Servers CServers (copy_ptr as_BackendServerSpec CBackendServerSpec copy_val) (rbes_Servers x)) (\<lambda>servers.
     hreturn (x\<lparr>rbes_Strategy := strategy, rbes_StickySessions := stickySessions,
                rbes_Servers := servers\<rparr>))))"

definition BackendSpec_DeepCopy :: "ptr \<Rightarrow> (gcell, ptr) heap_op" where
  "BackendSpec_DeepCopy = copy_ptr as_BackendSpec CBackendSpec BackendSpec_DeepCopyInto"

definition BackendStatus_DeepCopyInto :: "apimachinery \<Rightarrow> rBackendStatus \<Rightarrow> (gcell, rBackendStatus) heap_op" where
  "BackendStatus_DeepCopyInto lib x =
     hbind (copy_slice as_Conditions CConditions (Condition_copy lib) (rbest_Conditions x)) (\<lambda>conditions.
     hreturn (x\<lparr>rbest_Conditions := conditions\<rparr>))"

definition BackendStatus_DeepCopy :: "apimachinery \<Rightarrow> ptr \<Rightarrow> (gcell, ptr) heap_op" where
  "BackendStatus_DeepCopy lib = copy_ptr as_BackendStatus CBackendStatus (BackendStatus_DeepCopyInto lib)"

definition Backend_DeepCopyInto :: "apimachinery \<Rightarrow> rBackend \<Rightarrow> (gcell, rBackend) heap_op" where
  "Backend_DeepCopyInto lib x =
     hbind (ObjectMeta_copy lib (rbe_ObjectMeta x)) (\<lambda>objectMeta.
     hbind (BackendSpec_DeepCopyInto (rbe_Spec x)) (\<lambda>spec.
     hbind (BackendStatus_DeepCopyInto lib (rbe_Status x)) (\<lambda>status.
     hreturn (x\<lparr>rbe_TypeMeta := rbe_TypeMeta x, rbe_ObjectMeta := objectMeta, rbe_Spec := spec,
                rbe_Status := status\<rparr>))))"

definition Backend_DeepCopy :: "apimachinery \<Rightarrow> ptr \<Rightarrow> (gcell, ptr) heap_op" where
  "Backend_DeepCopy lib = copy_ptr as_Backend CBackend (Backend_DeepCopyInto lib)"

definition BackendList_DeepCopyInto :: "apimachinery \<Rightarrow> rBackendList \<Rightarrow> (gcell, rBackendList) heap_op" where
  "BackendList_DeepCopyInto lib x =
     hbind (ListMeta_copy lib (rbel_ListMeta x)) (\<lambda>listMeta.
     hbind (copy_slice as_Backends CBackends (Backend_DeepCopyInto lib) (rbel_Items x)) (\<lambda>items.
     hreturn (x\<lparr>rbel_TypeMeta := rbel_TypeMeta x, rbel_ListMeta := listMeta, rbel_Items := items\<rparr>)))"

definition BackendList_DeepCopy :: "apimachinery \<Rightarrow> ptr \<Rightarrow> (gcell, ptr) heap_op" where
  "BackendList_DeepCopy lib = copy_ptr as_BackendList CBackendList (BackendList_DeepCopyInto lib)"

definition FrontendServiceSpec_DeepCopyInto :: "apimachinery \<Rightarrow> rFrontendServiceSpec \<Rightarrow> (gcell, rFrontendServiceSpec) heap_op" where
  "FrontendServiceSpec_DeepCopyInto lib x =
     hbind (copy_ptr as_String CString copy_val (rfss_IPAddress x)) (\<lambda>ipAddress.
     hbind (copy_map as_StringMap CStringMap (entry_order lib) (rfss_Annotations x)) (\<lambda>annotations.
     hreturn (x\<lparr>rfss_IPAddress := ipAddress, rfss_Annotations := annotations\<rparr>)))"

definition FrontendServiceSpec_DeepCopy :: "apimachinery \<Rightarrow> ptr \<Rightarrow> (gcell, ptr) heap_op" where
  "FrontendServiceSpec_DeepCopy lib = copy_ptr as_FrontendServiceSpec CFrontendServiceSpec (FrontendServiceSpec_DeepCopyInto lib)"

definition FrontendSpec_DeepCopyInto :: "apimachinery \<Rightarrow> rFrontendSpec \<Rightarrow> (gcell, rFrontendSpec) heap_op" where
  "FrontendSpec_DeepCopyInto lib x =
     hbind (copy_ptr as_FrontendServiceSpec CFrontendServiceSpec (FrontendServiceSpec_DeepCopyInto lib) (rfes_Service x)) (\<lambda>service.
     hbind (LabelSelector_copy lib (rfes_BackendSelector x)) (\<lambda>backendSelector.
     hreturn (x\<lparr>rfes_Service := service, rfes_BackendSelector := backendSelector\<rparr>)))"

definition FrontendSpec_DeepCopy :: "apimachinery \<Rightarrow> ptr \<Rightarrow> (gcell, ptr) heap_op" where
  "FrontendSpec_DeepCopy lib = copy_ptr as_FrontendSpec CFrontendSpec (FrontendSpec_DeepCopyInto lib)"

definition FrontendStatus_DeepCopyInto :: "apimachinery \<Rightarrow> rFrontendStatus \<Rightarrow> (gcell, rFrontendStatus) heap_op" where
  "FrontendStatus_DeepCopyInto lib x =
     hbind (copy_slice as_Conditions CConditions (Condition_copy lib) (rfest_Conditions x)) (\<lambda>conditions.
     hbind (copy_ptr as_Int32 CInt32 copy_val (rfest_Port x)) (\<lambda>port.
     hbind (copy_ptr as_LoadBalancerReference CLoadBalancerReference copy_val (rfest_LoadBalancer x)) (\<lambda>loadBalancer.
     hreturn (x\<lparr>rfest_Conditions := conditions, rfest_Port := port, rfest_LoadBalancer := loadBalancer\<rparr>))))"

definition FrontendStatus_DeepCopy :: "apimachinery \<Rightarrow> ptr \<Rightarrow> (gcell, ptr) heap_op" where
  "FrontendStatus_DeepCopy lib = copy_ptr as_FrontendStatus CFrontendStatus (FrontendStatus_DeepCopyInto lib)"

definition Frontend_DeepCopyInto :: "apimachinery \<Rightarrow> rFrontend \<Rightarrow> (gcell, rFrontend) heap_op" where
  "Frontend_DeepCopyInto lib x =
     hbind (ObjectMeta_copy lib (rfe_ObjectMeta x)) (\<lambda>objectMeta.
     hbind (FrontendSpec_DeepCopyInto lib (rfe_Spec x)) (\<lambda>spec.
     hbind (FrontendStatus_DeepCopyInto lib (rfe_Status x)) (\<lambda>status.
     hreturn (x\<lparr>rfe_TypeMeta := rfe_TypeMeta x, rfe_ObjectMeta := objectMeta, rfe_Spec := spec,
                rfe_Status := status\<rparr>))))"

definition Frontend_DeepCopy :: "apimachinery \<Rightarrow> ptr \<Rightarrow> (gcell, ptr) heap_op" where
  "Frontend_DeepCopy lib = copy_ptr as_Frontend CFrontend (Frontend_DeepCopyInto lib)"

definition FrontendList_DeepCopyInto :: "apimachinery \<Rightarrow> rFrontendList \<Rightarrow> (gcell, rFrontendList) heap_op" where
  "FrontendList_DeepCopyInto lib x =
     hbind (ListMeta_copy lib (rfel_ListMeta x)) (\<lambda>listMeta.
     hbind (copy_slice as_Frontends CFrontends (Frontend_DeepCopyInto lib) (rfel_Items x)) (\<lambda>items.
     hreturn (x\<lparr>rfel_TypeMeta := rfel_TypeMeta x, rfel_ListMeta := listMeta, rfel_Items := items\<rparr>)))"

definition FrontendList_DeepCopy :: "apimachinery \<Rightarrow> ptr \<Rightarrow> (gcell, ptr) heap_op" where
  "FrontendList_DeepCopy lib = copy_ptr as_FrontendList CFrontendList (FrontendList_DeepCopyInto lib)"

definition GlobalLoadBalancerSpec_DeepCopyInto :: "apimachinery \<Rightarrow> rGlobalLoadBalancerSpec \<Rightarrow> (gcell, rGlobalLoadBalancerSpec) heap_op" where
  "GlobalLoadBalancerSpec_DeepCopyInto lib x =
     hbind (copy_ptr as_PeersSpec CPeersSpec copy_val (rlbs_Peers x)) (\<lambda>peers.
     hbind (LabelSelector_copy lib (rlbs_FrontendSelector x)) (\<lambda>frontendSelector.
     hreturn (x\<lparr>rlbs_Peers := peers, rlbs_FrontendSelector := frontendSelector\<rparr>)))"

definition GlobalLoadBalancerSpec_DeepCopy :: "apimachinery \<Rightarrow> ptr \<Rightarrow> (gcell, ptr) heap_op" where
  "GlobalLoadBalancerSpec_DeepCopy lib = copy_ptr as_GlobalLoadBalancerSpec CGlobalLoadBalancerSpec (GlobalLoadBalancerSpec_DeepCopyInto lib)"

definition GlobalLoadBalancerStatus_DeepCopyInto :: "apimachinery \<Rightarrow> rGlobalLoadBalancerStatus \<Rightarrow> (gcell, rGlobalLoadBalancerStatus) heap_op" where
  "GlobalLoadBalancerStatus_DeepCopyInto lib x =
     hbind (copy_slice as_Conditions CConditions (Condition_copy lib) (rlbst_Conditions x)) (\<lambda>conditions.
     hreturn (x\<lparr>rlbst_Conditions := conditions\<rparr>))"

definition GlobalLoadBalancerStatus_DeepCopy :: "apimachinery \<Rightarrow> ptr \<Rightarrow> (gcell, ptr) heap_op" where
  "GlobalLoadBalancerStatus_DeepCopy lib = copy_ptr as_GlobalLoadBalancerStatus CGlobalLoadBalancerStatus (GlobalLoadBalancerStatus_DeepCopyInto lib)"

definition GlobalLoadBalancer_DeepCopyInto :: "apimachinery \<Rightarrow> rGlobalLoadBalancer \<Rightarrow> (gcell, rGlobalLoadBalancer) heap_op" where
  "GlobalLoadBalancer_DeepCopyInto lib x =
     hbind (ObjectMeta_copy lib (rlb_ObjectMeta x)) (\<lambda>objectMeta.
     hbind (GlobalLoadBalancerSpec_DeepCopyInto lib (rlb_Spec x)) (\<lambda>spec.
     hbind (GlobalLoadBalancerStatus_DeepCopyInto lib (rlb_Status x)) (\<lambda>status.
     hreturn (x\<lparr>rlb_TypeMeta := rlb_TypeMeta x, rlb_ObjectMeta := objectMeta, rlb_Spec := spec,
                rlb_Status := status\<rparr>))))"

definition GlobalLoadBalancer_DeepCopy :: "apimachinery \<Rightarrow> ptr \<Rightarrow> (gcell, ptr) heap_op" where
  "GlobalLoadBalancer_DeepCopy lib = copy_ptr as_GlobalLoadBalancer CGlobalLoadBalancer (GlobalLoadBalancer_DeepCopyInto lib)"

definition GlobalLoadBalancerList_DeepCopyInto :: "apimachinery \<Rightarrow> rGlobalLoadBalancerList \<Rightarrow> (gcell, rGlobalLoadBalancerList) heap_op" where
  "GlobalLoadBalancerList_DeepCopyInto lib x =
     hbind (ListMeta_copy lib (rlbl_ListMeta x)) (\<lambda>listMeta.
     hbind (copy_slice as_GlobalLoadBalancers CGlobalLoadBalancers (GlobalLoadBalancer_DeepCopyInto lib) (rlbl_Items x)) (\<lambda>items.
     hreturn (x\<lparr>rlbl_TypeMeta := rlbl_TypeMeta x, rlbl_ListMeta := listMeta, rlbl_Items := items\<rparr>)))"

definition GlobalLoadBalancerList_DeepCopy :: "apimachinery \<Rightarrow> ptr \<Rightarrow> (gcell, ptr) heap_op" where
  "GlobalLoadBalancerList_DeepCopy lib = copy_ptr as_GlobalLoadBalancerList CGlobalLoadBalancerList (GlobalLoadBalancerList_DeepCopyInto lib)"

definition PeerStatus_DeepCopyInto :: "apimachinery \<Rightarrow> rPeerStatus \<Rightarrow> (gcell, rPeerStatus) heap_op" where
  "PeerStatus_DeepCopyInto lib x =
     hbind (copy_slice as_Conditions CConditions (Condition_copy lib) (rpst_Conditions x)) (\<lambda>conditions.
     hreturn (x\<lparr>rpst_Conditions := conditions\<rparr>))"

definition PeerStatus_DeepCopy :: "apimachinery \<Rightarrow> ptr \<Rightarrow> (gcell, ptr) heap_op" where
  "PeerStatus_DeepCopy lib = copy_ptr as_PeerStatus CPeerStatus (PeerStatus_DeepCopyInto lib)"

definition Peer_DeepCopyInto :: "apimachinery \<Rightarrow> rPeer \<Rightarrow> (gcell, rPeer) heap_op" where
  "Peer_DeepCopyInto lib x =
     hbind (ObjectMeta_copy lib (rpeer_ObjectMeta x)) (\<lambda>objectMeta.
     hbind (PeerStatus_DeepCopyInto lib (rpeer_Status x)) (\<lambda>status.
     hreturn (x\<lparr>rpeer_TypeMeta := rpeer_TypeMeta x, rpeer_ObjectMeta := objectMeta,
                rpeer_Status := status\<rparr>)))"

definition Peer_DeepCopy :: "apimachinery \<Rightarrow> ptr \<Rightarrow> (gcell, ptr) heap_op" where
  "Peer_DeepCopy lib = copy_ptr as_Peer CPeer (Peer_DeepCopyInto lib)"

definition PeerList_DeepCopyInto :: "apimachinery \<Rightarrow> rPeerList \<Rightarrow> (gcell, rPeerList) heap_op" where
  "PeerList_DeepCopyInto lib x =
     hbind (ListMeta_copy lib (rpl_ListMeta x)) (\<lambda>listMeta.
     hbind (copy_slice as_Peers CPeers (Peer_DeepCopyInto lib) (rpl_Items x)) (\<lambda>items.
     hreturn (x\<lparr>rpl_TypeMeta := rpl_TypeMeta x, rpl_ListMeta := listMeta, rpl_Items := items\<rparr>)))"

definition PeerList_DeepCopy :: "apimachinery \<Rightarrow> ptr \<Rightarrow> (gcell, ptr) heap_op" where
  "PeerList_DeepCopy lib = copy_ptr as_PeerList CPeerList (PeerList_DeepCopyInto lib)"

text \<open>A \<^verbatim>\<open>runtime.Object\<close> is an interface value: the dynamic type and the pointer, which may be nil.\<close>

datatype runtime_object =
    OBackend ptr
  | OBackendList ptr
  | OFrontend ptr
  | OFrontendList ptr
  | OGlobalLoadBalancer ptr
  | OGlobalLoadBalancerList ptr
  | OPeer ptr
  | OPeerList ptr

definition Backend_DeepCopyObject :: "apimachinery \<Rightarrow> ptr \<Rightarrow> (gcell, runtime_object option) heap_op" where
  "Backend_DeepCopyObject lib p = hbind (Backend_DeepCopy lib p) (\<lambda>c. if c \<noteq> None then hreturn (Some (OBackend c)) else hreturn None)"

definition BackendList_DeepCopyObject :: "apimachinery \<Rightarrow> ptr \<Rightarrow> (gcell, runtime_object option) heap_op" where
  "BackendList_DeepCopyObject lib p = hbind (BackendList_DeepCopy lib p) (\<lambda>c. if c \<noteq> None then hreturn (Some (OBackendList c)) else hreturn None)"

definition Frontend_DeepCopyObject :: "apimachinery \<Rightarrow> ptr \<Rightarrow> (gcell, runtime_object option) heap_op" where
  "Frontend_DeepCopyObject lib p = hbind (Frontend_DeepCopy lib p) (\<lambda>c. if c \<noteq> None then hreturn (Some (OFrontend c)) else hreturn None)"

definition FrontendList_DeepCopyObject :: "apimachinery \<Rightarrow> ptr \<Rightarrow> (gcell, runtime_object option) heap_op" where
  "FrontendList_DeepCopyObject lib p = hbind (FrontendList_DeepCopy lib p) (\<lambda>c. if c \<noteq> None then hreturn (Some (OFrontendList c)) else hreturn None)"

definition GlobalLoadBalancer_DeepCopyObject :: "apimachinery \<Rightarrow> ptr \<Rightarrow> (gcell, runtime_object option) heap_op" where
  "GlobalLoadBalancer_DeepCopyObject lib p = hbind (GlobalLoadBalancer_DeepCopy lib p) (\<lambda>c. if c \<noteq> None then hreturn (Some (OGlobalLoadBalancer c)) else hreturn None)"

definition GlobalLoadBalancerList_DeepCopyObject :: "apimachinery \<Rightarrow> ptr \<Rightarrow> (gcell, runtime_object option) heap_op" where
  "GlobalLoadBalancerList_DeepCopyObject lib p = hbind (GlobalLoadBalancerList_DeepCopy lib p) (\<lambda>c. if c \<noteq> None then hreturn (Some (OGlobalLoadBalancerList c)) else hreturn None)"

definition Peer_DeepCopyObject :: "apimachinery \<Rightarrow> ptr \<Rightarrow> (gcell, runtime_object option) heap_op" where
  "Peer_DeepCopyObject lib p = hbind (Peer_DeepCopy lib p) (\<lambda>c. if c \<noteq> None then hreturn (Some (OPeer c)) else hreturn None)"

definition PeerList_DeepCopyObject :: "apimachinery \<Rightarrow> ptr \<Rightarrow> (gcell, runtime_object option) heap_op" where
  "PeerList_DeepCopyObject lib p = hbind (PeerList_DeepCopy lib p) (\<lambda>c. if c \<noteq> None then hreturn (Some (OPeerList c)) else hreturn None)"

text \<open>The call through the interface.\<close>

fun DeepCopyObject :: "apimachinery \<Rightarrow> runtime_object \<Rightarrow> (gcell, runtime_object option) heap_op" where
  "DeepCopyObject lib (OBackend p) = Backend_DeepCopyObject lib p"
| "DeepCopyObject lib (OBackendList p) = BackendList_DeepCopyObject lib p"
| "DeepCopyObject lib (OFrontend p) = Frontend_DeepCopyObject lib p"
| "DeepCopyObject lib (OFrontendList p) = FrontendList_DeepCopyObject lib p"
| "DeepCopyObject lib (OGlobalLoadBalancer p) = GlobalLoadBalancer_DeepCopyObject lib p"
| "DeepCopyObject lib (OGlobalLoadBalancerList p) = GlobalLoadBalancerList_DeepCopyObject lib p"
| "DeepCopyObject lib (OPeer p) = Peer_DeepCopyObject lib p"
| "DeepCopyObject lib (OPeerList p) = PeerList_DeepCopyObject lib p"

section \<open>Each function is a copy\<close>

text \<open>The kinds of field that need nothing of the library.\<close>

lemmas copies_val = deep_copy_val [OF cell_law_wt]

lemma copies_String:
  "deep_copy (view_ptr as_String view_val) (foot_ptr as_String foot_val) wt_cell
     (copy_ptr as_String CString copy_val)"
  by (rule deep_copy_ptr [OF copies_val]) (simp_all add: as_defs)

lemma copies_Bool:
  "deep_copy (view_ptr as_Bool view_val) (foot_ptr as_Bool foot_val) wt_cell
     (copy_ptr as_Bool CBool copy_val)"
  by (rule deep_copy_ptr [OF copies_val]) (simp_all add: as_defs)

lemma copies_Int32:
  "deep_copy (view_ptr as_Int32 view_val) (foot_ptr as_Int32 foot_val) wt_cell
     (copy_ptr as_Int32 CInt32 copy_val)"
  by (rule deep_copy_ptr [OF copies_val]) (simp_all add: as_defs)

lemma copies_LoadBalancerReference:
  "deep_copy (view_ptr as_LoadBalancerReference view_val) (foot_ptr as_LoadBalancerReference foot_val) wt_cell
     (copy_ptr as_LoadBalancerReference CLoadBalancerReference copy_val)"
  by (rule deep_copy_ptr [OF copies_val]) (simp_all add: as_defs)

lemma copies_PeersSpec:
  "deep_copy (view_ptr as_PeersSpec view_val) (foot_ptr as_PeersSpec foot_val) wt_cell
     (copy_ptr as_PeersSpec CPeersSpec copy_val)"
  by (rule deep_copy_ptr [OF copies_val]) (simp_all add: as_defs)

lemma copies_BackendServerSpec:
  "deep_copy (view_ptr as_BackendServerSpec view_val) (foot_ptr as_BackendServerSpec foot_val) wt_cell
     (copy_ptr as_BackendServerSpec CBackendServerSpec copy_val)"
  by (rule deep_copy_ptr [OF copies_val]) (simp_all add: as_defs)

lemma copies_Servers:
  "deep_copy (view_slice as_Servers (view_ptr as_BackendServerSpec view_val)) (foot_slice as_Servers (foot_ptr as_BackendServerSpec foot_val)) wt_cell
     (copy_slice as_Servers CServers (copy_ptr as_BackendServerSpec CBackendServerSpec copy_val))"
  by (rule deep_copy_slice [OF copies_BackendServerSpec]) (simp_all add: as_defs)

lemma copies_Strings:
  "deep_copy (view_slice as_Strings view_val) (foot_slice as_Strings foot_val) wt_cell
     (copy_slice as_Strings CStrings copy_val)"
  by (rule deep_copy_slice [OF copies_val]) (simp_all add: as_defs)

lemma copies_OwnerReferences:
  "deep_copy (view_slice as_OwnerReferences view_val) (foot_slice as_OwnerReferences foot_val) wt_cell
     (copy_slice as_OwnerReferences COwnerReferences copy_val)"
  by (rule deep_copy_slice [OF copies_val]) (simp_all add: as_defs)

lemma copies_StringMap:
  "range_order ord \<Longrightarrow> deep_copy (view_map as_StringMap) foot_map wt_cell (copy_map as_StringMap CStringMap ord)"
  by (rule deep_copy_map [OF cell_law_wt]) (simp_all add: as_defs)

lemmas copy_unfold = copy_pair_def copy_val_def hbind_assoc

lemma copies_BackendSpec_into: "deep_copy BackendSpec_parts BackendSpec_foot wt_cell BackendSpec_DeepCopyInto"
  unfolding BackendSpec_parts_def [abs_def] BackendSpec_foot_def [abs_def]
  by (rule deep_copy_struct [where tup = BackendSpec_fields and upd = "\<lambda>i t. i\<lparr>rbes_Host := fst t, rbes_Strategy := fst (snd t),
      rbes_StickySessions := fst (snd (snd t)), rbes_Servers := snd (snd (snd t))\<rparr>",
      OF deep_copy_pair [OF copies_val deep_copy_pair [OF copies_String deep_copy_pair [OF copies_Bool
          copies_Servers]]]])
    (simp_all add: BackendSpec_DeepCopyInto_def BackendSpec_fields_def copy_unfold del: hreturn_run)

lemma copies_BackendSpec:
  "deep_copy (view_ptr as_BackendSpec BackendSpec_parts) (foot_ptr as_BackendSpec BackendSpec_foot) wt_cell BackendSpec_DeepCopy"
  unfolding BackendSpec_DeepCopy_def by (rule deep_copy_ptr [OF copies_BackendSpec_into]) (simp_all add: as_defs)

lemma copies_BackendServerSpec_DeepCopy:
  "deep_copy (view_ptr as_BackendServerSpec view_val) (foot_ptr as_BackendServerSpec foot_val) wt_cell BackendServerSpec_DeepCopy"
  unfolding BackendServerSpec_DeepCopy_def
  by (rule deep_copy_ptr) (simp_all add: as_defs BackendServerSpec_DeepCopyInto_def [abs_def] copies_val [unfolded copy_val_def])

lemma copies_GlobalLoadBalancerFrontendStatus_DeepCopy:
  "deep_copy (view_ptr as_GlobalLoadBalancerFrontendStatus view_val) (foot_ptr as_GlobalLoadBalancerFrontendStatus foot_val) wt_cell GlobalLoadBalancerFrontendStatus_DeepCopy"
  unfolding GlobalLoadBalancerFrontendStatus_DeepCopy_def
  by (rule deep_copy_ptr) (simp_all add: as_defs GlobalLoadBalancerFrontendStatus_DeepCopyInto_def [abs_def] copies_val [unfolded copy_val_def])

lemma copies_LoadBalancerReference_DeepCopy:
  "deep_copy (view_ptr as_LoadBalancerReference view_val) (foot_ptr as_LoadBalancerReference foot_val) wt_cell LoadBalancerReference_DeepCopy"
  unfolding LoadBalancerReference_DeepCopy_def
  by (rule deep_copy_ptr) (simp_all add: as_defs LoadBalancerReference_DeepCopyInto_def [abs_def] copies_val [unfolded copy_val_def])

lemma copies_PeersSpec_DeepCopy:
  "deep_copy (view_ptr as_PeersSpec view_val) (foot_ptr as_PeersSpec foot_val) wt_cell PeersSpec_DeepCopy"
  unfolding PeersSpec_DeepCopy_def
  by (rule deep_copy_ptr) (simp_all add: as_defs PeersSpec_DeepCopyInto_def [abs_def] copies_val [unfolded copy_val_def])

text \<open>
  Documented behaviour of the copies in \<^verbatim>\<open>apimachinery\<close>, and of \<^verbatim>\<open>range\<close> (each entry once, in
  some order); under it every generated function is a copy.
\<close>

locale apimachinery_copies =
  fixes lib :: apimachinery
  assumes object_meta: "deep_copy ObjectMeta_parts ObjectMeta_foot wt_cell (ObjectMeta_copy lib)"
    and list_meta: "deep_copy view_val foot_val wt_cell (ListMeta_copy lib)"
    and label_selector: "deep_copy LabelSelector_parts LabelSelector_foot wt_cell (LabelSelector_copy lib)"
    and condition: "deep_copy view_val foot_val wt_cell (Condition_copy lib)"
    and entries: "range_order (entry_order lib)"
begin

lemma copies_Conditions:
  "deep_copy (view_slice as_Conditions view_val) (foot_slice as_Conditions foot_val) wt_cell
     (copy_slice as_Conditions CConditions (Condition_copy lib))"
  by (rule deep_copy_slice [OF condition]) (simp_all add: as_defs)

lemma copies_BackendStatus_into: "deep_copy BackendStatus_parts BackendStatus_foot wt_cell (BackendStatus_DeepCopyInto lib)"
  unfolding BackendStatus_parts_def [abs_def] BackendStatus_foot_def [abs_def]
  by (rule deep_copy_struct [where tup = BackendStatus_fields and upd = "\<lambda>i t. i\<lparr>rbest_Conditions := t\<rparr>",
      OF copies_Conditions])
    (simp_all add: BackendStatus_DeepCopyInto_def BackendStatus_fields_def copy_unfold del: hreturn_run)

lemma copies_BackendStatus:
  "deep_copy (view_ptr as_BackendStatus BackendStatus_parts) (foot_ptr as_BackendStatus BackendStatus_foot) wt_cell (BackendStatus_DeepCopy lib)"
  unfolding BackendStatus_DeepCopy_def by (rule deep_copy_ptr [OF copies_BackendStatus_into]) (simp_all add: as_defs)

lemma copies_Backend_into: "deep_copy Backend_parts Backend_foot wt_cell (Backend_DeepCopyInto lib)"
  unfolding Backend_parts_def [abs_def] Backend_foot_def [abs_def]
  by (rule deep_copy_struct [where tup = Backend_fields and upd = "\<lambda>i t. i\<lparr>rbe_TypeMeta := fst t, rbe_ObjectMeta := fst (snd t),
      rbe_Spec := fst (snd (snd t)), rbe_Status := snd (snd (snd t))\<rparr>",
      OF deep_copy_pair [OF copies_val deep_copy_pair [OF object_meta deep_copy_pair [OF
          copies_BackendSpec_into copies_BackendStatus_into]]]])
    (simp_all add: Backend_DeepCopyInto_def Backend_fields_def copy_unfold del: hreturn_run)

lemma copies_Backend:
  "deep_copy (view_ptr as_Backend Backend_parts) (foot_ptr as_Backend Backend_foot) wt_cell (Backend_DeepCopy lib)"
  unfolding Backend_DeepCopy_def by (rule deep_copy_ptr [OF copies_Backend_into]) (simp_all add: as_defs)

lemma copies_Backends:
  "deep_copy (view_slice as_Backends Backend_parts) (foot_slice as_Backends Backend_foot) wt_cell
     (copy_slice as_Backends CBackends (Backend_DeepCopyInto lib))"
  by (rule deep_copy_slice [OF copies_Backend_into]) (simp_all add: as_defs)

lemma copies_BackendList_into: "deep_copy BackendList_parts BackendList_foot wt_cell (BackendList_DeepCopyInto lib)"
  unfolding BackendList_parts_def [abs_def] BackendList_foot_def [abs_def]
  by (rule deep_copy_struct [where tup = BackendList_fields and upd = "\<lambda>i t. i\<lparr>rbel_TypeMeta := fst t, rbel_ListMeta := fst (snd t),
      rbel_Items := snd (snd t)\<rparr>",
      OF deep_copy_pair [OF copies_val deep_copy_pair [OF list_meta copies_Backends]]])
    (simp_all add: BackendList_DeepCopyInto_def BackendList_fields_def copy_unfold del: hreturn_run)

lemma copies_BackendList:
  "deep_copy (view_ptr as_BackendList BackendList_parts) (foot_ptr as_BackendList BackendList_foot) wt_cell (BackendList_DeepCopy lib)"
  unfolding BackendList_DeepCopy_def by (rule deep_copy_ptr [OF copies_BackendList_into]) (simp_all add: as_defs)

lemma copies_FrontendServiceSpec_into: "deep_copy FrontendServiceSpec_parts FrontendServiceSpec_foot wt_cell (FrontendServiceSpec_DeepCopyInto lib)"
  unfolding FrontendServiceSpec_parts_def [abs_def] FrontendServiceSpec_foot_def [abs_def]
  by (rule deep_copy_struct [where tup = FrontendServiceSpec_fields and upd = "\<lambda>i t. i\<lparr>rfss_IPAddress := fst t, rfss_Port := fst (snd t),
      rfss_Annotations := snd (snd t)\<rparr>",
      OF deep_copy_pair [OF copies_String deep_copy_pair [OF copies_val copies_StringMap [OF entries]]]])
    (simp_all add: FrontendServiceSpec_DeepCopyInto_def FrontendServiceSpec_fields_def copy_unfold del: hreturn_run)

lemma copies_FrontendServiceSpec:
  "deep_copy (view_ptr as_FrontendServiceSpec FrontendServiceSpec_parts) (foot_ptr as_FrontendServiceSpec FrontendServiceSpec_foot) wt_cell (FrontendServiceSpec_DeepCopy lib)"
  unfolding FrontendServiceSpec_DeepCopy_def by (rule deep_copy_ptr [OF copies_FrontendServiceSpec_into]) (simp_all add: as_defs)

lemma copies_FrontendSpec_into: "deep_copy FrontendSpec_parts FrontendSpec_foot wt_cell (FrontendSpec_DeepCopyInto lib)"
  unfolding FrontendSpec_parts_def [abs_def] FrontendSpec_foot_def [abs_def]
  by (rule deep_copy_struct [where tup = FrontendSpec_fields and upd = "\<lambda>i t. i\<lparr>rfes_Service := fst t, rfes_BackendSelector := snd t\<rparr>",
      OF deep_copy_pair [OF copies_FrontendServiceSpec label_selector]])
    (simp_all add: FrontendSpec_DeepCopyInto_def FrontendServiceSpec_DeepCopy_def FrontendSpec_fields_def copy_unfold del: hreturn_run)

lemma copies_FrontendSpec:
  "deep_copy (view_ptr as_FrontendSpec FrontendSpec_parts) (foot_ptr as_FrontendSpec FrontendSpec_foot) wt_cell (FrontendSpec_DeepCopy lib)"
  unfolding FrontendSpec_DeepCopy_def by (rule deep_copy_ptr [OF copies_FrontendSpec_into]) (simp_all add: as_defs)

lemma copies_FrontendStatus_into: "deep_copy FrontendStatus_parts FrontendStatus_foot wt_cell (FrontendStatus_DeepCopyInto lib)"
  unfolding FrontendStatus_parts_def [abs_def] FrontendStatus_foot_def [abs_def]
  by (rule deep_copy_struct [where tup = FrontendStatus_fields and upd = "\<lambda>i t. i\<lparr>rfest_Conditions := fst t, rfest_Port := fst (snd t),
      rfest_LoadBalancer := snd (snd t)\<rparr>",
      OF deep_copy_pair [OF copies_Conditions deep_copy_pair [OF copies_Int32
          copies_LoadBalancerReference]]])
    (simp_all add: FrontendStatus_DeepCopyInto_def FrontendStatus_fields_def copy_unfold del: hreturn_run)

lemma copies_FrontendStatus:
  "deep_copy (view_ptr as_FrontendStatus FrontendStatus_parts) (foot_ptr as_FrontendStatus FrontendStatus_foot) wt_cell (FrontendStatus_DeepCopy lib)"
  unfolding FrontendStatus_DeepCopy_def by (rule deep_copy_ptr [OF copies_FrontendStatus_into]) (simp_all add: as_defs)

lemma copies_Frontend_into: "deep_copy Frontend_parts Frontend_foot wt_cell (Frontend_DeepCopyInto lib)"
  unfolding Frontend_parts_def [abs_def] Frontend_foot_def [abs_def]
  by (rule deep_copy_struct [where tup = Frontend_fields and upd = "\<lambda>i t. i\<lparr>rfe_TypeMeta := fst t, rfe_ObjectMeta := fst (snd t),
      rfe_Spec := fst (snd (snd t)), rfe_Status := snd (snd (snd t))\<rparr>",
      OF deep_copy_pair [OF copies_val deep_copy_pair [OF object_meta deep_copy_pair [OF
          copies_FrontendSpec_into copies_FrontendStatus_into]]]])
    (simp_all add: Frontend_DeepCopyInto_def Frontend_fields_def copy_unfold del: hreturn_run)

lemma copies_Frontend:
  "deep_copy (view_ptr as_Frontend Frontend_parts) (foot_ptr as_Frontend Frontend_foot) wt_cell (Frontend_DeepCopy lib)"
  unfolding Frontend_DeepCopy_def by (rule deep_copy_ptr [OF copies_Frontend_into]) (simp_all add: as_defs)

lemma copies_Frontends:
  "deep_copy (view_slice as_Frontends Frontend_parts) (foot_slice as_Frontends Frontend_foot) wt_cell
     (copy_slice as_Frontends CFrontends (Frontend_DeepCopyInto lib))"
  by (rule deep_copy_slice [OF copies_Frontend_into]) (simp_all add: as_defs)

lemma copies_FrontendList_into: "deep_copy FrontendList_parts FrontendList_foot wt_cell (FrontendList_DeepCopyInto lib)"
  unfolding FrontendList_parts_def [abs_def] FrontendList_foot_def [abs_def]
  by (rule deep_copy_struct [where tup = FrontendList_fields and upd = "\<lambda>i t. i\<lparr>rfel_TypeMeta := fst t, rfel_ListMeta := fst (snd t),
      rfel_Items := snd (snd t)\<rparr>",
      OF deep_copy_pair [OF copies_val deep_copy_pair [OF list_meta copies_Frontends]]])
    (simp_all add: FrontendList_DeepCopyInto_def FrontendList_fields_def copy_unfold del: hreturn_run)

lemma copies_FrontendList:
  "deep_copy (view_ptr as_FrontendList FrontendList_parts) (foot_ptr as_FrontendList FrontendList_foot) wt_cell (FrontendList_DeepCopy lib)"
  unfolding FrontendList_DeepCopy_def by (rule deep_copy_ptr [OF copies_FrontendList_into]) (simp_all add: as_defs)

lemma copies_GlobalLoadBalancerSpec_into: "deep_copy GlobalLoadBalancerSpec_parts GlobalLoadBalancerSpec_foot wt_cell (GlobalLoadBalancerSpec_DeepCopyInto lib)"
  unfolding GlobalLoadBalancerSpec_parts_def [abs_def] GlobalLoadBalancerSpec_foot_def [abs_def]
  by (rule deep_copy_struct [where tup = GlobalLoadBalancerSpec_fields and upd = "\<lambda>i t. i\<lparr>rlbs_Replicas := fst t, rlbs_Image := fst (snd t),
      rlbs_Peers := fst (snd (snd t)), rlbs_FrontendSelector := snd (snd (snd t))\<rparr>",
      OF deep_copy_pair [OF copies_val deep_copy_pair [OF copies_val deep_copy_pair [OF
          copies_PeersSpec label_selector]]]])
    (simp_all add: GlobalLoadBalancerSpec_DeepCopyInto_def GlobalLoadBalancerSpec_fields_def copy_unfold del: hreturn_run)

lemma copies_GlobalLoadBalancerSpec:
  "deep_copy (view_ptr as_GlobalLoadBalancerSpec GlobalLoadBalancerSpec_parts) (foot_ptr as_GlobalLoadBalancerSpec GlobalLoadBalancerSpec_foot) wt_cell (GlobalLoadBalancerSpec_DeepCopy lib)"
  unfolding GlobalLoadBalancerSpec_DeepCopy_def by (rule deep_copy_ptr [OF copies_GlobalLoadBalancerSpec_into]) (simp_all add: as_defs)

lemma copies_GlobalLoadBalancerStatus_into: "deep_copy GlobalLoadBalancerStatus_parts GlobalLoadBalancerStatus_foot wt_cell (GlobalLoadBalancerStatus_DeepCopyInto lib)"
  unfolding GlobalLoadBalancerStatus_parts_def [abs_def] GlobalLoadBalancerStatus_foot_def [abs_def]
  by (rule deep_copy_struct [where tup = GlobalLoadBalancerStatus_fields and upd = "\<lambda>i t. i\<lparr>rlbst_Conditions := t\<rparr>",
      OF copies_Conditions])
    (simp_all add: GlobalLoadBalancerStatus_DeepCopyInto_def GlobalLoadBalancerStatus_fields_def copy_unfold del: hreturn_run)

lemma copies_GlobalLoadBalancerStatus:
  "deep_copy (view_ptr as_GlobalLoadBalancerStatus GlobalLoadBalancerStatus_parts) (foot_ptr as_GlobalLoadBalancerStatus GlobalLoadBalancerStatus_foot) wt_cell (GlobalLoadBalancerStatus_DeepCopy lib)"
  unfolding GlobalLoadBalancerStatus_DeepCopy_def by (rule deep_copy_ptr [OF copies_GlobalLoadBalancerStatus_into]) (simp_all add: as_defs)

lemma copies_GlobalLoadBalancer_into: "deep_copy GlobalLoadBalancer_parts GlobalLoadBalancer_foot wt_cell (GlobalLoadBalancer_DeepCopyInto lib)"
  unfolding GlobalLoadBalancer_parts_def [abs_def] GlobalLoadBalancer_foot_def [abs_def]
  by (rule deep_copy_struct [where tup = GlobalLoadBalancer_fields and upd = "\<lambda>i t. i\<lparr>rlb_TypeMeta := fst t, rlb_ObjectMeta := fst (snd t),
      rlb_Spec := fst (snd (snd t)), rlb_Status := snd (snd (snd t))\<rparr>",
      OF deep_copy_pair [OF copies_val deep_copy_pair [OF object_meta deep_copy_pair [OF
          copies_GlobalLoadBalancerSpec_into copies_GlobalLoadBalancerStatus_into]]]])
    (simp_all add: GlobalLoadBalancer_DeepCopyInto_def GlobalLoadBalancer_fields_def copy_unfold del: hreturn_run)

lemma copies_GlobalLoadBalancer:
  "deep_copy (view_ptr as_GlobalLoadBalancer GlobalLoadBalancer_parts) (foot_ptr as_GlobalLoadBalancer GlobalLoadBalancer_foot) wt_cell (GlobalLoadBalancer_DeepCopy lib)"
  unfolding GlobalLoadBalancer_DeepCopy_def by (rule deep_copy_ptr [OF copies_GlobalLoadBalancer_into]) (simp_all add: as_defs)

lemma copies_GlobalLoadBalancers:
  "deep_copy (view_slice as_GlobalLoadBalancers GlobalLoadBalancer_parts) (foot_slice as_GlobalLoadBalancers GlobalLoadBalancer_foot) wt_cell
     (copy_slice as_GlobalLoadBalancers CGlobalLoadBalancers (GlobalLoadBalancer_DeepCopyInto lib))"
  by (rule deep_copy_slice [OF copies_GlobalLoadBalancer_into]) (simp_all add: as_defs)

lemma copies_GlobalLoadBalancerList_into: "deep_copy GlobalLoadBalancerList_parts GlobalLoadBalancerList_foot wt_cell (GlobalLoadBalancerList_DeepCopyInto lib)"
  unfolding GlobalLoadBalancerList_parts_def [abs_def] GlobalLoadBalancerList_foot_def [abs_def]
  by (rule deep_copy_struct [where tup = GlobalLoadBalancerList_fields and upd = "\<lambda>i t. i\<lparr>rlbl_TypeMeta := fst t, rlbl_ListMeta := fst (snd t),
      rlbl_Items := snd (snd t)\<rparr>",
      OF deep_copy_pair [OF copies_val deep_copy_pair [OF list_meta copies_GlobalLoadBalancers]]])
    (simp_all add: GlobalLoadBalancerList_DeepCopyInto_def GlobalLoadBalancerList_fields_def copy_unfold del: hreturn_run)

lemma copies_GlobalLoadBalancerList:
  "deep_copy (view_ptr as_GlobalLoadBalancerList GlobalLoadBalancerList_parts) (foot_ptr as_GlobalLoadBalancerList GlobalLoadBalancerList_foot) wt_cell (GlobalLoadBalancerList_DeepCopy lib)"
  unfolding GlobalLoadBalancerList_DeepCopy_def by (rule deep_copy_ptr [OF copies_GlobalLoadBalancerList_into]) (simp_all add: as_defs)

lemma copies_PeerStatus_into: "deep_copy PeerStatus_parts PeerStatus_foot wt_cell (PeerStatus_DeepCopyInto lib)"
  unfolding PeerStatus_parts_def [abs_def] PeerStatus_foot_def [abs_def]
  by (rule deep_copy_struct [where tup = PeerStatus_fields and upd = "\<lambda>i t. i\<lparr>rpst_PeerName := fst t, rpst_LocalIP := fst (snd t),
      rpst_RemoteIP := fst (snd (snd t)), rpst_Conditions := snd (snd (snd t))\<rparr>",
      OF deep_copy_pair [OF copies_val deep_copy_pair [OF copies_val deep_copy_pair [OF copies_val
          copies_Conditions]]]])
    (simp_all add: PeerStatus_DeepCopyInto_def PeerStatus_fields_def copy_unfold del: hreturn_run)

lemma copies_PeerStatus:
  "deep_copy (view_ptr as_PeerStatus PeerStatus_parts) (foot_ptr as_PeerStatus PeerStatus_foot) wt_cell (PeerStatus_DeepCopy lib)"
  unfolding PeerStatus_DeepCopy_def by (rule deep_copy_ptr [OF copies_PeerStatus_into]) (simp_all add: as_defs)

lemma copies_Peer_into: "deep_copy Peer_parts Peer_foot wt_cell (Peer_DeepCopyInto lib)"
  unfolding Peer_parts_def [abs_def] Peer_foot_def [abs_def]
  by (rule deep_copy_struct [where tup = Peer_fields and upd = "\<lambda>i t. i\<lparr>rpeer_TypeMeta := fst t, rpeer_ObjectMeta := fst (snd t),
      rpeer_Status := snd (snd t)\<rparr>",
      OF deep_copy_pair [OF copies_val deep_copy_pair [OF object_meta copies_PeerStatus_into]]])
    (simp_all add: Peer_DeepCopyInto_def Peer_fields_def copy_unfold del: hreturn_run)

lemma copies_Peer:
  "deep_copy (view_ptr as_Peer Peer_parts) (foot_ptr as_Peer Peer_foot) wt_cell (Peer_DeepCopy lib)"
  unfolding Peer_DeepCopy_def by (rule deep_copy_ptr [OF copies_Peer_into]) (simp_all add: as_defs)

lemma copies_Peers:
  "deep_copy (view_slice as_Peers Peer_parts) (foot_slice as_Peers Peer_foot) wt_cell
     (copy_slice as_Peers CPeers (Peer_DeepCopyInto lib))"
  by (rule deep_copy_slice [OF copies_Peer_into]) (simp_all add: as_defs)

lemma copies_PeerList_into: "deep_copy PeerList_parts PeerList_foot wt_cell (PeerList_DeepCopyInto lib)"
  unfolding PeerList_parts_def [abs_def] PeerList_foot_def [abs_def]
  by (rule deep_copy_struct [where tup = PeerList_fields and upd = "\<lambda>i t. i\<lparr>rpl_TypeMeta := fst t, rpl_ListMeta := fst (snd t),
      rpl_Items := snd (snd t)\<rparr>",
      OF deep_copy_pair [OF copies_val deep_copy_pair [OF list_meta copies_Peers]]])
    (simp_all add: PeerList_DeepCopyInto_def PeerList_fields_def copy_unfold del: hreturn_run)

lemma copies_PeerList:
  "deep_copy (view_ptr as_PeerList PeerList_parts) (foot_ptr as_PeerList PeerList_foot) wt_cell (PeerList_DeepCopy lib)"
  unfolding PeerList_DeepCopy_def by (rule deep_copy_ptr [OF copies_PeerList_into]) (simp_all add: as_defs)

end

end
