(* ===== verification/Deep_Copy_Properties.thy ===== *)
theory Deep_Copy_Properties
  imports Deep_Copy
begin

text \<open>
  What callers rely on when they copy an object through \<^verbatim>\<open>runtime.Object\<close> (the informer caches and
  the client of \<^verbatim>\<open>controller-runtime\<close> do): the copy is equal, shares nothing with the original, and a
  well-typed heap stays well-typed.
\<close>

section \<open>Objects behind the interface\<close>

datatype object_value =
    VBackend "pBackend option"
  | VBackendList "pBackendList option"
  | VFrontend "pFrontend option"
  | VFrontendList "pFrontendList option"
  | VGlobalLoadBalancer "pGlobalLoadBalancer option"
  | VGlobalLoadBalancerList "pGlobalLoadBalancerList option"
  | VPeer "pPeer option"
  | VPeerList "pPeerList option"

fun object_ptr :: "runtime_object \<Rightarrow> ptr" where
  "object_ptr (OBackend p) = p"
| "object_ptr (OBackendList p) = p"
| "object_ptr (OFrontend p) = p"
| "object_ptr (OFrontendList p) = p"
| "object_ptr (OGlobalLoadBalancer p) = p"
| "object_ptr (OGlobalLoadBalancerList p) = p"
| "object_ptr (OPeer p) = p"
| "object_ptr (OPeerList p) = p"

text \<open>The value of the object, the cells it occupies, and whether its pointer has the type it claims.\<close>

fun object_parts :: "gcell heap \<Rightarrow> runtime_object \<Rightarrow> object_value option" where
  "object_parts h (OBackend p) = map_option VBackend (view_ptr as_Backend Backend_parts h p)"
| "object_parts h (OBackendList p) = map_option VBackendList (view_ptr as_BackendList BackendList_parts h p)"
| "object_parts h (OFrontend p) = map_option VFrontend (view_ptr as_Frontend Frontend_parts h p)"
| "object_parts h (OFrontendList p) = map_option VFrontendList (view_ptr as_FrontendList FrontendList_parts h p)"
| "object_parts h (OGlobalLoadBalancer p) = map_option VGlobalLoadBalancer (view_ptr as_GlobalLoadBalancer GlobalLoadBalancer_parts h p)"
| "object_parts h (OGlobalLoadBalancerList p) = map_option VGlobalLoadBalancerList (view_ptr as_GlobalLoadBalancerList GlobalLoadBalancerList_parts h p)"
| "object_parts h (OPeer p) = map_option VPeer (view_ptr as_Peer Peer_parts h p)"
| "object_parts h (OPeerList p) = map_option VPeerList (view_ptr as_PeerList PeerList_parts h p)"

fun object_foot :: "gcell heap \<Rightarrow> runtime_object \<Rightarrow> addr set" where
  "object_foot h (OBackend p) = foot_ptr as_Backend Backend_foot h p"
| "object_foot h (OBackendList p) = foot_ptr as_BackendList BackendList_foot h p"
| "object_foot h (OFrontend p) = foot_ptr as_Frontend Frontend_foot h p"
| "object_foot h (OFrontendList p) = foot_ptr as_FrontendList FrontendList_foot h p"
| "object_foot h (OGlobalLoadBalancer p) = foot_ptr as_GlobalLoadBalancer GlobalLoadBalancer_foot h p"
| "object_foot h (OGlobalLoadBalancerList p) = foot_ptr as_GlobalLoadBalancerList GlobalLoadBalancerList_foot h p"
| "object_foot h (OPeer p) = foot_ptr as_Peer Peer_foot h p"
| "object_foot h (OPeerList p) = foot_ptr as_PeerList PeerList_foot h p"

definition typed_ptr :: "('c \<Rightarrow> 'a option) \<Rightarrow> 'c heap \<Rightarrow> ptr \<Rightarrow> bool" where
  "typed_ptr un h p \<longleftrightarrow> (case p of None \<Rightarrow> True | Some a \<Rightarrow> peek un h a \<noteq> None)"

fun object_typed :: "gcell heap \<Rightarrow> runtime_object \<Rightarrow> bool" where
  "object_typed h (OBackend p) = typed_ptr as_Backend h p"
| "object_typed h (OBackendList p) = typed_ptr as_BackendList h p"
| "object_typed h (OFrontend p) = typed_ptr as_Frontend h p"
| "object_typed h (OFrontendList p) = typed_ptr as_FrontendList h p"
| "object_typed h (OGlobalLoadBalancer p) = typed_ptr as_GlobalLoadBalancer h p"
| "object_typed h (OGlobalLoadBalancerList p) = typed_ptr as_GlobalLoadBalancerList h p"
| "object_typed h (OPeer p) = typed_ptr as_Peer h p"
| "object_typed h (OPeerList p) = typed_ptr as_PeerList h p"

text \<open>The dynamic type.\<close>

fun object_kind :: "runtime_object \<Rightarrow> string" where
  "object_kind (OBackend p) = ''Backend''"
| "object_kind (OBackendList p) = ''BackendList''"
| "object_kind (OFrontend p) = ''Frontend''"
| "object_kind (OFrontendList p) = ''FrontendList''"
| "object_kind (OGlobalLoadBalancer p) = ''GlobalLoadBalancer''"
| "object_kind (OGlobalLoadBalancerList p) = ''GlobalLoadBalancerList''"
| "object_kind (OPeer p) = ''Peer''"
| "object_kind (OPeerList p) = ''PeerList''"

text \<open>In a well-typed heap a pointer of the right type unfolds to a value.\<close>

lemma typed_ptr_view:
  assumes "wt_heap h" and "typed_ptr un h p" and "\<And>c x. un c = Some x \<Longrightarrow> wt_cell h c = (v h x \<noteq> None)"
  shows "\<exists>w. view_ptr un v h p = Some w"
  using assms by (fastforce simp: typed_ptr_def wt_heap_def list_all_length view_ptr_def peek_def split: option.splits if_splits)

lemma view_ptr_typed: "view_ptr un v h p = Some w \<Longrightarrow> typed_ptr un h p"
  by (auto simp: typed_ptr_def view_ptr_def split: option.splits)

lemma as_Some_iff:
  "as_Backend c = Some x0 \<longleftrightarrow> c = CBackend x0"
  "as_BackendList c = Some x1 \<longleftrightarrow> c = CBackendList x1"
  "as_Frontend c = Some x2 \<longleftrightarrow> c = CFrontend x2"
  "as_FrontendList c = Some x3 \<longleftrightarrow> c = CFrontendList x3"
  "as_GlobalLoadBalancer c = Some x4 \<longleftrightarrow> c = CGlobalLoadBalancer x4"
  "as_GlobalLoadBalancerList c = Some x5 \<longleftrightarrow> c = CGlobalLoadBalancerList x5"
  "as_Peer c = Some x6 \<longleftrightarrow> c = CPeer x6"
  "as_PeerList c = Some x7 \<longleftrightarrow> c = CPeerList x7"
  by (cases c; simp add: as_defs)+

lemma object_typed_parts: "wt_heap h \<Longrightarrow> object_typed h obj \<Longrightarrow> \<exists>v. object_parts h obj = Some v"
  by (cases obj) (auto intro!: typed_ptr_view simp: as_Some_iff)

lemma object_parts_typed: "object_parts h obj = Some v \<Longrightarrow> object_typed h obj"
  by (cases obj) (auto dest!: view_ptr_typed)

section \<open>The copy of an object\<close>

text \<open>What a function that copies behind a pointer does with a pointer that is not nil.\<close>

lemma pointer_copied:
  assumes dc: "deep_copy (view_ptr un v) (foot_ptr un f) wt_cell cp" and vp: "view_ptr un v h p = Some w" and "p \<noteq> None"
  shows "\<exists>c new. cp p h = Some (Some c, h @ new) \<and> view_ptr un v (h @ new) (Some c) = Some w
    \<and> view_ptr un v (h @ new) p = Some w \<and> foot_ptr un f (h @ new) p \<inter> foot_ptr un f (h @ new) (Some c) = {}
    \<and> (\<forall>c \<in> set new. wt_cell (h @ new) c)"
proof -
  obtain r new where r: "cp p h = Some (r, h @ new)" "view_ptr un v (h @ new) r = Some w"
      "\<forall>c \<in> set new. wt_cell (h @ new) c"
    by (rule deep_copy.copiesE [OF dc vp])
  have "r \<noteq> None" using vp r(2) assms(3) by (auto simp: view_ptr_Some split: option.splits)
  then show ?thesis using r deep_copy.copies_apart [OF dc vp r(1)] by auto
qed

lemma DeepCopyObject_nil: "object_ptr obj = None \<Longrightarrow> DeepCopyObject lib obj h = Some (None, h)"
  by (cases obj) (simp_all add: Backend_DeepCopyObject_def Backend_DeepCopy_def BackendList_DeepCopyObject_def BackendList_DeepCopy_def Frontend_DeepCopyObject_def Frontend_DeepCopy_def FrontendList_DeepCopyObject_def FrontendList_DeepCopy_def GlobalLoadBalancer_DeepCopyObject_def GlobalLoadBalancer_DeepCopy_def GlobalLoadBalancerList_DeepCopyObject_def GlobalLoadBalancerList_DeepCopy_def Peer_DeepCopyObject_def Peer_DeepCopy_def PeerList_DeepCopyObject_def PeerList_DeepCopy_def copy_ptr_def)

text \<open>The copy of an object of one kind, from the copy of its struct.\<close>

lemma kind_copied:
  assumes dc: "deep_copy (view_ptr un v) (foot_ptr un f) wt_cell cp"
    and copy: "DeepCopyObject lib (mk p) = hbind (cp p) (\<lambda>c. if c \<noteq> None then hreturn (Some (mk c)) else hreturn None)"
    and parts: "\<And>h q. object_parts h (mk q) = map_option val (view_ptr un v h q)"
    and foot: "\<And>h q. object_foot h (mk q) = foot_ptr un f h q"
    and same: "\<And>q. object_kind (mk q) = kd" "\<And>q. object_ptr (mk q) = q"
    and obj: "obj = mk p" "object_parts h obj = Some x" "object_ptr obj \<noteq> None"
  shows "\<exists>c new. DeepCopyObject lib obj h = Some (Some c, h @ new) \<and> object_parts (h @ new) c = Some x
    \<and> object_parts (h @ new) obj = Some x \<and> object_foot (h @ new) obj \<inter> object_foot (h @ new) c = {}
    \<and> object_kind c = object_kind obj \<and> object_ptr c \<noteq> None \<and> (\<forall>c \<in> set new. wt_cell (h @ new) c)"
proof -
  obtain w where w: "view_ptr un v h p = Some w" "p \<noteq> None" "x = val w" using obj by (auto simp: parts same)
  from pointer_copied [OF dc w(1,2)] obtain c new where
    "cp p h = Some (Some c, h @ new)" "view_ptr un v (h @ new) (Some c) = Some w" "view_ptr un v (h @ new) p = Some w"
    "foot_ptr un f (h @ new) p \<inter> foot_ptr un f (h @ new) (Some c) = {}" "\<forall>c \<in> set new. wt_cell (h @ new) c" by blast
  then show ?thesis unfolding obj(1)
    by (intro exI [of _ "mk (Some c)"] exI [of _ new]) (simp add: w(3) copy parts foot same)
qed

context apimachinery_copies
begin

lemma DeepCopyObject_copied:
  assumes "object_parts h obj = Some v" and "object_ptr obj \<noteq> None"
  shows "\<exists>c new. DeepCopyObject lib obj h = Some (Some c, h @ new) \<and> object_parts (h @ new) c = Some v
    \<and> object_parts (h @ new) obj = Some v \<and> object_foot (h @ new) obj \<inter> object_foot (h @ new) c = {}
    \<and> object_kind c = object_kind obj \<and> object_ptr c \<noteq> None \<and> (\<forall>c \<in> set new. wt_cell (h @ new) c)"
proof (cases obj)
  case (OBackend p)
  show ?thesis using OBackend assms by (intro kind_copied [OF copies_Backend, where mk = OBackend]) (simp_all add: Backend_DeepCopyObject_def)
next
  case (OBackendList p)
  show ?thesis using OBackendList assms by (intro kind_copied [OF copies_BackendList, where mk = OBackendList]) (simp_all add: BackendList_DeepCopyObject_def)
next
  case (OFrontend p)
  show ?thesis using OFrontend assms by (intro kind_copied [OF copies_Frontend, where mk = OFrontend]) (simp_all add: Frontend_DeepCopyObject_def)
next
  case (OFrontendList p)
  show ?thesis using OFrontendList assms by (intro kind_copied [OF copies_FrontendList, where mk = OFrontendList]) (simp_all add: FrontendList_DeepCopyObject_def)
next
  case (OGlobalLoadBalancer p)
  show ?thesis using OGlobalLoadBalancer assms by (intro kind_copied [OF copies_GlobalLoadBalancer, where mk = OGlobalLoadBalancer]) (simp_all add: GlobalLoadBalancer_DeepCopyObject_def)
next
  case (OGlobalLoadBalancerList p)
  show ?thesis using OGlobalLoadBalancerList assms by (intro kind_copied [OF copies_GlobalLoadBalancerList, where mk = OGlobalLoadBalancerList]) (simp_all add: GlobalLoadBalancerList_DeepCopyObject_def)
next
  case (OPeer p)
  show ?thesis using OPeer assms by (intro kind_copied [OF copies_Peer, where mk = OPeer]) (simp_all add: Peer_DeepCopyObject_def)
next
  case (OPeerList p)
  show ?thesis using OPeerList assms by (intro kind_copied [OF copies_PeerList, where mk = OPeerList]) (simp_all add: PeerList_DeepCopyObject_def)
qed

end

section \<open>The library, run\<close>

text \<open>Copies of the embedded types, field by field, with \<^verbatim>\<open>range\<close> visiting a map from its end.\<close>

definition LabelSelectorRequirement_copy :: "rLabelSelectorRequirement \<Rightarrow> (gcell, rLabelSelectorRequirement) heap_op" where
  "LabelSelectorRequirement_copy x =
     hbind (copy_slice as_Strings CStrings copy_val (rlsr_Values x)) (\<lambda>values.
     hreturn (x\<lparr>rlsr_Values := values\<rparr>))"

definition sample_lib :: apimachinery where
  "sample_lib = \<lparr>
     ObjectMeta_copy = (\<lambda>x.
       hbind (copy_map as_StringMap CStringMap rev (rom_Labels x)) (\<lambda>labels.
       hbind (copy_map as_StringMap CStringMap rev (rom_Annotations x)) (\<lambda>annotations.
       hbind (copy_slice as_OwnerReferences COwnerReferences copy_val (rom_OwnerReferences x)) (\<lambda>owners.
       hbind (copy_slice as_Strings CStrings copy_val (rom_Finalizers x)) (\<lambda>finalizers.
       hreturn (x\<lparr>rom_Labels := labels, rom_Annotations := annotations, rom_OwnerReferences := owners,
                  rom_Finalizers := finalizers\<rparr>)))))),
     ListMeta_copy = copy_val,
     LabelSelector_copy = (\<lambda>x.
       hbind (copy_map as_StringMap CStringMap rev (rls_MatchLabels x)) (\<lambda>labels.
       hbind (copy_slice as_Requirements CRequirements LabelSelectorRequirement_copy (rls_MatchExpressions x)) (\<lambda>exprs.
       hreturn (x\<lparr>rls_MatchLabels := labels, rls_MatchExpressions := exprs\<rparr>)))),
     Condition_copy = copy_val,
     entry_order = rev\<rparr>"

lemma copies_Requirement:
  "deep_copy LabelSelectorRequirement_parts LabelSelectorRequirement_foot wt_cell LabelSelectorRequirement_copy"
  unfolding LabelSelectorRequirement_parts_def [abs_def] LabelSelectorRequirement_foot_def [abs_def]
  by (rule deep_copy_struct [where tup = LabelSelectorRequirement_fields
        and upd = "\<lambda>i t. i\<lparr>rlsr_Key := fst t, rlsr_Operator := fst (snd t), rlsr_Values := snd (snd t)\<rparr>",
      OF deep_copy_pair [OF copies_val deep_copy_pair [OF copies_val copies_Strings]]])
    (simp_all add: LabelSelectorRequirement_copy_def LabelSelectorRequirement_fields_def copy_unfold del: hreturn_run)

lemma copies_Requirements:
  "deep_copy (view_slice as_Requirements LabelSelectorRequirement_parts)
     (foot_slice as_Requirements LabelSelectorRequirement_foot) wt_cell
     (copy_slice as_Requirements CRequirements LabelSelectorRequirement_copy)"
  by (rule deep_copy_slice [OF copies_Requirement]) (simp_all add: as_defs)

lemma sample_object_meta: "deep_copy ObjectMeta_parts ObjectMeta_foot wt_cell (ObjectMeta_copy sample_lib)"
  unfolding ObjectMeta_parts_def [abs_def] ObjectMeta_foot_def [abs_def]
  by (rule deep_copy_struct [where tup = ObjectMeta_fields and upd = "\<lambda>i (n, ns, u, v, t, l, a, ow, f).
        i\<lparr>rom_Name := n, rom_Namespace := ns, rom_UID := u, rom_ResourceVersion := v, rom_CreationTimestamp := t,
          rom_Labels := l, rom_Annotations := a, rom_OwnerReferences := ow, rom_Finalizers := f\<rparr>",
      OF deep_copy_pair [OF copies_val deep_copy_pair [OF copies_val deep_copy_pair [OF copies_val
         deep_copy_pair [OF copies_val deep_copy_pair [OF copies_val deep_copy_pair [OF copies_StringMap [OF range_order_id(3)]
         deep_copy_pair [OF copies_StringMap [OF range_order_id(3)] deep_copy_pair [OF copies_OwnerReferences copies_Strings]]]]]]]]])
    (auto simp: sample_lib_def ObjectMeta_fields_def copy_unfold simp del: hreturn_run)

lemma sample_label_selector: "deep_copy LabelSelector_parts LabelSelector_foot wt_cell (LabelSelector_copy sample_lib)"
  unfolding LabelSelector_parts_def [abs_def] LabelSelector_foot_def [abs_def]
  by (rule deep_copy_struct [where tup = LabelSelector_fields
        and upd = "\<lambda>i t. i\<lparr>rls_MatchLabels := fst t, rls_MatchExpressions := snd t\<rparr>",
      OF deep_copy_pair [OF copies_StringMap [OF range_order_id(3)] copies_Requirements]])
    (simp_all add: sample_lib_def LabelSelector_fields_def copy_unfold del: hreturn_run)

interpretation sample: apimachinery_copies sample_lib
proof (rule apimachinery_copies.intro)
  show "deep_copy view_val foot_val wt_cell (ListMeta_copy sample_lib)"
    "deep_copy view_val foot_val wt_cell (Condition_copy sample_lib)"
    by (simp_all add: sample_lib_def copies_val)
  show "range_order (entry_order sample_lib)" by (simp add: sample_lib_def)
qed (rule sample_object_meta sample_label_selector)+

section \<open>A heap\<close>

definition sample_rmeta :: "string \<Rightarrow> ptr \<Rightarrow> rObjectMeta" where
  "sample_rmeta name labels = \<lparr>rom_Name = name, rom_Namespace = ''glb'', rom_UID = '''', rom_ResourceVersion = '''',
     rom_CreationTimestamp = None, rom_Labels = labels, rom_Annotations = None, rom_OwnerReferences = None,
     rom_Finalizers = None\<rparr>"

text \<open>A heap with a frontend at address 8 and a peer at address 10, which share the label map at address 0.\<close>

definition sample_heap :: "gcell heap" where
  "sample_heap =
    [CStringMap [(''tier'', ''web''), (''site'', ''a'')],
     CString ''10.0.0.9'',
     CStringMap [],
     CFrontendServiceSpec \<lparr>rfss_IPAddress = Some 1, rfss_Port = 443, rfss_Annotations = Some 2\<rparr>,
     CRequirements [\<lparr>rlsr_Key = ''site'', rlsr_Operator = ''In'', rlsr_Values = Some (Slice 5 1 2)\<rparr>],
     CStrings [''z'', ''a'', ''b''],
     CInt32 444,
     CLoadBalancerReference \<lparr>lbr_Name = ''lb'', lbr_Namespace = ''glb''\<rparr>,
     CFrontend \<lparr>rfe_TypeMeta = zero_TypeMeta, rfe_ObjectMeta = sample_rmeta ''shop'' (Some 0),
       rfe_Spec = \<lparr>rfes_Service = Some 3,
         rfes_BackendSelector = \<lparr>rls_MatchLabels = None, rls_MatchExpressions = Some (Slice 4 0 1)\<rparr>\<rparr>,
       rfe_Status = \<lparr>rfest_Conditions = Some (Slice 9 0 0), rfest_Port = Some 6, rfest_LoadBalancer = Some 7\<rparr>\<rparr>,
     CConditions [],
     CPeer \<lparr>rpeer_TypeMeta = zero_TypeMeta, rpeer_ObjectMeta = sample_rmeta ''peer'' (Some 0),
       rpeer_Status = \<lparr>rpst_PeerName = '''', rpst_LocalIP = '''', rpst_RemoteIP = '''', rpst_Conditions = None\<rparr>\<rparr>]"

lemmas sample_heap_defs = sample_heap_def sample_rmeta_def as_defs parts_defs fields_defs heap_views gm_wf_def wt_heap_def

lemma sample_heap_typed: "wt_heap sample_heap"
  by (simp add: sample_heap_defs)

lemma sample_frontend_parts: "\<exists>v. object_parts sample_heap (OFrontend (Some 8)) = Some v"
  by (simp add: sample_heap_defs)

lemmas sample_run_defs = sample_lib_def copy_ptr_def copy_slice_def copy_map_def copy_val_def copy_entries_def hbind_run load_run
  LabelSelectorRequirement_copy_def Frontend_DeepCopyObject_def Frontend_DeepCopy_def Frontend_DeepCopyInto_def
  FrontendSpec_DeepCopyInto_def FrontendServiceSpec_DeepCopyInto_def FrontendStatus_DeepCopyInto_def

text \<open>The copy of the frontend is at address 20, with its port at address 18.\<close>

lemma sample_frontend_run:
  "\<exists>h'. DeepCopyObject sample_lib (OFrontend (Some 8)) sample_heap = Some (Some (OFrontend (Some 20)), h')
     \<and> 18 \<in> object_foot h' (OFrontend (Some 20))"
  by (simp add: sample_heap_defs sample_run_defs)

section \<open>Properties\<close>

text \<open>
  C17: For every object and list type of the API group, \<^verbatim>\<open>DeepCopyObject\<close> of a nil pointer returns a nil
  interface and changes nothing; of a well-typed object it returns, allocates only, and gives an
  object with the same value (nil and empty slices and maps told apart, maps compared by their
  entries) that shares no cell with the original, whose value is unchanged.
\<close>

theorem DeepCopyObject_equal_apart:
  assumes "apimachinery_copies lib" and "object_parts h obj = Some v"
  shows "case object_ptr obj of
      None \<Rightarrow> DeepCopyObject lib obj h = Some (None, h)
    | Some _ \<Rightarrow> \<exists>c new. DeepCopyObject lib obj h = Some (Some c, h @ new)
        \<and> object_parts (h @ new) c = Some v \<and> object_parts (h @ new) obj = Some v
        \<and> object_foot (h @ new) obj \<inter> object_foot (h @ new) c = {}"
proof (cases "object_ptr obj")
  case (Some a)
  then show ?thesis using apimachinery_copies.DeepCopyObject_copied [OF assms] by fastforce
qed (simp add: DeepCopyObject_nil)

theorem DeepCopyObject_equal_apart_witness:
  "\<exists>v c new. object_parts sample_heap (OFrontend (Some 8)) = Some v
     \<and> DeepCopyObject sample_lib (OFrontend (Some 8)) sample_heap = Some (Some c, sample_heap @ new)
     \<and> object_parts (sample_heap @ new) c = Some v
     \<and> object_foot (sample_heap @ new) (OFrontend (Some 8)) \<inter> object_foot (sample_heap @ new) c = {}"
proof -
  obtain v where v: "object_parts sample_heap (OFrontend (Some 8)) = Some v" using sample_frontend_parts by blast
  show ?thesis using DeepCopyObject_equal_apart [OF sample.apimachinery_copies_axioms v] v by auto
qed

text \<open>
  Type soundness of the copies: in a heap where every cell is well-typed, copying a well-typed
  object never meets a dangling pointer or a cell of another type; every cell of the heap afterwards is
  well-typed, the original still is, and the result is a non-nil object of the same dynamic type
  (nil exactly for a nil receiver).
\<close>

theorem DeepCopyObject_typed:
  assumes "apimachinery_copies lib" and "wt_heap h" and "object_typed h obj"
  shows "\<exists>r h'. DeepCopyObject lib obj h = Some (r, h') \<and> wt_heap h' \<and> object_typed h' obj
    \<and> (case r of None \<Rightarrow> object_ptr obj = None
       | Some c \<Rightarrow> object_ptr c \<noteq> None \<and> object_typed h' c \<and> object_kind c = object_kind obj)"
proof (cases "object_ptr obj")
  case None
  then show ?thesis using assms by (simp add: DeepCopyObject_nil)
next
  case (Some a)
  obtain v where v: "object_parts h obj = Some v" using object_typed_parts [OF assms(2,3)] by blast
  from apimachinery_copies.DeepCopyObject_copied [OF assms(1) v] Some
  obtain c new where c: "DeepCopyObject lib obj h = Some (Some c, h @ new)" "object_parts (h @ new) c = Some v"
    "object_parts (h @ new) obj = Some v" "object_kind c = object_kind obj" "object_ptr c \<noteq> None"
    "\<forall>c \<in> set new. wt_cell (h @ new) c" by auto
  have "wt_heap (h @ new)" using assms(2) c(6) cell_lawD [OF cell_law_wt]
    by (auto simp: wt_heap_def list_all_iff)
  then show ?thesis using c object_parts_typed by (intro exI [of _ "Some c"] exI [of _ "h @ new"]) auto
qed

theorem DeepCopyObject_typed_witness:
  "wt_heap sample_heap \<and> object_typed sample_heap (OFrontend (Some 8)) \<and>
   (\<exists>r h'. DeepCopyObject sample_lib (OFrontend (Some 8)) sample_heap = Some (r, h') \<and> wt_heap h')"
proof -
  obtain v where v: "object_parts sample_heap (OFrontend (Some 8)) = Some v" using sample_frontend_parts by blast
  note t = object_parts_typed [OF v]
  show ?thesis
    using sample_heap_typed t DeepCopyObject_typed [OF sample.apimachinery_copies_axioms sample_heap_typed t] by blast
qed

lemma object_view: "heap_view object_parts object_foot"
proof
  fix h h' obj v
  assume v: "object_parts h obj = Some v"
  note ptr = heap_view_ptr [OF heap_view_Backend] heap_view_ptr [OF heap_view_BackendList]
    heap_view_ptr [OF heap_view_Frontend] heap_view_ptr [OF heap_view_FrontendList]
    heap_view_ptr [OF heap_view_GlobalLoadBalancer] heap_view_ptr [OF heap_view_GlobalLoadBalancerList]
    heap_view_ptr [OF heap_view_Peer] heap_view_ptr [OF heap_view_PeerList]
  show "object_foot h obj \<subseteq> {..<length h}"
    using v by (cases obj) (auto dest!: ptr [THEN heap_view.foot_alloc])
  assume "agree_on (object_foot h obj) h h'"
  then show "object_parts h' obj = Some v \<and> object_foot h' obj = object_foot h obj"
    using v by (cases obj) (auto dest: ptr [THEN heap_view.view_local])
qed

interpretation object: heap_view object_parts object_foot
  by (rule object_view)

text \<open>
  C18: After a copy, any sequence of writes to cells of the copy leaves the value read through the
  original as it was, and any sequence of writes to cells of the original leaves the copy.
\<close>

theorem DeepCopyObject_isolated:
  assumes "apimachinery_copies lib" and "object_parts h obj = Some v"
    and "DeepCopyObject lib obj h = Some (Some c, h')"
  shows "(fst ` set ws \<subseteq> object_foot h' c \<longrightarrow> object_parts (writes ws h') obj = Some v)
    \<and> (fst ` set ws \<subseteq> object_foot h' obj \<longrightarrow> object_parts (writes ws h') c = Some v)"
proof -
  have "object_ptr obj \<noteq> None" using assms(3) DeepCopyObject_nil [of obj lib h] by auto
  with apimachinery_copies.DeepCopyObject_copied [OF assms(1,2)] assms(3)
  have *: "object_parts h' c = Some v" "object_parts h' obj = Some v" "object_foot h' obj \<inter> object_foot h' c = {}"
    by auto
  show ?thesis
  proof (intro conjI impI)
    show "object_parts (writes ws h') obj = Some v" if "fst ` set ws \<subseteq> object_foot h' c"
      using * that by (intro object.view_writes) auto
    show "object_parts (writes ws h') c = Some v" if "fst ` set ws \<subseteq> object_foot h' obj"
      using * that by (intro object.view_writes) auto
  qed
qed

theorem DeepCopyObject_isolated_witness:
  "\<exists>h'. DeepCopyObject sample_lib (OFrontend (Some 8)) sample_heap = Some (Some (OFrontend (Some 20)), h')
     \<and> 18 \<in> object_foot h' (OFrontend (Some 20))
     \<and> object_parts (writes [(18, CInt32 1)] h') (OFrontend (Some 8)) = object_parts sample_heap (OFrontend (Some 8))"
proof -
  obtain v where v: "object_parts sample_heap (OFrontend (Some 8)) = Some v" using sample_frontend_parts by blast
  obtain h' where h': "DeepCopyObject sample_lib (OFrontend (Some 8)) sample_heap = Some (Some (OFrontend (Some 20)), h')"
    "18 \<in> object_foot h' (OFrontend (Some 20))" using sample_frontend_run by blast
  show ?thesis
    using h' v DeepCopyObject_isolated [OF sample.apimachinery_copies_axioms v h'(1), of "[(18, CInt32 1)]"] by auto
qed

end
