(* ===== verification/Peer_Copy.thy ===== *)
theory Peer_Copy
  imports Deep_Copy_Properties Peer_Watcher
begin

text \<open>
  The copy \<^verbatim>\<open>peerCopy\<close> of \<^verbatim>\<open>onAdd\<close> in \<^verbatim>\<open>internal/watchers/peerServiceWatcher.go\<close>, on the heap: it
  implements the value \<open>Peer_Watcher\<close> works with, and the peer it was made from keeps its value.
\<close>

section \<open>Peers on the heap\<close>

definition unnil :: "'a list option \<Rightarrow> 'a list" where
  "unnil xs = (case xs of None \<Rightarrow> [] | Some ys \<Rightarrow> ys)"

text \<open>The records of \<open>API_Types\<close> from the parts: a nil slice or map reads as an empty one.\<close>

fun ObjectMeta_val :: "pObjectMeta \<Rightarrow> ObjectMeta" where
  "ObjectMeta_val (name, ns, uid, version, created, labels, annotations, owners, finalizers) =
     \<lparr>om_Name = name, om_Namespace = ns, om_UID = uid, om_ResourceVersion = version, om_CreationTimestamp = created,
      om_Labels = unnil labels, om_Annotations = unnil annotations, om_OwnerReferences = unnil owners,
      om_Finalizers = unnil finalizers\<rparr>"

fun PeerStatus_val :: "pPeerStatus \<Rightarrow> PeerStatus" where
  "PeerStatus_val (name, local, remote, conditions) =
     \<lparr>pst_PeerName = name, pst_LocalIP = local, pst_RemoteIP = remote, pst_Conditions = unnil conditions\<rparr>"

fun Peer_val :: "pPeer \<Rightarrow> Peer" where
  "Peer_val (tm, om, status) =
     \<lparr>peer_TypeMeta = tm, peer_ObjectMeta = ObjectMeta_val om, peer_Status = PeerStatus_val status\<rparr>"

definition peer_at :: "gcell heap \<Rightarrow> addr \<Rightarrow> Peer option" where
  "peer_at h a = (case peek as_Peer h a of None \<Rightarrow> None | Some x \<Rightarrow> map_option Peer_val (Peer_parts h x))"

text \<open>
  Lines of \<^verbatim>\<open>onAdd\<close> between the copy and the update, on the heap: assignments to fields of the
  struct behind \<^verbatim>\<open>peerCopy\<close>. A nil pointer or one of another type does not return.
\<close>

definition assign_status :: "ptr \<Rightarrow> (rPeerStatus \<Rightarrow> rPeerStatus) \<Rightarrow> (gcell, unit) heap_op" where
  "assign_status p f = (case p of None \<Rightarrow> (\<lambda>h. None)
     | Some a \<Rightarrow> hbind (load as_Peer a) (\<lambda>x h. Some ((), h[a := CPeer (x\<lparr>rpeer_Status := f (rpeer_Status x)\<rparr>)])))"

fun ingress_assign :: "string list \<Rightarrow> ptr \<Rightarrow> (gcell, unit) heap_op" where
  "ingress_assign [] p = hreturn ()"
| "ingress_assign (ip # _) p = assign_status p (\<lambda>s. s\<lparr>rpst_RemoteIP := ip\<rparr>)"

definition copy_and_assign :: "apimachinery \<Rightarrow> Service \<Rightarrow> ptr \<Rightarrow> (gcell, ptr) heap_op" where
  "copy_and_assign lib svc peer =
     hbind (Peer_DeepCopy lib peer) (\<lambda>peerCopy.
     hbind (assign_status peerCopy (\<lambda>s. s\<lparr>rpst_LocalIP := svc_ClusterIP svc\<rparr>)) (\<lambda>_.
     hbind (ingress_assign (svc_Ingress svc) peerCopy) (\<lambda>_.
     hreturn peerCopy)))"

text \<open>A peer's parts lie in cells of other types, so assigning to its own cell leaves them.\<close>

lemma foot_list_val [simp]: "foot_list foot_val h xs = {}"
  by (induction xs) (simp_all add: foot_val_def)

lemma foot_slice_cell:
  "view_slice un view_val h s = Some w \<Longrightarrow> a \<in> foot_slice un foot_val h s \<Longrightarrow> un (h ! a) \<noteq> None"
  by (auto simp: view_slice_Some foot_slice_def peek_def split: option.splits slice.splits)

lemma foot_map_cell: "view_map un h p = Some w \<Longrightarrow> a \<in> foot_map h p \<Longrightarrow> un (h ! a) \<noteq> None"
  by (auto simp: view_map_def foot_map_def dest!: peek_SomeD split: option.splits if_splits)

lemma not_Peer:
  "as_StringMap c \<noteq> None \<Longrightarrow> as_Peer c = None" "as_OwnerReferences c \<noteq> None \<Longrightarrow> as_Peer c = None"
  "as_Strings c \<noteq> None \<Longrightarrow> as_Peer c = None" "as_Conditions c \<noteq> None \<Longrightarrow> as_Peer c = None"
  by (cases c; simp add: as_defs)+

lemma Peer_foot_other:
  assumes v: "Peer_parts h x = Some v" and a: "a \<in> Peer_foot h x"
  shows "as_Peer (h ! a) = None"
proof -
  let ?m = "rpeer_ObjectMeta x" and ?s = "rpeer_Status x"
  from v obtain l an ow f c where parts:
    "view_map as_StringMap h (rom_Labels ?m) = Some l" "view_map as_StringMap h (rom_Annotations ?m) = Some an"
    "view_slice as_OwnerReferences view_val h (rom_OwnerReferences ?m) = Some ow"
    "view_slice as_Strings view_val h (rom_Finalizers ?m) = Some f"
    "view_slice as_Conditions view_val h (rpst_Conditions ?s) = Some c"
    by (auto simp: Peer_parts_def ObjectMeta_parts_def PeerStatus_parts_def fields_defs view_pair_Some)
  from a consider "a \<in> foot_map h (rom_Labels ?m)" | "a \<in> foot_map h (rom_Annotations ?m)"
    | "a \<in> foot_slice as_OwnerReferences foot_val h (rom_OwnerReferences ?m)"
    | "a \<in> foot_slice as_Strings foot_val h (rom_Finalizers ?m)"
    | "a \<in> foot_slice as_Conditions foot_val h (rpst_Conditions ?s)"
    by (auto simp: Peer_foot_def ObjectMeta_foot_def PeerStatus_foot_def fields_defs foot_pair_def foot_val_def)
  then show ?thesis
    by cases (use parts in \<open>blast intro: not_Peer dest: foot_map_cell foot_slice_cell\<close>)+
qed

lemma assign_status_run:
  assumes at: "peek as_Peer h a = Some x" and v: "Peer_parts h x = Some (tm, om, st)"
    and keep: "rpst_Conditions (f (rpeer_Status x)) = rpst_Conditions (rpeer_Status x)"
  defines "s \<equiv> f (rpeer_Status x)"
  shows "assign_status (Some a) f h = Some ((), h[a := CPeer (x\<lparr>rpeer_Status := s\<rparr>)])"
    and "peek as_Peer (h[a := CPeer (x\<lparr>rpeer_Status := s\<rparr>)]) a = Some (x\<lparr>rpeer_Status := s\<rparr>)"
    and "Peer_parts (h[a := CPeer (x\<lparr>rpeer_Status := s\<rparr>)]) (x\<lparr>rpeer_Status := s\<rparr>) =
      Some (tm, om, rpst_PeerName s, rpst_LocalIP s, rpst_RemoteIP s, snd (snd (snd st)))"
proof -
  let ?h = "h[a := CPeer (x\<lparr>rpeer_Status := s\<rparr>)]"
  have a: "a < length h" "as_Peer (h ! a) = Some x" using at by (simp_all add: peek_def split: if_splits)
  show "assign_status (Some a) f h = Some ((), ?h)"
    using at by (simp add: assign_status_def s_def heap_run)
  show "peek as_Peer ?h a = Some (x\<lparr>rpeer_Status := s\<rparr>)"
    using a by (simp add: peek_def as_Peer_def)
  have "a \<notin> Peer_foot h x" using Peer_foot_other [OF v] a(2) by fastforce
  then have "agree_on (Peer_foot h x) h ?h"
    using heap_view.foot_alloc [OF heap_view_Peer v] agree_on_writes [of "Peer_foot h x" h "[(a, CPeer (x\<lparr>rpeer_Status := s\<rparr>))]"]
    by simp
  then have "Peer_parts ?h x = Some (tm, om, st)"
    using heap_view.view_local [OF heap_view_Peer v] by blast
  then show "Peer_parts ?h (x\<lparr>rpeer_Status := s\<rparr>) =
      Some (tm, om, rpst_PeerName s, rpst_LocalIP s, rpst_RemoteIP s, snd (snd (snd st)))"
    using keep by (simp add: Peer_parts_def PeerStatus_parts_def Peer_fields_def PeerStatus_fields_def
      view_pair_Some view_val_def s_def)
qed

lemma Peer_val_assign:
  "Peer_val (tm, om, rpst_PeerName s, rpst_LocalIP s, rpst_RemoteIP s, c) =
     \<lparr>peer_TypeMeta = tm, peer_ObjectMeta = ObjectMeta_val om,
      peer_Status = PeerStatus_val (rpst_PeerName s, rpst_LocalIP s, rpst_RemoteIP s, c)\<rparr>"
  by simp

lemma Peer_parts_status:
  "Peer_parts h x = Some (tm, om, n, l, r, c) \<Longrightarrow>
     n = rpst_PeerName (rpeer_Status x) \<and> l = rpst_LocalIP (rpeer_Status x) \<and> r = rpst_RemoteIP (rpeer_Status x)"
  by (simp add: Peer_parts_def PeerStatus_parts_def fields_defs view_pair_Some view_val_def)

text \<open>One assignment: the peer at the address gets the new status, cells elsewhere are left.\<close>

lemma assign_status_peer:
  assumes "peer_at h a = Some peer"
    and "\<And>s. rpst_Conditions (f s) = rpst_Conditions s"
    and "\<And>s c. PeerStatus_val (rpst_PeerName (f s), rpst_LocalIP (f s), rpst_RemoteIP (f s), c) =
      g (PeerStatus_val (rpst_PeerName s, rpst_LocalIP s, rpst_RemoteIP s, c))"
  shows "\<exists>h'. assign_status (Some a) f h = Some ((), h') \<and> peer_at h' a = Some (peer\<lparr>peer_Status := g (peer_Status peer)\<rparr>)
    \<and> (\<exists>d. h' = h[a := d])"
proof -
  from assms(1) obtain x tm om n l r c where x: "peek as_Peer h a = Some x" "Peer_parts h x = Some (tm, om, n, l, r, c)"
      "peer = Peer_val (tm, om, n, l, r, c)"
    by (auto simp: peer_at_def split: option.splits)
  note run = assign_status_run [OF x(1,2), of f, OF assms(2)]
  show ?thesis using run x(3) Peer_parts_status [OF x(2)] assms(3) [of "rpeer_Status x" c]
    by (auto simp: peer_at_def simp del: PeerStatus_val.simps)
qed

lemma peer_at_view: "peer_at h a = Some p \<longleftrightarrow> (\<exists>v. view_ptr as_Peer Peer_parts h (Some a) = Some (Some v) \<and> p = Peer_val v)"
  by (auto simp: peer_at_def view_ptr_def split: option.splits)

lemma peer_at_append: "peer_at h a = Some p \<Longrightarrow> peer_at (h @ new) a = Some p"
proof -
  assume "peer_at h a = Some p"
  then obtain v where v: "view_ptr as_Peer Peer_parts h (Some a) = Some (Some v)" "p = Peer_val v"
    unfolding peer_at_view by blast
  then show ?thesis
    using heap_view.view_append [OF heap_view_ptr [OF heap_view_Peer] v(1)] unfolding peer_at_view by blast
qed

lemma Peer_DeepCopy_at:
  assumes "apimachinery_copies lib" and "peer_at h a = Some peer"
  shows "\<exists>c new. Peer_DeepCopy lib (Some a) h = Some (Some c, h @ new) \<and> peer_at (h @ new) c = Some peer \<and> length h \<le> c"
proof -
  obtain v where v: "view_ptr as_Peer Peer_parts h (Some a) = Some (Some v)" "peer = Peer_val v"
    using assms(2) unfolding peer_at_view by blast
  obtain r new where r: "Peer_DeepCopy lib (Some a) h = Some (r, h @ new)"
      "view_ptr as_Peer Peer_parts (h @ new) r = Some (Some v)" "foot_ptr as_Peer Peer_foot (h @ new) r \<subseteq> {length h..}"
    by (rule deep_copy.copiesE [OF apimachinery_copies.copies_Peer [OF assms(1)] v(1)])
  then obtain c where c: "r = Some c" by (cases r) (auto simp: view_ptr_def)
  have "peer_at (h @ new) c = Some peer" using r(2) c v(2) unfolding peer_at_view by blast
  with r c show ?thesis by (simp add: foot_ptr_def)
qed

lemma copy_and_assign_run:
  assumes lib: "apimachinery_copies lib" and peer: "peer_at h a = Some peer"
  shows "\<exists>c h'. copy_and_assign lib svc (Some a) h = Some (Some c, h')
    \<and> peer_at h' c = Some (peer\<lparr>peer_Status := ingress_loop (svc_Ingress svc)
        ((peer_Status peer)\<lparr>pst_LocalIP := svc_ClusterIP svc\<rparr>)\<rparr>)
    \<and> take (length h) h' = h"
proof -
  obtain c new where c: "Peer_DeepCopy lib (Some a) h = Some (Some c, h @ new)" "peer_at (h @ new) c = Some peer" "length h \<le> c"
    using Peer_DeepCopy_at [OF assms] by blast
  let ?local = "peer\<lparr>peer_Status := (peer_Status peer)\<lparr>pst_LocalIP := svc_ClusterIP svc\<rparr>\<rparr>"
  obtain h1 d1 where 1: "assign_status (Some c) (\<lambda>s. s\<lparr>rpst_LocalIP := svc_ClusterIP svc\<rparr>) (h @ new) = Some ((), h1)"
      "peer_at h1 c = Some ?local" "h1 = (h @ new)[c := d1]"
    using assign_status_peer [OF c(2), of "\<lambda>s. s\<lparr>rpst_LocalIP := svc_ClusterIP svc\<rparr>" "\<lambda>s. s\<lparr>pst_LocalIP := svc_ClusterIP svc\<rparr>"]
    by auto
  show ?thesis
  proof (cases "svc_Ingress svc")
    case Nil
    then show ?thesis using c 1 by (auto simp: copy_and_assign_def)
  next
    case (Cons ip ips)
    obtain h2 d2 where "assign_status (Some c) (\<lambda>s. s\<lparr>rpst_RemoteIP := ip\<rparr>) h1 = Some ((), h2)"
        "peer_at h2 c = Some (?local\<lparr>peer_Status := (peer_Status ?local)\<lparr>pst_RemoteIP := ip\<rparr>\<rparr>)" "h2 = h1[c := d2]"
      using assign_status_peer [OF 1(2), of "\<lambda>s. s\<lparr>rpst_RemoteIP := ip\<rparr>" "\<lambda>s. s\<lparr>pst_RemoteIP := ip\<rparr>"] by auto
    then show ?thesis using c 1 Cons by (auto simp: copy_and_assign_def)
  qed
qed

text \<open>
  C29: \<^verbatim>\<open>onAdd\<close> of the peer watcher on the heap: copying a peer and assigning the addresses of the
  Service to the copy returns, leaves every cell that existed before as it was (so the peer the
  watcher was given, and the cache it may come from, are untouched), and the copy reads as the
  peer the value-level model of \<^verbatim>\<open>onAdd\<close> sends to the API server.
\<close>

theorem copy_and_assign_refines:
  assumes lib: "apimachinery_copies lib" and peer: "peer_at h a = Some peer"
  shows "\<exists>c h'. copy_and_assign lib svc (Some a) h = Some (Some c, h')
    \<and> peer_at h' c = Some (peer\<lparr>peer_Status := ingress_loop (svc_Ingress svc)
        ((peer_Status peer)\<lparr>pst_LocalIP := svc_ClusterIP svc\<rparr>)\<rparr>)
    \<and> peer_at h' a = Some peer \<and> take (length h) h' = h"
proof -
  from copy_and_assign_run [OF assms, of svc] obtain c h' where r: "copy_and_assign lib svc (Some a) h = Some (Some c, h')"
    "peer_at h' c = Some (peer\<lparr>peer_Status := ingress_loop (svc_Ingress svc)
        ((peer_Status peer)\<lparr>pst_LocalIP := svc_ClusterIP svc\<rparr>)\<rparr>)" "take (length h) h' = h" by blast
  have "h' = h @ drop (length h) h'" using r(3) by (metis append_take_drop_id)
  with peer_at_append [OF peer, of "drop (length h) h'"] have "peer_at h' a = Some peer" by simp
  with r show ?thesis by blast
qed

theorem copy_and_assign_refines_witness:
  "\<exists>peer c h'. peer_at sample_heap 10 = Some peer
     \<and> copy_and_assign sample_lib \<lparr>svc_ObjectMeta = named_meta ''peer'' ''glb'', svc_Ports = [], svc_ClusterIP = ''10.1.0.1'',
         svc_Ingress = [''192.0.2.1'', ''192.0.2.2'']\<rparr> (Some 10) sample_heap = Some (Some c, h')
     \<and> peer_at h' 10 = Some peer
     \<and> map_option (\<lambda>p. (pst_LocalIP (peer_Status p), pst_RemoteIP (peer_Status p))) (peer_at h' c) = Some (''10.1.0.1'', ''192.0.2.1'')"
proof -
  have "\<exists>peer. peer_at sample_heap 10 = Some peer"
    by (simp add: peer_at_def sample_heap_defs)
  then obtain peer where p: "peer_at sample_heap 10 = Some peer" by blast
  show ?thesis
    using p copy_and_assign_refines [OF sample.apimachinery_copies_axioms p,
      of "\<lparr>svc_ObjectMeta = named_meta ''peer'' ''glb'', svc_Ports = [], svc_ClusterIP = ''10.1.0.1'',
         svc_Ingress = [''192.0.2.1'', ''192.0.2.2'']\<rparr>"] by fastforce
qed

end
