(* ===== verification/Scheme.thy ===== *)
theory Scheme
  imports Main_Wiring Deep_Copy_Properties
begin

text \<open>
  The registration of the API types: the variables of \<^verbatim>\<open>api/v1alpha1/groupversion_info.go\<close>, the \<^verbatim>\<open>init\<close> functions
  of the files beside it and the \<^verbatim>\<open>init\<close> of \<^verbatim>\<open>cmd/main.go\<close>. The scheme and its builder are apimachinery: the record
  \<open>scheme_lib\<close> is their interface and the locale \<open>scheme_docs\<close> states what is documented of them. A function over
  a \<^verbatim>\<open>*runtime.Scheme\<close> runs in the monad whose world is the scheme.
\<close>

section \<open>The library\<close>

record group_version =
  gv_Group :: string
  gv_Version :: string

text \<open>A Go type is given by its name, which is the kind it is registered as; \<open>'b\<close> is \<^verbatim>\<open>runtime.SchemeBuilder\<close>.\<close>

record ('s, 'b) scheme_lib =
  NewScheme :: 's
  NewSchemeBuilder :: "('s, unit) go list \<Rightarrow> 'b"
  Register :: "('s, unit) go list \<Rightarrow> 'b \<Rightarrow> 'b"
  SchemeBuilder_AddToScheme :: "'b \<Rightarrow> ('s, unit) go"
  AddKnownTypes :: "group_version \<Rightarrow> string list \<Rightarrow> ('s, unit) go"
  AddToGroupVersion :: "group_version \<Rightarrow> ('s, unit) go"
  clientgo_AddToScheme :: "('s, unit) go"

section \<open>Package v1alpha1\<close>

definition SchemeGroupVersion :: group_version where
  "SchemeGroupVersion = \<lparr>gv_Group = ''glb.antware.xyz'', gv_Version = ''v1alpha1''\<rparr>"

definition GroupVersion :: group_version where
  "GroupVersion = SchemeGroupVersion"

text \<open>The initial value of the variable \<^verbatim>\<open>SchemeBuilder\<close>.\<close>

definition SchemeBuilder :: "('s, 'b) scheme_lib \<Rightarrow> 'b" where
  "SchemeBuilder lib =
     NewSchemeBuilder lib [go_bind (AddToGroupVersion lib SchemeGroupVersion) (\<lambda>_. go_return ())]"

text \<open>
  The \<^verbatim>\<open>init\<close> function of each file updates the variable; what it registers is a function literal that adds
  two types and returns nil.
\<close>

definition add_known :: "('s, 'b) scheme_lib \<Rightarrow> string list \<Rightarrow> ('s, unit) go" where
  "add_known lib kds = go_bind (AddKnownTypes lib SchemeGroupVersion kds) (\<lambda>_. go_return ())"

definition backend_types_init :: "('s, 'b) scheme_lib \<Rightarrow> 'b \<Rightarrow> 'b" where
  "backend_types_init lib =
     Register lib [add_known lib [''Backend'', ''BackendList'']]"

definition frontend_types_init :: "('s, 'b) scheme_lib \<Rightarrow> 'b \<Rightarrow> 'b" where
  "frontend_types_init lib =
     Register lib [add_known lib [''Frontend'', ''FrontendList'']]"

definition globalloadbalancer_types_init :: "('s, 'b) scheme_lib \<Rightarrow> 'b \<Rightarrow> 'b" where
  "globalloadbalancer_types_init lib =
     Register lib [add_known lib [''GlobalLoadBalancer'', ''GlobalLoadBalancerList'']]"

definition peer_types_init :: "('s, 'b) scheme_lib \<Rightarrow> 'b \<Rightarrow> 'b" where
  "peer_types_init lib =
     Register lib [add_known lib [''Peer'', ''PeerList'']]"

text \<open>
  Variables are initialised before the \<^verbatim>\<open>init\<close> functions run, and these run in the order of the files' names. The
  variable \<^verbatim>\<open>AddToScheme\<close> is the method value \<^verbatim>\<open>SchemeBuilder.AddToScheme\<close>; the method has a pointer receiver, so the
  variable holds the address of \<^verbatim>\<open>SchemeBuilder\<close>, and a call sees what was registered until then. It takes the
  value the variable has at the call.
\<close>

definition package_init :: "('s, 'b) scheme_lib \<Rightarrow> 'b" where
  "package_init lib =
     peer_types_init lib (globalloadbalancer_types_init lib (frontend_types_init lib (backend_types_init lib (SchemeBuilder lib))))"

definition AddToScheme :: "('s, 'b) scheme_lib \<Rightarrow> 'b \<Rightarrow> ('s, unit) go" where
  "AddToScheme lib builder = SchemeBuilder_AddToScheme lib builder"

section \<open>Package main\<close>

text \<open>\<^verbatim>\<open>utilruntime.Must\<close> panics with a returned error; a panic passes through.\<close>

definition Must :: "('s, unit) go \<Rightarrow> ('s, unit) go" where
  "Must m = (\<lambda>s. case m s of (Inl (Err e), s') \<Rightarrow> (Inl (Panic (PanicWith e)), s') | r \<Rightarrow> r)"

definition main_init :: "('s, 'b) scheme_lib \<Rightarrow> 'b \<Rightarrow> ('s, unit) go" where
  "main_init lib builder = go_bind (Must (clientgo_AddToScheme lib)) (\<lambda>_. Must (AddToScheme lib builder))"

text \<open>The package \<^verbatim>\<open>v1alpha1\<close> is imported by \<^verbatim>\<open>main\<close>, so it is initialised first.\<close>

definition startup :: "('s, 'b) scheme_lib \<Rightarrow> unit result \<times> 's" where
  "startup lib = main_init lib (package_init lib) (NewScheme lib)"

section \<open>What the library promises\<close>

text \<open>Running the functions of a builder one after the other, up to the first failure.\<close>

fun run_all :: "('s, unit) go list \<Rightarrow> ('s, unit) go" where
  "run_all [] = go_return ()"
| "run_all (f # fs) = go_bind f (\<lambda>_. run_all fs)"

lemma add_known_run: "AddKnownTypes lib SchemeGroupVersion kds s = (Inr (), s') \<Longrightarrow> add_known lib kds s = (Inr (), s')"
  by (simp add: add_known_def go_bind_def)

lemma SchemeGroupVersion_version: "gv_Version SchemeGroupVersion \<noteq> []"
  by (simp add: SchemeGroupVersion_def)

text \<open>
  A builder holds a list of functions, \<^verbatim>\<open>Register\<close> appends to it, and \<^verbatim>\<open>AddToScheme\<close> runs it. \<^verbatim>\<open>Recognizes\<close> says
  whether a kind of a group version is known. \<^verbatim>\<open>AddKnownTypes\<close> makes exactly the given kinds known besides those known
  already; it panics on an empty version or when a kind is taken by another type, so it succeeds on a version
  with kinds not known before. \<^verbatim>\<open>AddToGroupVersion\<close> adds the kinds of the meta package (\<open>meta_kinds\<close>), and the scheme of
  client-go has no kind of the operator's group.
\<close>

locale scheme_docs =
  fixes lib :: "('s, 'b) scheme_lib"
    and funcs :: "'b \<Rightarrow> ('s, unit) go list"
    and Recognizes :: "'s \<Rightarrow> group_version \<Rightarrow> string \<Rightarrow> bool"
    and meta_kinds :: "string set"
  assumes funcs_new: "funcs (NewSchemeBuilder lib fs) = fs"
    and funcs_register: "funcs (Register lib gs b) = funcs b @ gs"
    and adds: "SchemeBuilder_AddToScheme lib b = run_all (funcs b)"
    and empty: "\<not> Recognizes (NewScheme lib) gv kd"
    and known: "gv_Version gv \<noteq> [] \<Longrightarrow> \<forall>kd \<in> set kds. \<not> Recognizes s gv kd \<Longrightarrow>
      \<exists>s'. AddKnownTypes lib gv kds s = (Inr (), s')
         \<and> (\<forall>gv' kd. Recognizes s' gv' kd \<longleftrightarrow> Recognizes s gv' kd \<or> gv' = gv \<and> kd \<in> set kds)"
    and meta: "gv_Version gv \<noteq> [] \<Longrightarrow>
      \<exists>s'. AddToGroupVersion lib gv s = (Inr (), s')
         \<and> (\<forall>gv' kd. Recognizes s gv' kd \<longrightarrow> Recognizes s' gv' kd)
         \<and> (\<forall>gv' kd. Recognizes s' gv' kd \<longrightarrow> Recognizes s gv' kd \<or> kd \<in> meta_kinds)"
    and clientgo: "\<exists>s'. clientgo_AddToScheme lib (NewScheme lib) = (Inr (), s')
         \<and> (\<forall>gv kd. Recognizes s' gv kd \<longrightarrow> gv_Group gv \<noteq> ''glb.antware.xyz'')"
    and meta_names: "meta_kinds \<inter> {''Backend'', ''BackendList'', ''Frontend'', ''FrontendList'', ''GlobalLoadBalancer'',
      ''GlobalLoadBalancerList'', ''Peer'', ''PeerList''} = {}"
begin

lemma funcs_package:
  "funcs (package_init lib) =
     [go_bind (AddToGroupVersion lib SchemeGroupVersion) (\<lambda>_. go_return ()),
      add_known lib [''Backend'', ''BackendList''],
      add_known lib [''Frontend'', ''FrontendList''],
      add_known lib [''GlobalLoadBalancer'', ''GlobalLoadBalancerList''],
      add_known lib [''Peer'', ''PeerList'']]"
  by (simp add: package_init_def SchemeBuilder_def backend_types_init_def frontend_types_init_def
      globalloadbalancer_types_init_def peer_types_init_def funcs_new funcs_register)

text \<open>Registering a list of groups of new kinds succeeds and makes exactly them known.\<close>

lemma run_known:
  assumes "distinct (concat kdss)" and "\<forall>kd \<in> set (concat kdss). \<not> Recognizes s SchemeGroupVersion kd"
  shows "\<exists>s'. run_all (map (add_known lib) kdss) s = (Inr (), s')
    \<and> (\<forall>SchemeGroupVersion' kd. Recognizes s' SchemeGroupVersion' kd \<longleftrightarrow> Recognizes s SchemeGroupVersion' kd \<or> SchemeGroupVersion' = SchemeGroupVersion \<and> kd \<in> set (concat kdss))"
  using assms
proof (induction kdss arbitrary: s)
  case (Cons kds kdss)
  then have "\<forall>kd \<in> set kds. \<not> Recognizes s SchemeGroupVersion kd" by simp
  from known [OF SchemeGroupVersion_version this] obtain s1 where s1: "AddKnownTypes lib SchemeGroupVersion kds s = (Inr (), s1)"
    "\<forall>SchemeGroupVersion' kd. Recognizes s1 SchemeGroupVersion' kd \<longleftrightarrow> Recognizes s SchemeGroupVersion' kd \<or> SchemeGroupVersion' = SchemeGroupVersion \<and> kd \<in> set kds" by blast
  have "\<forall>kd \<in> set (concat kdss). \<not> Recognizes s1 SchemeGroupVersion kd" "distinct (concat kdss)" using Cons.prems s1(2) by auto
  from Cons.IH [OF this(2,1)] obtain s' where
    "run_all (map (add_known lib) kdss) s1 = (Inr (), s')"
    "\<forall>SchemeGroupVersion' kd. Recognizes s' SchemeGroupVersion' kd \<longleftrightarrow> Recognizes s1 SchemeGroupVersion' kd \<or> SchemeGroupVersion' = SchemeGroupVersion \<and> kd \<in> set (concat kdss)" by (elim exE conjE)
  then show ?case using s1 add_known_run [OF s1(1)] by (auto simp: go_bind_def)
qed simp

lemma startup_knows:
  "\<exists>s. startup lib = (Inr (), s)
     \<and> (\<forall>kd. Recognizes s SchemeGroupVersion kd \<longleftrightarrow> kd \<in> {''Backend'', ''BackendList'', ''Frontend'', ''FrontendList'',
          ''GlobalLoadBalancer'', ''GlobalLoadBalancerList'', ''Peer'', ''PeerList''}
        \<or> kd \<in> meta_kinds \<and> Recognizes s SchemeGroupVersion kd)"
proof -
  let ?kdss = "[[''Backend'', ''BackendList''], [''Frontend'', ''FrontendList''],
    [''GlobalLoadBalancer'', ''GlobalLoadBalancerList''], [''Peer'', ''PeerList'']]"
  let ?run = "run_all (map (add_known lib) ?kdss)"
  have g: "gv_Group SchemeGroupVersion = ''glb.antware.xyz''"
    by (simp add: SchemeGroupVersion_def)
  from clientgo obtain s1 where s1: "clientgo_AddToScheme lib (NewScheme lib) = (Inr (), s1)"
    "\<forall>gv kd. Recognizes s1 gv kd \<longrightarrow> gv_Group gv \<noteq> ''glb.antware.xyz''" by blast
  from meta [OF SchemeGroupVersion_version] obtain s2 where s2: "AddToGroupVersion lib SchemeGroupVersion s1 = (Inr (), s2)"
    "\<forall>gv' kd. Recognizes s2 gv' kd \<longrightarrow> Recognizes s1 gv' kd \<or> kd \<in> meta_kinds" by blast
  have fresh: "\<forall>kd. Recognizes s2 SchemeGroupVersion kd \<longrightarrow> kd \<in> meta_kinds" using s1(2) s2(2) g by blast
  then have "\<forall>kd \<in> set (concat ?kdss). \<not> Recognizes s2 SchemeGroupVersion kd" using meta_names by auto
  with run_known [of ?kdss s2] obtain s where s: "?run s2 = (Inr (), s)"
    "\<forall>gv' kd. Recognizes s gv' kd \<longleftrightarrow> Recognizes s2 gv' kd \<or> gv' = SchemeGroupVersion \<and> kd \<in> set (concat ?kdss)" by auto
  have "AddToScheme lib (package_init lib) s1 = (Inr (), s)"
    using s2(1) s(1) by (simp add: AddToScheme_def adds funcs_package go_bind_def)
  then have "startup lib = (Inr (), s)" using s1(1) by (simp add: startup_def main_init_def Must_def go_bind_def)
  moreover have "Recognizes s SchemeGroupVersion kd \<longleftrightarrow> kd \<in> set (concat ?kdss) \<or> kd \<in> meta_kinds \<and> Recognizes s SchemeGroupVersion kd" for kd
    using s(2) fresh by blast
  ultimately show ?thesis by auto
qed

end

section \<open>A scheme in memory\<close>

text \<open>A scheme as the set of its kinds and a builder as its list of functions; it behaves as documented.\<close>

type_synonym mem_scheme = "(group_version \<times> string) list"

definition mem_meta_kinds :: "string list" where
  "mem_meta_kinds = [''WatchEvent'', ''ListOptions'', ''GetOptions'', ''DeleteOptions'', ''CreateOptions'', ''UpdateOptions'', ''PatchOptions'']"

definition mem_add :: "group_version \<Rightarrow> string list \<Rightarrow> (mem_scheme, unit) go" where
  "mem_add gv kds = (\<lambda>s. if gv_Version gv = [] \<or> (\<exists>kd \<in> set kds. (gv, kd) \<in> set s)
     then (Inl (Panic (PanicWith (OtherErr ''registration''))), s) else (Inr (), s @ map (Pair gv) kds))"

definition mem_scheme_lib :: "(mem_scheme, (mem_scheme, unit) go list) scheme_lib" where
  "mem_scheme_lib =
     \<lparr>NewScheme = [], NewSchemeBuilder = (\<lambda>fs. fs), Register = (\<lambda>gs b. b @ gs), SchemeBuilder_AddToScheme = run_all,
      AddKnownTypes = mem_add, AddToGroupVersion = (\<lambda>gv s. (Inr (), s @ map (Pair gv) mem_meta_kinds)),
      clientgo_AddToScheme = mem_add \<lparr>gv_Group = ''apps'', gv_Version = ''v1''\<rparr> [''StatefulSet'', ''StatefulSetList'']\<rparr>"

interpretation mem_scheme: scheme_docs mem_scheme_lib "\<lambda>b. b" "\<lambda>s gv kd. (gv, kd) \<in> set s" "set mem_meta_kinds"
  by unfold_locales (auto simp: mem_scheme_lib_def mem_add_def mem_meta_kinds_def)

section \<open>The operator's kinds\<close>

text \<open>
  C39: the process starts without a panic, and its scheme knows the kind of every API object that has a
  \<^verbatim>\<open>DeepCopyObject\<close>, and every kind of the group that a controller reconciles or owns.
\<close>

theorem startup_registers_kinds:
  assumes "scheme_docs lib funcs Recognizes meta_kinds"
  shows "\<exists>s. startup lib = (Inr (), s) \<and> (\<forall>obj. Recognizes s GroupVersion (object_kind obj))
    \<and> (\<forall>reg \<in> {GLB_SetupWithManager, Frontend_SetupWithManager}. \<forall>kd \<in> insert (reg_For reg) (set (reg_Owns reg)).
         kd \<noteq> ''StatefulSet'' \<longrightarrow> Recognizes s GroupVersion kd)"
proof -
  from scheme_docs.startup_knows [OF assms] obtain s where s: "startup lib = (Inr (), s)"
    "\<forall>kd \<in> {''Backend'', ''BackendList'', ''Frontend'', ''FrontendList'', ''GlobalLoadBalancer'', ''GlobalLoadBalancerList'',
       ''Peer'', ''PeerList''}. Recognizes s GroupVersion kd" unfolding GroupVersion_def by metis
  moreover have "Recognizes s GroupVersion (object_kind obj)" for obj using s(2) by (cases obj) simp_all
  ultimately show ?thesis by (auto simp: GLB_SetupWithManager_def Frontend_SetupWithManager_def)
qed

theorem startup_registers_kinds_witness:
  "\<exists>s. startup mem_scheme_lib = (Inr (), s) \<and> (GroupVersion, object_kind (OPeerList None)) \<in> set s"
  using startup_registers_kinds [OF mem_scheme.scheme_docs_axioms] by blast

end
