(* ===== verification/Spec2Isabelle.thy ===== *)
theory Spec2Isabelle
  imports Operator_Liveness Claim_Liveness Command_Line Peer_Copy Scheme
begin

text \<open>
  \<^bold>\<open>A verified model of k8s-glb-operator\<close>

  The operator runs HAProxy as a global load balancer on Kubernetes. Four custom resources describe it: a
  \<^verbatim>\<open>GlobalLoadBalancer\<close> (replicas, image, a selector of frontends), a \<^verbatim>\<open>Frontend\<close> (a Service and a selector of
  backends; its status holds the owning load balancer and an allocated port), a \<^verbatim>\<open>Backend\<close> (an SNI host and
  servers) and a \<^verbatim>\<open>Peer\<close>. The parts and how they interact:

  \<^item> the load-balancer controller (\<^verbatim>\<open>internal/controller/globalloadbalancer_controller.go\<close>) keeps a StatefulSet of
    HAProxy pods (\<^verbatim>\<open>statefulset.go\<close>), claims the selected frontends and gives them ports, and writes one HAProxy
    configuration per replica (\<^verbatim>\<open>internal/haproxy/configbuilder.go\<close>) into a ConfigMap the pods mount;
  \<^item> the monitor (\<^verbatim>\<open>internal/haproxy/haproxymonitor.go\<close>) tracks the HAProxy pods through an informer, scrapes the
    metrics of each in its own goroutine, and reports the endpoints of every frontend to the health manager
    (\<^verbatim>\<open>healthmanager.go\<close>), which stores them in the health cache (\<^verbatim>\<open>healthcache.go\<close>) and wakes the frontend
    controller through an unbuffered channel;
  \<^item> the frontend controller (\<^verbatim>\<open>internal/controller/frontend_controller.go\<close>) keeps a Service per frontend and an
    EndpointSlice filled from the health cache;
  \<^item> the peer watcher (\<^verbatim>\<open>internal/watchers/peerServiceWatcher.go\<close>) keeps a \<^verbatim>\<open>Peer\<close> per labelled Service;
  \<^item> \<^verbatim>\<open>cmd/main.go\<close> builds and wires all of them.

  \<^bold>\<open>Theories\<close>

  \<^item> \<open>Prelude\<close>: \<^verbatim>\<open>int32\<close> and \<^verbatim>\<open>int\<close> as words, Go errors and panics as values, the monad of the reconcilers, Go maps
    as association lists read with \<^const>\<open>map_of\<close>, the order of a \<^verbatim>\<open>range\<close> over a map as an argument, formatting and
    splitting of text, reachable states and the locale \<open>invariant_system\<close>.
  \<^item> \<open>API_Types\<close>: the structs of \<^verbatim>\<open>api/v1alpha1\<close> as records; a pointer is an option.
  \<^item> \<open>Kube_Client\<close>: the objects of Kubernetes the program touches, and the client, cache, label machinery and
    \<^verbatim>\<open>controllerutil\<close> as the record \<open>kube\<close>, an argument of every operation that calls them. What the program relies on
    is documented behaviour, stated as named hypotheses: \<open>ignore_not_found_doc\<close>, \<open>requirement_doc\<close>,
    \<open>create_or_update_doc\<close>, and in later theories \<open>status_update_doc\<close>, \<open>list_frontends_doc\<close>, \<open>peer_api_doc\<close>. The
    locales \<open>mutator\<close> (a callback of \<^verbatim>\<open>CreateOrUpdate\<close>) and \<open>event_filter\<close> (the label filter in front of informer
    callbacks) are the contracts of the program's own callbacks.
  \<^item> \<open>Ports\<close>: \<open>GetNextPort\<close> over \<^verbatim>\<open>int32\<close>, with the locale \<open>port_source\<close>: the least free port, fresh, bounded.
  \<^item> \<open>Health_Cache\<close>, \<open>Health_Manager\<close>: the cache with the locale \<open>health_store\<close>, its refinement of an abstract map,
    and the events of the manager; whether a receiver waits is an argument.
  \<^item> \<open>Config_Builder\<close>: \<open>BuildConfig\<close> as text, and a reader of that text that recovers routes, sections and binds.
  \<^item> \<open>Stateful_Set\<close>, \<open>GLB_Controller\<close>, \<open>Frontend_Controller\<close>, \<open>Peer_Watcher\<close>: the reconcilers and the watcher, one
    definition per function and per closure, errors and panics included; each closure passed to
    \<^verbatim>\<open>CreateOrUpdate\<close> is an interpretation of \<open>mutator\<close>.
  \<^item> \<open>Monitor\<close>, \<open>Monitor_System\<close>: the locked sections of the monitor as functions on its state, and their
    interleaving as the step relation \<open>mon_step\<close>, an interpretation of \<open>invariant_system\<close>.
  \<^item> \<open>Main_Wiring\<close>: \<^verbatim>\<open>cmd/main.go\<close> with its options, namespaces and exits, and \<^verbatim>\<open>version/version.go\<close>.
    \<open>Command_Line\<close>: the flags \<^verbatim>\<open>main\<close> defines, \<^verbatim>\<open>flag.Parse\<close> of the standard library, and the process from its arguments
    to its exit status; the flags zap binds are an argument.
  \<^item> \<open>Go_Heap\<close>: a heap of typed cells, pointers, slices (address, offset, length) and maps on it, the value an
    address unfolds to and the cells it reaches (locale \<open>heap_view\<close>), and what a deep copy promises (locale
    \<open>deep_copy\<close>), closed under structs, pointers, slices and maps.
  \<^item> \<open>Deep_Copy_Types\<close>, \<open>Deep_Copy\<close>, \<open>Deep_Copy_Properties\<close>: the structs as they lie in memory, every function of
    \<^verbatim>\<open>api/v1alpha1/zz_generated.deepcopy.go\<close> over that heap, each shown to keep the contract, and the properties of
    \<^verbatim>\<open>DeepCopyObject\<close>. The copies of the apimachinery types are the record \<open>apimachinery\<close>, with the same contract as
    the hypothesis \<open>apimachinery_copies\<close>. \<open>Peer_Copy\<close>: the copy the peer watcher assigns to, as a refinement.
  \<^item> \<open>Scheme\<close>: \<^verbatim>\<open>groupversion_info.go\<close>, the \<^verbatim>\<open>init\<close> functions and the scheme of \<^verbatim>\<open>main\<close>; the scheme and its builder are
    the record \<open>scheme_lib\<close> with the laws of the locale \<open>scheme_docs\<close>.
  \<^item> \<open>Mem_Cluster\<close>: a cluster in memory that behaves as documented; it shows that the hypotheses can hold and
    carries the witnesses.
  \<^item> \<open>Monitor_Properties\<close>, \<open>Controller_Properties\<close>: the properties of the monitor and of each stage of the
    controllers. \<open>Reconcile_Runs\<close>: whole runs of \<^verbatim>\<open>Reconcile\<close> over the documented API (locale \<open>api_stores\<close>), and the
    way of health from the monitor to an EndpointSlice.
  \<^item> \<open>Fair_Runs\<close>: infinite runs, weak fairness and a rule for progress. \<open>Operator_System\<close>: the running operator as one
    step relation \<open>op_step\<close>: the monitor with \<^verbatim>\<open>updateHealthManager\<close> cut at its calls, the channel source, the work queue
    (locale \<open>work_queue_docs\<close>) and the worker of the frontend controller with \<^verbatim>\<open>Reconcile\<close> cut at its calls, over
    an API (locale \<open>frontend_api\<close>) that anybody else may change. \<open>Operator_Env\<close>: the load-balancer controller and the
    peer watcher as part of that environment (locales \<open>world_relation\<close>, \<open>frontend_store\<close>). \<open>Operator_Liveness\<close>: from
    an event to the EndpointSlice on fair runs (locale \<open>operator_run\<close>), and an eager scheduler that makes one.
  \<^item> \<open>Concurrent_Claims\<close>: runs of \<^verbatim>\<open>ReconcileFrontends\<close> cut at their calls and interleaved, over stale caches and an API with
    resource versions (locales \<open>versioned_store\<close>, \<open>claiming\<close>), while users create, edit and delete frontends. \<open>Claim_Liveness\<close>:
    on fair runs of these (locale \<open>claiming_run\<close>) a frontend is claimed in the end.
  \<^item> This theory: the properties that start at \<^verbatim>\<open>main\<close> or end in HAProxy.

  \<^bold>\<open>What is shown\<close>

  Claiming: every frontend in scope ends up owned and with a port unless its status update failed, and nothing else of it, and no frontend of
  another load balancer, ever changes; ports stay different as long as at most one frontend is pending; the next port
  is the least free one from the minimum, or from the smallest port in use below it.
  Configuration: one file per replica, whose routes and sections, read back, are exactly the selected ones, and
  every pod finds its file, with what Kubernetes does to a pod as the locale \<open>kubernetes_pods\<close>. StatefulSet, Service and EndpointSlice: what a successful run has stored, and that a
  second run settles. Health: whatever is reported, the cache shows every reported address with its health; and where no list
  repeats an address, it refines an abstract map and events are exact when the receiver waits; the
  monitor's invariant over every interleaving; concurrent scrapes equal sequential ones; a report brings the
  recorded health to the cache, for frontends with a recorded pod, independently of the order maps are visited in.
  Whole runs: a successful reconcile leaves StatefulSet, frontends and ConfigMap as the load balancer describes
  them, the next one writes no frontend, both but for frontends whose status update failed, which the code passes
  over, and a failure bounds what was changed; a report followed by a reconcile
  brings exactly the recorded addresses and their health to the EndpointSlice of a frontend with recorded pods and
  no repeated address. Copies: the generated functions
  return, give an equal value in new cells only, and no later write to one side is seen from the other. The running
  operator: its single steps are \<^verbatim>\<open>Reconcile\<close> and \<^verbatim>\<open>updateHealthManager\<close>; an invariant over every interleaving, by which the
  worker never stores under another key than the one it was asked for; claims on frontends last until the frontend is
  deleted, are exclusive even when several operators claim at once from stale caches, and come about on every
  fair run; and health that was announced and stays the same is published by every fair run, even though a run of the
  worker may have read older health before. The command line: every spelling of every setting is read back, and
  the exit status of every kind of wrong argument; \<^verbatim>\<open>main\<close> stops at the first call that fails. Peers, options, namespaces, and the kinds the scheme knows
  after initialisation.

  Some theorems state where the code does not do what it means to: all pending frontends of one run share a port;
  the allocated port is not the one HAProxy binds; a nil ConfigMap panics and stale files stay; a wake-up can be
  lost for good; the cache misses changes of nodes and of duplicated addresses, which every frontend with two
  backends has; a pod deleted during its scrape stays recorded and is reported without an address; the last
  pod's endpoints are never withdrawn; peers never learn a later address; a list of namespaces leaves the
  monitor in none of them; a port below the minimum draws later ones below it; the frontends of a deleted load
  balancer keep it as their owner.

  \<^bold>\<open>Modelling choices\<close>

  Every loop of the program ends, so no definition uses fuel: loops are structural recursions, or end by a
  measure: the scan of \<open>GetNextPort\<close>, \<open>Parse\<close> over the arguments, and the runs of single steps \<open>worker_run\<close> and \<open>claimer_run\<close>. The select loop of \<^verbatim>\<open>Start\<close> is the step relation. A locked section
  is one step. The HTTP exchange and the Prometheus decoder are the argument \<open>httpGet\<close>; a float is
  kept as far as a comparison with zero needs it. Logging is left out. The work queue and the retry of
  failed keys belong to controller-runtime: the queue is a parameter with its documented laws (each key once,
  first in first out among keys of one priority, never two runs of one key), a retry is a step that may be taken at any later time, and
  the liveness theorem asks that it is taken. The frontend controller has one worker, the default.
  The monitor, the report and the frontend controller are cut at every call; a reconcile of the load-balancer controller
  and a callback of the peer watcher are one step each there, and \<open>Concurrent_Claims\<close> cuts the claiming loop at its calls. A status
  update is refused unless it carries the stored resource version, and gives the object a new one; the status of a
  Peer that is created is dropped, as for every resource with a status subresource. In the properties of single runs a list or a
  cached read shows what is stored (\<open>list_frontends_doc\<close>, \<open>peer_api_doc\<close>); reads of any age are in \<open>Concurrent_Claims\<close> and
  \<open>Claim_Liveness\<close>. Objects are told apart by their UID, so
  that an object which is deleted and created again under its name is another object.

  \<^bold>\<open>What is not modelled\<close>

  Logging and the ticker (library calls), the tests, and the manifests under \<^verbatim>\<open>config\<close> and
  \<^verbatim>\<open>dist\<close>. Three struct declarations carry no behaviour of their own and have no record: \<^verbatim>\<open>ConfigBuilder\<close> (a client
  that is never read), \<^verbatim>\<open>DeploymentImages\<close> (never used) and \<^verbatim>\<open>FrontendReconciler\<close>, whose client and cache are the
  arguments of its methods. What happens to the objects a deleted load balancer or frontend owns is the garbage collection
  of the API server: the program has no code for deletions other than of pods.
\<close>

section \<open>From main to the running monitor\<close>

lemma new_monitor_fields:
  assumes "NewHAProxyMonitor k ns port path interval = Inr mon"
  shows "mon_namespace mon = ns \<and> mon_metricsPort mon = port
    \<and> NewRequirement k ''app.kubernetes.io/name'' In [''global-load-balancer''] = Inr (mon_selector mon)"
  using assms by (cases "NewRequirement k ''app.kubernetes.io/name'' In [''global-load-balancer'']") (auto simp: NewHAProxyMonitor_def)

lemma mon_step_namespace: "mon_step k s t \<Longrightarrow> mon_namespace (sys_mon t) = mon_namespace (sys_mon s)"
  by (induction rule: mon_step.induct) (simp_all add: take_snapshot_def del: mon_handle.simps)

lemma run_namespace: "(mon_step k)\<^sup>*\<^sup>* s t \<Longrightarrow> mon_namespace (sys_mon t) = mon_namespace (sys_mon s)"
  by (induction rule: rtranclp_induct) (auto dest: mon_step_namespace)

text \<open>
  The monitor that main builds, with the health manager main builds, starts in an initial state of the
  transition system, so whatever it does afterwards its targets have addresses, its recorded states are
  well formed, and it lists Backends and Frontends only in the namespace given to main.
\<close>

theorem main_runs_safely:
  assumes main: "main k outcome lookupEnv flags = Inr co"
    and run: "(mon_step k)\<^sup>*\<^sup>* \<lparr>sys_mon = co_HAProxyMonitor co, sys_hm = co_HealthManager co, sys_phase = Idle\<rparr> s"
  shows "targets_ok (sys_mon s) \<and> pods_ok (sys_mon s) \<and> states_wf (mon_endpointStates (sys_mon s))
    \<and> lookupEnv ''WATCH_NAMESPACE'' = Some (mon_namespace (sys_mon s))"
proof -
  let ?s = "\<lparr>sys_mon = co_HAProxyMonitor co, sys_hm = co_HealthManager co, sys_phase = Idle\<rparr>"
  from main obtain ns where ns: "lookupEnv ''WATCH_NAMESPACE'' = Some ns"
    "NewHAProxyMonitor k ns 8405 ''/'' (5 * second) = Inr (co_HAProxyMonitor co)"
    "co_HealthManager co = NewHealthManager NewHealthCache"
    by (rule main_components)
  then have "mon_init k ?s" unfolding mon_init_def by auto
  then have "sys_inv s" using monitor.run_inv [OF run] mon_init_inv by blast
  moreover have "mon_namespace (co_HAProxyMonitor co) = ns" using new_monitor_fields [OF ns(2)] by simp
  then have "mon_namespace (sys_mon s) = ns" using run_namespace [OF run] by simp
  ultimately show ?thesis using ns(1) by (simp add: sys_inv_def)
qed

definition sample_env :: "string \<Rightarrow> string \<Rightarrow> string option" where
  "sample_env ns = (\<lambda>v. if v = ''WATCH_NAMESPACE'' then Some ns else None)"

lemma sample_main: "\<exists>co. main mem_kube (\<lambda>_. None) (sample_env ns) default_flags = Inr co"
  by (simp add: main_def exit_bind_def or_exit_def err_or_exit_def Peer_SetupWithManager_def Monitor_SetupWithManager_def Let_def getWatchNamespace_def sample_env_def
      NewPeerServiceWatcher_def NewHAProxyMonitor_def mem_kube_sel mem_requirement_def)

theorem main_runs_safely_witness:
  "\<exists>co. main mem_kube (\<lambda>_. None) (sample_env ''glb'') default_flags = Inr co \<and> pods_ok (co_HAProxyMonitor co)"
proof -
  obtain co where co: "main mem_kube (\<lambda>_. None) (sample_env ''glb'') default_flags = Inr co" using sample_main by blast
  from main_runs_safely [OF co rtranclp.rtrancl_refl] co show ?thesis by simp
qed

text \<open>
  C37: the pods of the StatefulSet carry the label the monitor selects, and the port the monitor scrapes is both
  the container's metrics port and a port the HAProxy configuration binds.
\<close>

theorem monitor_scrapes_haproxy:
  assumes "requirement_doc k" and "main k outcome lookupEnv flags = Inr co"
  shows "mon_selector (co_HAProxyMonitor co) (om_Labels (pts_ObjectMeta (pod_template lb)))
    \<and> (\<exists>ct \<in> set (pds_Containers (pts_Spec (pod_template lb))).
         \<lparr>cp_Name = ''metrics'', cp_Protocol = ''TCP'', cp_ContainerPort = mon_metricsPort (co_HAProxyMonitor co)\<rparr> \<in> set (ct_Ports ct))
    \<and> [''bind'', '':'' @ show_int (sint (mon_metricsPort (co_HAProxyMonitor co)))] \<in> set (text_tokens static_config)"
proof -
  from assms(2) obtain ns where "NewHAProxyMonitor k ns 8405 ''/'' (5 * second) = Inr (co_HAProxyMonitor co)"
    by (rule main_components)
  then obtain sel where sel: "NewRequirement k ''app.kubernetes.io/name'' In [''global-load-balancer''] = Inr sel"
    "mon_selector (co_HAProxyMonitor co) = sel" and port: "mon_metricsPort (co_HAProxyMonitor co) = 8405"
    using new_monitor_fields by blast
  have "sel ls = (\<exists>v \<in> set [''global-load-balancer'']. gm_get ls ''app.kubernetes.io/name'' = Some v)" for ls
    using assms(1) sel(1) unfolding requirement_doc_def by blast
  then have "sel (om_Labels (pts_ObjectMeta (pod_template lb)))" by (simp add: pod_template_def label_defs)
  moreover have "show_int 8405 = ''8405''"
    by (simp add: show_int_def) (simp add: show_nat.simps digit_def char_of_def bit_Suc_0_iff)
  then have "[''bind'', '':'' @ show_int (sint (8405 :: int32))] = [''bind'', '':8405'']" by simp
  moreover have "[''bind'', '':8405''] \<in> set (text_tokens static_config)" by code_simp
  ultimately show ?thesis using sel(2) unfolding port by (simp add: pod_template_def haproxy_container_def)
qed

theorem monitor_scrapes_haproxy_witness:
  "\<exists>co. main mem_kube (\<lambda>_. None) (sample_env ''glb'') default_flags = Inr co
     \<and> mon_selector (co_HAProxyMonitor co) (om_Labels (pts_ObjectMeta (pod_template (sample_lb 1))))"
proof -
  obtain co where co: "main mem_kube (\<lambda>_. None) (sample_env ''glb'') default_flags = Inr co" using sample_main by blast
  from monitor_scrapes_haproxy [OF mem_requirements co] co show ?thesis by blast
qed

text \<open>The calls on the manager \<^verbatim>\<open>main\<close> makes, in its order.\<close>

definition setup_calls :: "Flags \<Rightarrow> string \<Rightarrow> setup_call list" where
  "setup_calls flags ns =
     [GetConfigOrDie, NewManager (mgrOptions flags ns), AddPeerServiceWatcher, AddHAProxyMonitor,
      SetupController GLB_SetupWithManager, SetupController Frontend_SetupWithManager, AddHealthzCheck, AddReadyzCheck, StartManager]"

text \<open>
  C31: main goes through its set-up in order and stops at the first call that fails, with status 1 and the error of
  that call, so that nothing after it is tried; it gets through exactly when none fails. Without the variable
  WATCH_NAMESPACE it ends with status 1 before any call. Assumed: the label requirements of the peer
  watcher and of the monitor can be built.
\<close>

theorem main_stops_at_first_failure:
  assumes "NewPeerServiceWatcher k ''glb.antware.xyz/peer-name'' = Inr pw"
    and "\<forall>ns. \<exists>mon. NewHAProxyMonitor k ns 8405 ''/'' (5 * second) = Inr mon"
  shows "case lookupEnv ''WATCH_NAMESPACE'' of
      None \<Rightarrow> (\<exists>message e. main k outcome lookupEnv flags = Inl (Exit 1 message e))
    | Some ns \<Rightarrow> (case find (\<lambda>c. outcome c \<noteq> None) (setup_calls flags ns) of
          None \<Rightarrow> (\<exists>co. main k outcome lookupEnv flags = Inr co)
        | Some c \<Rightarrow> (\<exists>message. main k outcome lookupEnv flags = Inl (Exit 1 message (the (outcome c)))))"
proof (cases "lookupEnv ''WATCH_NAMESPACE''")
  case None
  then show ?thesis by (simp add: main_def exit_bind_def or_exit_def getWatchNamespace_def)
next
  case (Some ns)
  obtain mon where "NewHAProxyMonitor k ns 8405 ''/'' (5 * second) = Inr mon" using assms(2) by blast
  with Some assms(1) show ?thesis
    by (auto simp: main_def exit_bind_def or_exit_def err_or_exit_def getWatchNamespace_def setup_calls_def Let_def
        Peer_SetupWithManager_def Monitor_SetupWithManager_def split: option.splits)
qed

theorem main_stops_at_first_failure_witness:
  "\<exists>message. main mem_kube (\<lambda>c. if c = AddReadyzCheck \<or> c = StartManager then Some (OtherErr (if c = StartManager then ''start'' else ''ready'')) else None)
     (sample_env ''glb'') default_flags = Inl (Exit 1 message (OtherErr ''ready''))"
proof -
  obtain pw where pw: "NewPeerServiceWatcher mem_kube ''glb.antware.xyz/peer-name'' = Inr pw"
    by (simp add: NewPeerServiceWatcher_def mem_kube_sel mem_requirement_def)
  have mon: "\<forall>ns. \<exists>mon. NewHAProxyMonitor mem_kube ns 8405 ''/'' (5 * second) = Inr mon"
    by (simp add: NewHAProxyMonitor_def mem_kube_sel mem_requirement_def)
  show ?thesis
    using main_stops_at_first_failure [OF pw mon, where lookupEnv = "sample_env ''glb''" and flags = default_flags
        and outcome = "\<lambda>c. if c = AddReadyzCheck \<or> c = StartManager then Some (OtherErr (if c = StartManager then ''start'' else ''ready'')) else None"]
    by (simp add: setup_calls_def sample_env_def)
qed

text \<open>
  C38: with a comma-separated list of two or more namespaces the cache watches exactly the listed ones, but the monitor
  lists Backends and Frontends in the one namespace named by the whole text, which is not among them.
\<close>

theorem namespace_list_ignored_by_monitor:
  assumes "main k outcome lookupEnv flags = Inr co" and "lookupEnv ''WATCH_NAMESPACE'' = Some (join_with (CHR '','') names)"
    and "1 < length names" and "\<forall>n \<in> set names. n \<noteq> [] \<and> CHR '','' \<notin> set n \<and> (\<forall>c \<in> set n. \<not> is_space c)"
  shows "(\<forall>n. gm_get (mg_DefaultNamespaces (co_Options co)) n = (if n \<in> set names then Some () else None))
    \<and> mon_namespace (co_HAProxyMonitor co) = join_with (CHR '','') names
    \<and> mon_namespace (co_HAProxyMonitor co) \<notin> set names"
proof -
  from assms(1) obtain ns where ns: "lookupEnv ''WATCH_NAMESPACE'' = Some ns" "co_Options co = mgrOptions flags ns"
    "NewHAProxyMonitor k ns 8405 ''/'' (5 * second) = Inr (co_HAProxyMonitor co)"
    by (rule main_components)
  then have "ns = join_with (CHR '','') names" using assms(2) by simp
  moreover have "split_on (CHR '','') (join_with (CHR '','') names) = names"
    using assms(3,4) by (intro split_on_join) auto
  moreover have "TrimSpace n = n" if "n \<in> set names" for n
    using assms(4) that by (intro TrimSpace_id) simp
  then have "TrimSpace ` set names = set names" by force
  moreover have "mon_namespace (co_HAProxyMonitor co) = ns" using new_monitor_fields [OF ns(3)] by simp
  moreover have "CHR '','' \<in> set (join_with (CHR '','') names)" proof (cases names)
    case (Cons n ns)
    then show ?thesis using assms(3) by (cases ns) auto
  qed (use assms(3) in simp)
  ultimately show ?thesis using ns(2) assms(4) by (auto simp: mgrOptions_def setupCacheNamespaces_get)
qed

theorem namespace_list_ignored_by_monitor_witness:
  "\<exists>co. main mem_kube (\<lambda>_. None) (sample_env ''east,west'') default_flags = Inr co
     \<and> gm_get (mg_DefaultNamespaces (co_Options co)) ''east'' = Some () \<and> mon_namespace (co_HAProxyMonitor co) = ''east,west''"
proof -
  obtain co where co: "main mem_kube (\<lambda>_. None) (sample_env ''east,west'') default_flags = Inr co" using sample_main by blast
  have "sample_env ''east,west'' ''WATCH_NAMESPACE'' = Some (join_with (CHR '','') [''east'', ''west''])" by (simp add: sample_env_def)
  from namespace_list_ignored_by_monitor [OF co this] co show ?thesis by (simp add: is_space_def)
qed

section \<open>From the reconcilers to HAProxy\<close>

text \<open>
  What Kubernetes does with a StatefulSet and its container, a parameter with documented laws: a pod is named after the
  StatefulSet and its ordinal; a variable that refers to the field \<^verbatim>\<open>metadata.name\<close> has the name of the pod; and a
  reference to a variable in an argument is replaced by its value.
\<close>

locale kubernetes_pods =
  fixes pod_of :: "string \<Rightarrow> int \<Rightarrow> string"
    and env_of :: "string \<Rightarrow> EnvVar list \<Rightarrow> string \<Rightarrow> string option"
    and expand :: "(string \<Rightarrow> string option) \<Rightarrow> string \<Rightarrow> string"
  assumes pod_named: "0 \<le> i \<Longrightarrow> pod_of name i = name @ ''-'' @ show_int i"
    and pod_field: "distinct (map env_Name vars) \<Longrightarrow> v \<in> set vars \<Longrightarrow> env_FieldPath v = Some ''metadata.name'' \<Longrightarrow>
      env_of pod vars (env_Name v) = Some pod"
    and expand_plain: "CHR ''$'' \<notin> set s \<Longrightarrow> expand env s = s"
    and expand_ref: "CHR ''$'' \<notin> set pre \<Longrightarrow> CHR '')'' \<notin> set var \<Longrightarrow> env var = Some val \<Longrightarrow>
      expand env (pre @ ''$('' @ var @ '')'' @ post) = pre @ val @ expand env post"
begin

lemma config_argument:
  assumes "0 \<le> i"
  shows "take 2 (drop 1 (map (expand (env_of (pod_of (deploymentName lb) i) (ct_Env (haproxy_container lb)))) (ct_Args (haproxy_container lb))))
    = [''-f'', haproxyConfigMapPath @ ''/'' @ podName lb i @ ''.cfg'']"
proof -
  let ?env = "env_of (pod_of (deploymentName lb) i) (ct_Env (haproxy_container lb))"
  have pod: "?env ''POD_NAME'' = Some (podName lb i)"
    using pod_field [of "ct_Env (haproxy_container lb)" "\<lparr>env_Name = ''POD_NAME'', env_FieldPath = Some ''metadata.name''\<rparr>" "pod_of (deploymentName lb) i"]
      pod_named [OF assms, of "deploymentName lb"]
    by (simp add: haproxy_container_def podName_def deploymentName_def)
  have "expand ?env (''/etc/haproxy/static/'' @ ''$('' @ ''POD_NAME'' @ '')'' @ ''.cfg'') = haproxyConfigMapPath @ ''/'' @ podName lb i @ ''.cfg''"
    by (subst expand_ref [of "''/etc/haproxy/static/''" "''POD_NAME''" ?env "podName lb i"])
      (simp_all add: pod expand_plain haproxyConfigMapPath_def)
  moreover have "expand ?env ''-f'' = ''-f''" by (rule expand_plain) simp
  ultimately show ?thesis by (simp add: haproxy_container_def)
qed

end

text \<open>A kubelet that follows these laws, with the escape \<^verbatim>\<open>$$\<close> and references that are left alone when they are not set.\<close>

definition kubelet_env :: "string \<Rightarrow> EnvVar list \<Rightarrow> string \<Rightarrow> string option" where
  "kubelet_env pod vars = map_of (map (\<lambda>v. (env_Name v, pod)) (filter (\<lambda>v. env_FieldPath v = Some ''metadata.name'') vars))"

function expand_refs :: "(string \<Rightarrow> string option) \<Rightarrow> string \<Rightarrow> string" where
  "expand_refs env s =
     (case s of
        [] \<Rightarrow> []
      | [c] \<Rightarrow> [c]
      | c # d # ds \<Rightarrow>
          if c \<noteq> CHR ''$'' then c # expand_refs env (d # ds)
          else if d = CHR ''$'' then d # expand_refs env ds
          else if d = CHR ''('' \<and> CHR '')'' \<in> set ds
          then let var = takeWhile (\<lambda>x. x \<noteq> CHR '')'') ds
               in (case env var of Some v \<Rightarrow> v | None \<Rightarrow> ''$('' @ var @ '')'') @ expand_refs env (drop (length var + 1) ds)
          else c # d # expand_refs env ds)"
  by pat_completeness auto
termination
  by (relation "measure (\<lambda>(env, s). length s)") auto

declare expand_refs.simps [simp del]

lemma expand_refs_plain: "CHR ''$'' \<notin> set pre \<Longrightarrow> expand_refs env (pre @ s) = pre @ expand_refs env s"
proof (induction pre)
  case (Cons c pre)
  then show ?case by (subst expand_refs.simps) (auto split: list.splits simp: expand_refs.simps [of env "[]"])
qed simp

lemma expand_refs_ref:
  "CHR '')'' \<notin> set var \<Longrightarrow> env var = Some v \<Longrightarrow> expand_refs env (''$('' @ var @ '')'' @ post) = v @ expand_refs env post"
  by (subst expand_refs.simps) (simp add: takeWhile_append)

interpretation kubelet: kubernetes_pods "\<lambda>name i. name @ ''-'' @ show_int i" kubelet_env expand_refs
proof unfold_locales
  show "expand_refs env s = s" if "CHR ''$'' \<notin> set s" for env s
    using expand_refs_plain [OF that, of env "[]"] by (simp add: expand_refs.simps [of env "[]"])
  show "expand_refs env (pre @ ''$('' @ var @ '')'' @ post) = pre @ v @ expand_refs env post"
    if "CHR ''$'' \<notin> set pre" "CHR '')'' \<notin> set var" "env var = Some v" for pre var env v post
    using expand_refs_plain [OF that(1)] expand_refs_ref [where env = env, OF that(2,3)] by simp
  show "kubelet_env pod vars (env_Name v) = Some pod"
    if "distinct (map env_Name vars)" "v \<in> set vars" "env_FieldPath v = Some ''metadata.name''" for vars v pod
    using that by (induction vars) (auto simp: kubelet_env_def)
qed simp

text \<open>
  C15: every pod finds its configuration: after a successful ReconcileConfig, the file the container of replica i
  is started with, its pod name filled in by Kubernetes as documented, is an entry of the ConfigMap that is
  mounted at that path, for every replica.
\<close>

theorem every_replica_finds_config:
  assumes pods: "kubernetes_pods pod_of env_of expand"
    and doc: "create_or_update_doc (CreateOrUpdateConfigMap k) stored cm_key cm_payload" and ord: "range_order ord"
    and run: "ReconcileConfig k ord lb w = (Inr (), w')" and i: "0 \<le> i" "i < sint (lbs_Replicas (lb_Spec lb))"
  shows "\<exists>ct vm vol cm n content. pds_Containers (pts_Spec (pod_template lb)) = [ct] \<and> vm \<in> set (ct_VolumeMounts ct)
    \<and> vol \<in> set (pds_Volumes (pts_Spec (pod_template lb))) \<and> vol_Name vol = vm_Name vm
    \<and> vol_Source vol = ConfigMapVolume (nn_Name (config_key lb))
    \<and> take 2 (drop 1 (map (expand (env_of (pod_of (deploymentName lb) i) (ct_Env ct))) (ct_Args ct))) = [''-f'', vm_MountPath vm @ ''/'' @ n]
    \<and> stored w' (config_key lb) = Some cm \<and> cm_payload cm n = Some content"
proof -
  from ReconcileConfig_stored [OF doc ord run] obtain fes bes cfg cm where
    cfg: "BuildConfig lb fes bes = Inr cfg" and cm: "stored w' (config_key lb) = Some cm"
    and pay: "\<forall>pod. gm_get cfg pod \<noteq> None \<longrightarrow> cm_payload cm (pod @ ''.cfg'') = gm_get cfg pod"
    by blast
  obtain body where body: "loadBalancerConfig fes bes = Inr body" using cfg by (auto simp: BuildConfig_def res_bind_eq_Inr)
  have "i \<in> set (replica_indices lb)" using i by (simp add: set_replica_indices)
  then have "gm_get cfg (podName lb i) = Some (static_config @ body)" using BuildConfig_get [OF body, of lb] cfg by auto
  then have content: "cm_payload cm (podName lb i @ ''.cfg'') = Some (static_config @ body)" using pay by simp
  let ?vm = "\<lparr>vm_Name = haproxyConfigMapVolumeName, vm_MountPath = haproxyConfigMapPath, vm_ReadOnly = True\<rparr>"
  let ?vol = "\<lparr>vol_Name = haproxyConfigMapVolumeName, vol_Source = ConfigMapVolume (configMapName lb)\<rparr>"
  note args = kubernetes_pods.config_argument [OF pods i(1), of lb]
  have parts: "pds_Containers (pts_Spec (pod_template lb)) = [haproxy_container lb]" "?vm \<in> set (ct_VolumeMounts (haproxy_container lb))"
    "?vol \<in> set (pds_Volumes (pts_Spec (pod_template lb)))"
    by (simp_all add: pod_template_def haproxy_container_def)
  show ?thesis
    by (rule exI [of _ "haproxy_container lb"], rule exI [of _ ?vm], rule exI [of _ ?vol], rule exI [of _ cm],
        rule exI [of _ "podName lb i @ ''.cfg''"], rule exI [of _ "static_config @ body"])
      (use parts args cm content in simp)
qed

theorem every_replica_finds_config_witness:
  "\<exists>w' cm n content. ReconcileConfig mem_kube id (sample_lb 1) sample_cluster = (Inr (), w')
     \<and> mem_configmaps w' (config_key (sample_lb 1)) = Some cm \<and> cm_payload cm n = Some content"
proof -
  obtain w' where run: "ReconcileConfig mem_kube id (sample_lb 1) sample_cluster = (Inr (), w')"
    using sample_ReconcileConfig by blast
  have "0 < sint (lbs_Replicas (lb_Spec (sample_lb 1)))" by simp
  from every_replica_finds_config [OF kubelet.kubernetes_pods_axioms mem_configmap_doc range_order_id(1) run order_refl this] run show ?thesis by blast
qed









end
